(* ===== verification/Js_Prelude.thy ===== *)
theory Js_Prelude
  imports Complex_Main "HOL-Library.AList" "HOL-Library.Monad_Syntax"
begin

text \<open>
  The part of JavaScript that the web site's code uses: dynamically typed values, truthiness,
  property access, the array methods \<open>findIndex\<close>, \<open>splice\<close>, \<open>filter(...)[0]\<close> and \<open>map\<close>, and
  the lemmas on lists and association lists that the component theories share.

  A value of type \<open>'a res\<close> is the outcome of an expression that may throw: \<open>None\<close> is the
  \<open>TypeError\<close> of a property access on \<open>undefined\<close> or \<open>null\<close> or of a call of something that is
  no function. The \<open>do\<close> notation of the library sequences such expressions.
\<close>

named_theorems js_simps \<open>rules that evaluate JavaScript values and property accesses\<close>

section \<open>Values\<close>

datatype js =
    Undef
  | Null
  | JBool bool
  | JNum rat
  | JStr string
  | JArr "js list"
  | JObj "(string \<times> js) list"

type_synonym 'a res = "'a option"

abbreviation (input) TypeError :: "'a res" where
  "TypeError \<equiv> None"

text \<open>\<open>if (v)\<close>, \<open>!v\<close>, \<open>v && w\<close>: the values that count as true.\<close>

fun truthy :: "js \<Rightarrow> bool" where
  "truthy Undef = False"
| "truthy Null = False"
| "truthy (JBool b) = b"
| "truthy (JNum n) = (n \<noteq> 0)"
| "truthy (JStr s) = (s \<noteq> '''')"
| "truthy (JArr xs) = True"
| "truthy (JObj kvs) = True"

fun is_prim :: "js \<Rightarrow> bool" where
  "is_prim (JArr xs) = False"
| "is_prim (JObj kvs) = False"
| "is_prim v = True"

text \<open>
  \<open>===\<close> on primitive values. An array or object equals only itself; the code compares ids and
  names with it, which are primitive, so the model answers \<open>False\<close> there.
\<close>

definition js_seq :: "js \<Rightarrow> js \<Rightarrow> bool" where
  "js_seq a b \<longleftrightarrow> a = b \<and> is_prim a"

lemma js_seq_JStr [simp]: "js_seq (JStr a) v \<longleftrightarrow> v = JStr a" "js_seq v (JStr a) \<longleftrightarrow> v = JStr a"
  by (auto simp: js_seq_def)

lemma js_seq_Undef [simp]: "js_seq Undef v \<longleftrightarrow> v = Undef" "js_seq v Undef \<longleftrightarrow> v = Undef"
  by (auto simp: js_seq_def)

lemma js_seq_refl [simp]: "js_seq a a = is_prim a"
  by (simp add: js_seq_def)

lemma js_seq_prim: "is_prim a \<Longrightarrow> js_seq a b \<longleftrightarrow> a = b"
  by (auto simp: js_seq_def)

lemma js_seq_sym: "js_seq a b = js_seq b a"
  by (auto simp: js_seq_def)

section \<open>Objects\<close>

definition obj_lookup :: "(string \<times> js) list \<Rightarrow> string \<Rightarrow> js" where
  "obj_lookup kvs k = (case map_of kvs k of None \<Rightarrow> Undef | Some v \<Rightarrow> v)"

text \<open>\<open>v[k]\<close>: it throws on \<open>undefined\<close> and \<open>null\<close> and is \<open>undefined\<close> for a missing key.\<close>

fun js_get :: "js \<Rightarrow> string \<Rightarrow> js res" where
  "js_get Undef k = TypeError"
| "js_get Null k = TypeError"
| "js_get (JObj kvs) k = Some (obj_lookup kvs k)"
| "js_get _ k = Some Undef"

text \<open>\<open>if (v) { o[k] = v; }\<close>\<close>

definition put_truthy :: "string \<Rightarrow> js \<Rightarrow> (string \<times> js) list \<Rightarrow> (string \<times> js) list" where
  "put_truthy k v kvs = (if truthy v then AList.update k v kvs else kvs)"

text \<open>\<open>if (c) { o[k] = v; }\<close> and \<open>if (x) { o[k] = x.getJson(); }\<close> for a field that holds an object or nothing\<close>

definition put_if :: "bool \<Rightarrow> string \<Rightarrow> js \<Rightarrow> (string \<times> js) list \<Rightarrow> (string \<times> js) list" where
  "put_if c k v kvs = (if c then AList.update k v kvs else kvs)"

definition put_opt ::
    "string \<Rightarrow> ('a \<Rightarrow> js) \<Rightarrow> 'a option \<Rightarrow> (string \<times> js) list \<Rightarrow> (string \<times> js) list" where
  "put_opt k getJson x kvs = (case x of None \<Rightarrow> kvs | Some y \<Rightarrow> AList.update k (getJson y) kvs)"

lemma obj_lookup_Nil [simp]: "obj_lookup [] k = Undef"
  by (simp add: obj_lookup_def)

lemma obj_lookup_Cons [simp]: "obj_lookup ((k, v) # kvs) k' = (if k = k' then v else obj_lookup kvs k')"
  by (simp add: obj_lookup_def)

lemma obj_lookup_update [simp]:
  "obj_lookup (AList.update k v kvs) k' = (if k = k' then v else obj_lookup kvs k')"
  by (simp add: obj_lookup_def update_conv')

lemma obj_lookup_put_truthy [simp]:
  "obj_lookup (put_truthy k v kvs) k' = (if k = k' \<and> truthy v then v else obj_lookup kvs k')"
  by (simp add: put_truthy_def)

lemma obj_lookup_put_if [simp]:
  "obj_lookup (put_if c k v kvs) k' = (if k = k' \<and> c then v else obj_lookup kvs k')"
  by (simp add: put_if_def)

lemma obj_lookup_put_opt [simp]:
  "obj_lookup (put_opt k e x kvs) k' =
     (if k = k' then case x of None \<Rightarrow> obj_lookup kvs k | Some y \<Rightarrow> e y else obj_lookup kvs k')"
  by (simp add: put_opt_def split: option.split)

lemma map_fst_update: "k \<in> fst ` set kvs \<Longrightarrow> map fst (AList.update k v kvs) = map fst kvs"
  by (induction kvs) auto

lemma map_fst_update_new: "k \<notin> fst ` set kvs \<Longrightarrow> AList.update k v kvs = kvs @ [(k, v)]"
  by (induction kvs) auto

text \<open>\<open>v.toLowerCase()\<close>, on the ASCII letters.\<close>

definition lower_char :: "char \<Rightarrow> char" where
  "lower_char c = (let n = of_char c :: nat in if 65 \<le> n \<and> n \<le> 90 then char_of (n + 32) else c)"

fun js_toLowerCase :: "js \<Rightarrow> js res" where
  "js_toLowerCase (JStr s) = Some (JStr (map lower_char s))"
| "js_toLowerCase _ = TypeError"

definition lower_cased :: "string \<Rightarrow> bool" where
  "lower_cased s \<longleftrightarrow> map lower_char s = s"

lemma lower_char_idem [simp]: "lower_char (lower_char c) = lower_char c"
  by (auto simp: lower_char_def Let_def)

section \<open>Arrays\<close>

fun js_findIndex :: "('a \<Rightarrow> bool) \<Rightarrow> 'a list \<Rightarrow> int" where
  "js_findIndex p [] = -1"
| "js_findIndex p (x # xs) =
     (if p x then 0 else let k = js_findIndex p xs in if k < 0 then -1 else k + 1)"

text \<open>\<open>xs.splice(i, n)\<close>: a negative start counts from the end, as in \<open>splice(-1, 1)\<close>.\<close>

definition js_splice :: "int \<Rightarrow> nat \<Rightarrow> 'a list \<Rightarrow> 'a list" where
  "js_splice i n xs =
     (let len = int (length xs);
          s = nat (if i < 0 then max 0 (len + i) else min i len)
      in take s xs @ drop (s + n) xs)"

text \<open>\<open>xs.filter(p)[0]\<close>: \<open>None\<close> is \<open>undefined\<close>.\<close>

definition js_filter0 :: "('a \<Rightarrow> bool) \<Rightarrow> 'a list \<Rightarrow> 'a option" where
  "js_filter0 p xs = (case filter p xs of [] \<Rightarrow> None | y # _ \<Rightarrow> Some y)"

text \<open>\<open>v.map(f)\<close> for a callback that may throw.\<close>

fun js_map :: "(js \<Rightarrow> 'a res) \<Rightarrow> js \<Rightarrow> 'a list res" where
  "js_map f (JArr xs) = those (map f xs)"
| "js_map f _ = TypeError"

fun remove_first :: "('a \<Rightarrow> bool) \<Rightarrow> 'a list \<Rightarrow> 'a list" where
  "remove_first p [] = []"
| "remove_first p (x # xs) = (if p x then xs else x # remove_first p xs)"

lemma js_filter0_find [simp]: "js_filter0 p xs = List.find p xs"
  by (induction xs) (auto simp: js_filter0_def)

lemma js_findIndex_ge: "-1 \<le> js_findIndex p xs"
  by (induction xs) (auto simp: Let_def)

lemma js_findIndex_neg: "js_findIndex p xs < 0 \<longleftrightarrow> (\<forall>x \<in> set xs. \<not> p x)"
  by (induction xs) (auto simp: Let_def)

lemma js_findIndex_none: "\<forall>x \<in> set xs. \<not> p x \<Longrightarrow> js_findIndex p xs = -1"
  using js_findIndex_neg [of p xs] js_findIndex_ge [of p xs] by auto

lemma js_findIndex_less: "js_findIndex p xs < int (length xs)"
  by (induction xs) (auto simp: Let_def)

lemma js_splice_minus_one: "js_splice (-1) (Suc 0) xs = butlast xs"
  by (cases xs rule: rev_cases) (auto simp: js_splice_def)

lemma js_splice_Cons_Suc:
  "0 \<le> k \<Longrightarrow> js_splice (k + 1) n (x # xs) = x # js_splice k n xs"
proof -
  assume k: "0 \<le> k"
  have "nat (min (k + 1) (int (length (x # xs)))) = Suc (nat (min k (int (length xs))))"
    using k by (simp add: min_def nat_add_distrib)
  then show ?thesis using k by (simp add: js_splice_def Let_def)
qed

lemma js_splice_in_range:
  "i < length xs \<Longrightarrow> js_splice (int i) (Suc 0) xs = take i xs @ drop (Suc i) xs"
  by (simp add: js_splice_def)

lemma set_js_splice_subset: "set (js_splice i n xs) \<subseteq> set xs"
  by (auto simp: js_splice_def Let_def dest: in_set_takeD in_set_dropD)

lemma distinct_map_js_splice: "distinct (map f xs) \<Longrightarrow> distinct (map f (js_splice i n xs))"
proof -
  assume d: "distinct (map f xs)"
  define k where "k = nat (if i < 0 then max 0 (int (length xs) + i) else min i (int (length xs)))"
  have "set (take k (map f xs)) \<inter> set (drop (k + n) (map f xs)) = {}"
    using set_take_disj_set_drop_if_distinct [OF d, of k "k + n"] by simp
  then show ?thesis using d distinct_take [OF d] distinct_drop [OF d]
    by (simp add: js_splice_def Let_def k_def take_map drop_map)
qed

text \<open>
  \<open>xs.splice(xs.findIndex(p), 1)\<close> removes the first match; without a match it removes the last
  element of the array.
\<close>

lemma js_splice_findIndex:
  "js_splice (js_findIndex p xs) (Suc 0) xs =
     (if \<exists>x \<in> set xs. p x then remove_first p xs else butlast xs)"
proof (cases "\<exists>x \<in> set xs. p x")
  case False
  then show ?thesis by (simp add: js_findIndex_none js_splice_minus_one)
next
  case True
  then have "js_splice (js_findIndex p xs) (Suc 0) xs = remove_first p xs"
  proof (induction xs)
    case (Cons x xs)
    show ?case
    proof (cases "p x")
      case True
      then show ?thesis by (simp add: js_splice_def)
    next
      case False
      with Cons.prems have ex: "\<exists>x \<in> set xs. p x" by simp
      then have nn: "0 \<le> js_findIndex p xs" using js_findIndex_neg [of p xs] by force
      with False js_splice_Cons_Suc [OF nn, of "Suc 0" x xs] Cons.IH [OF ex]
      show ?thesis by (simp add: Let_def)
    qed
  qed simp
  with True show ?thesis by simp
qed

lemma set_remove_first_subset: "set (remove_first p xs) \<subseteq> set xs"
  by (induction xs) auto

lemma distinct_map_remove_first: "distinct (map f xs) \<Longrightarrow> distinct (map f (remove_first p xs))"
  using set_remove_first_subset by (induction xs) (auto, fastforce)

lemma remove_first_unique:
  "distinct (map f xs) \<Longrightarrow> remove_first (\<lambda>x. f x = k) xs = filter (\<lambda>x. f x \<noteq> k) xs"
proof (induction xs)
  case (Cons x xs)
  show ?case
  proof (cases "f x = k")
    case True
    with Cons.prems have "\<forall>y \<in> set xs. f y \<noteq> k" by (auto simp: image_iff)
    then show ?thesis using True by (simp add: filter_id_conv)
  next
    case False
    with Cons show ?thesis by simp
  qed
qed simp

lemma find_distinct_key:
  "distinct (map f xs) \<Longrightarrow> x \<in> set xs \<Longrightarrow> List.find (\<lambda>y. f y = f x) xs = Some x"
  by (induction xs) (auto simp: image_iff)

lemma find_Some_set: "List.find p xs = Some x \<Longrightarrow> x \<in> set xs \<and> p x"
  by (induction xs) (auto split: if_splits)

lemma find_None_set: "List.find p xs = None \<longleftrightarrow> (\<forall>x \<in> set xs. \<not> p x)"
  by (induction xs) auto

lemma those_map_Some [simp]: "those (map Some xs) = Some xs"
  by (induction xs) auto

lemma those_map_eq_Some:
  "(\<And>x. x \<in> set xs \<Longrightarrow> f x = Some (g x)) \<Longrightarrow> those (map f xs) = Some (map g xs)"
  by (induction xs) auto

lemma those_length: "those ys = Some zs \<Longrightarrow> length zs = length ys"
  by (induction ys arbitrary: zs) (auto split: option.splits)

lemmas js_arith = js_splice_findIndex js_splice_in_range js_findIndex_none

text \<open>\<open>==\<close>: as \<open>===\<close>, and \<open>undefined\<close> and \<open>null\<close> are equal; the code never compares a number with a string.\<close>

definition js_eq :: "js \<Rightarrow> js \<Rightarrow> bool" where
  "js_eq a b \<longleftrightarrow> js_seq a b \<or> (a \<in> {Undef, Null} \<and> b \<in> {Undef, Null})"

text \<open>\<open>let v = d; if (w) { v = w; }\<close>\<close>

definition or_default :: "js \<Rightarrow> js \<Rightarrow> js" where
  "or_default w d = (if truthy w then w else d)"

lemma or_default_idem [simp]: "or_default (or_default w d) d = or_default w d"
  by (simp add: or_default_def)

text \<open>\<open>Object.keys(v).length > 0\<close>\<close>

fun js_has_keys :: "js \<Rightarrow> bool" where
  "js_has_keys (JObj kvs) = (kvs \<noteq> [])"
| "js_has_keys (JArr xs) = (xs \<noteq> [])"
| "js_has_keys (JStr s) = (s \<noteq> '''')"
| "js_has_keys _ = False"

section \<open>Codecs\<close>

text \<open>
  Every class that is stored in a workflow document has a method \<open>getJson\<close> and a static method
  \<open>build\<close>. The contract between them: on an instance for which \<open>build\<close> does not throw, building
  from the document gives the instance \<open>norm x\<close>, which says exactly what saving and reloading
  keeps, and a reloaded instance is reloaded without further change. What follows is proved once
  and used by every class that contains instances of another one.
\<close>

locale json_codec =
  fixes enc :: "'a \<Rightarrow> js"
    and dec :: "js \<Rightarrow> 'b res"
    and norm :: "'a \<Rightarrow> 'b"
    and ok :: "'a \<Rightarrow> bool"
  assumes dec_enc: "ok x \<Longrightarrow> dec (enc x) = Some (norm x)"
begin

lemma dec_enc_list: "list_all ok xs \<Longrightarrow> js_map dec (JArr (map enc xs)) = Some (map norm xs)"
  by (induction xs) (auto simp: dec_enc)

lemma enc_separates: "ok x \<Longrightarrow> ok y \<Longrightarrow> enc x = enc y \<Longrightarrow> norm x = norm y"
  by (metis dec_enc option.inject)

end

locale stable_codec = json_codec enc dec norm ok
  for enc :: "'a \<Rightarrow> js" and dec :: "js \<Rightarrow> 'a res" and norm :: "'a \<Rightarrow> 'a" and ok :: "'a \<Rightarrow> bool" +
  assumes ok_norm: "ok x \<Longrightarrow> ok (norm x)"
    and norm_norm: "norm (norm x) = norm x"
begin

lemma reload_stable: "ok x \<Longrightarrow> dec (enc x) = Some y \<Longrightarrow> dec (enc y) = Some y"
  using dec_enc ok_norm norm_norm by auto

lemma lossless_iff: "ok x \<Longrightarrow> dec (enc x) = Some x \<longleftrightarrow> norm x = x"
  by (simp add: dec_enc)

lemma lossless_list:
  "list_all ok xs \<Longrightarrow> list_all (\<lambda>x. norm x = x) xs \<Longrightarrow> js_map dec (JArr (map enc xs)) = Some xs"
  by (simp only: dec_enc_list) (induction xs, auto)

end

end
