(* ===== verification/SM_States.thy ===== *)
theory SM_States
  imports Js_Prelude
begin

text \<open>
  The state classes of a workflow (stores/statemachines/models): filters, transitions, conditions,
  actions and the four kinds of state, with their methods. A class is a record and a subclass
  extends it; a field that \<open>build\<close> copies unchecked from a JSON document has type \<open>js\<close>. Methods
  that mutate the object return the new one. A \<open>BehaviorSubject\<close> is represented by the value it
  holds.
\<close>

section \<open>Data filters\<close>

record state_data_filter =
  sdf_input :: js
  sdf_output :: js

definition new_StateDataFilter :: state_data_filter where
  "new_StateDataFilter = \<lparr>sdf_input = JStr '''', sdf_output = JStr ''''\<rparr>"

definition StateDataFilter_getJson :: "state_data_filter \<Rightarrow> js" where
  "StateDataFilter_getJson f =
     JObj (put_truthy ''output'' (sdf_output f) (put_truthy ''input'' (sdf_input f) []))"

text \<open>\<open>Some None\<close>: the method returns \<open>undefined\<close>.\<close>

definition StateDataFilter_build :: "js \<Rightarrow> state_data_filter option res" where
  "StateDataFilter_build json =
     (if \<not> truthy json then Some None
      else do {
        i \<leftarrow> js_get json ''input'';
        p \<leftarrow> js_get json ''output'';
        Some (Some (new_StateDataFilter\<lparr>sdf_input := or_default i (JStr ''''),
                                        sdf_output := or_default p (JStr '''')\<rparr>))
      })"

text \<open>\<open>this.stateDataFilter?.getJson()\<close>\<close>

definition opt_filter_json :: "state_data_filter option \<Rightarrow> js" where
  "opt_filter_json f = (case f of None \<Rightarrow> Undef | Some f' \<Rightarrow> StateDataFilter_getJson f')"

record event_data_filter =
  edf_useData :: js
  edf_data :: js
  edf_toStateData :: js

definition new_EventDataFilter :: event_data_filter where
  "new_EventDataFilter = \<lparr>edf_useData = JBool True, edf_data = Undef, edf_toStateData = Undef\<rparr>"

definition EventDataFilter_getJson :: "event_data_filter \<Rightarrow> js" where
  "EventDataFilter_getJson f =
     JObj (put_truthy ''toStateData'' (edf_toStateData f)
       (put_truthy ''data'' (edf_data f) [(''useResults'', edf_useData f)]))"

definition EventDataFilter_build :: "js \<Rightarrow> event_data_filter res" where
  "EventDataFilter_build json = do {
     u \<leftarrow> js_get json ''useData'';
     d \<leftarrow> js_get json ''data'';
     t \<leftarrow> js_get json ''toStateData'';
     Some (new_EventDataFilter\<lparr>edf_useData := u, edf_data := or_default d Undef,
                               edf_toStateData := or_default t Undef\<rparr>)
   }"

section \<open>Transitions\<close>

text \<open>
  The field \<open>label\<close> of a transition holds a \<open>BehaviorSubject\<close> (\<open>Subject v\<close>, with current value
  \<open>v\<close>) until a \<open>build\<close> method overwrites it with the document's \<open>label\<close> property (\<open>Raw\<close>).
\<close>

datatype label = Subject js | Raw js

text \<open>\<open>this.label?.next(v)\<close>\<close>

fun label_next :: "js \<Rightarrow> label \<Rightarrow> label res" where
  "label_next v (Subject _) = Some (Subject v)"
| "label_next v (Raw w) = (if w \<in> {Undef, Null} then Some (Raw w) else TypeError)"

fun label_present :: "label \<Rightarrow> bool" where
  "label_present (Subject _) = True"
| "label_present (Raw w) = truthy w"

record empty_transition =
  et_transition :: js
  et_label :: label

definition new_EmptyTransition :: empty_transition where
  "new_EmptyTransition = \<lparr>et_transition = JStr '''', et_label = Subject (JStr ''transition'')\<rparr>"

definition EmptyTransition_build :: "js \<Rightarrow> empty_transition res" where
  "EmptyTransition_build json = do {
     l \<leftarrow> js_get json ''label'';
     t \<leftarrow> js_get json ''transition'';
     Some (new_EmptyTransition\<lparr>et_label := Raw l, et_transition := t\<rparr>)
   }"

record event_condition =
  ec_eventRef :: js
  ec_transition :: js
  ec_label :: label
  ec_eventDataFilter :: "event_data_filter option"

definition new_EventCondition :: event_condition where
  "new_EventCondition = \<lparr>ec_eventRef = JStr '''', ec_transition = JStr '''',
     ec_label = Subject (JStr ''event''), ec_eventDataFilter = None\<rparr>"

definition set_eventRef :: "js \<Rightarrow> event_condition \<Rightarrow> event_condition res" where
  "set_eventRef str c = do {
     l \<leftarrow> label_next str (ec_label c);
     Some (c\<lparr>ec_eventRef := str, ec_label := l\<rparr>)
   }"

definition EventCondition_getJson :: "event_condition \<Rightarrow> js" where
  "EventCondition_getJson c =
     JObj (put_opt ''eventDataFilter'' EventDataFilter_getJson (ec_eventDataFilter c)
       [(''eventRef'', ec_eventRef c), (''transition'', ec_transition c)])"

definition EventCondition_build :: "js \<Rightarrow> event_condition res" where
  "EventCondition_build json = do {
     r \<leftarrow> js_get json ''eventRef'';
     c \<leftarrow> set_eventRef r new_EventCondition;
     l \<leftarrow> js_get json ''label'';
     t \<leftarrow> js_get json ''transition'';
     f \<leftarrow> js_get json ''eventDataFilter'';
     d \<leftarrow> (if truthy f then map_option Some (EventDataFilter_build f) else Some None);
     Some (c\<lparr>ec_label := Raw l, ec_transition := t, ec_eventDataFilter := d\<rparr>)
   }"

record data_condition =
  dc_name :: js
  dc_condition :: js
  dc_transition :: js
  dc_label :: label

definition new_DataCondition :: data_condition where
  "new_DataCondition = \<lparr>dc_name = Undef, dc_condition = JStr '''', dc_transition = JStr '''',
     dc_label = Subject (JStr '''')\<rparr>"

definition set_condition :: "js \<Rightarrow> data_condition \<Rightarrow> data_condition res" where
  "set_condition str c = do {
     l \<leftarrow> label_next str (dc_label c);
     Some (c\<lparr>dc_condition := str, dc_label := l\<rparr>)
   }"

definition DataCondition_getJson :: "data_condition \<Rightarrow> js" where
  "DataCondition_getJson c =
     JObj (put_truthy ''condition'' (dc_condition c)
       [(''name'', dc_name c), (''transition'', dc_transition c)])"

definition DataCondition_build :: "js \<Rightarrow> data_condition res" where
  "DataCondition_build json = do {
     e \<leftarrow> js_get json ''condition'';
     c1 \<leftarrow> (if truthy e then set_condition e new_DataCondition else Some new_DataCondition);
     c2 \<leftarrow> set_condition e c1;
     n \<leftarrow> js_get json ''name'';
     t \<leftarrow> js_get json ''transition'';
     Some (c2\<lparr>dc_name := n, dc_transition := t\<rparr>)
   }"

text \<open>The subclasses of \<open>BaseTransition\<close>.\<close>

datatype transition = EmptyT empty_transition | EventT event_condition | DataT data_condition

fun transition_target :: "transition \<Rightarrow> js" where
  "transition_target (EmptyT t) = et_transition t"
| "transition_target (EventT c) = ec_transition c"
| "transition_target (DataT c) = dc_transition c"

fun getType :: "transition \<Rightarrow> string" where
  "getType (EmptyT _) = ''empty''"
| "getType (EventT _) = ''event''"
| "getType (DataT _) = ''data''"

fun getLabel :: "transition \<Rightarrow> label" where
  "getLabel (EmptyT t) = et_label t"
| "getLabel (EventT c) = Subject (JStr ''event'')"
| "getLabel (DataT c) = dc_label c"

section \<open>States\<close>

record state_base =
  st_id :: js
  st_name :: js
  st_end :: js
  st_filter :: "state_data_filter option"

record flowable_state = state_base +
  fl_transition :: js

text \<open>\<open>FlowableStateMachineState\<close>, inherited by the inject state.\<close>

definition flow_setTransitions ::
    "transition list \<Rightarrow> 'a flowable_state_scheme \<Rightarrow> 'a flowable_state_scheme" where
  "flow_setTransitions ts s =
     (case ts of
        t # _ \<Rightarrow> s\<lparr>fl_transition := transition_target t, st_end := JBool False\<rparr>
      | [] \<Rightarrow> s\<lparr>fl_transition := JStr '''', st_end := JBool True\<rparr>)"

definition flow_tryAddTransition ::
    "js \<Rightarrow> 'a flowable_state_scheme \<Rightarrow> js \<times> 'a flowable_state_scheme" where
  "flow_tryAddTransition n s =
     (fl_transition s, s\<lparr>st_end := JBool False, fl_transition := n\<rparr>)"

definition flow_getNextTransitions :: "'a flowable_state_scheme \<Rightarrow> transition list" where
  "flow_getNextTransitions s = [EmptyT (new_EmptyTransition\<lparr>et_transition := fl_transition s\<rparr>)]"

record inject_state = flowable_state +
  in_data :: js

definition new_InjectState :: inject_state where
  "new_InjectState = \<lparr>st_id = Undef, st_name = Undef, st_end = JBool False, st_filter = None,
     fl_transition = JStr '''', in_data = Null\<rparr>"

definition Inject_getJson :: "inject_state \<Rightarrow> js" where
  "Inject_getJson s =
     JObj (put_if (truthy (in_data s) \<and> js_has_keys (in_data s)) ''data'' (in_data s)
       (put_opt ''stateDataFilter'' StateDataFilter_getJson (st_filter s)
         (put_truthy ''transition'' (fl_transition s)
           [(''id'', st_id s), (''name'', st_name s), (''type'', JStr ''inject''),
            (''end'', st_end s)])))"

text \<open>Actions of an operation state.\<close>

record function_ref =
  fr_refName :: js
  fr_arguments :: js

definition new_FunctionRef :: function_ref where
  "new_FunctionRef = \<lparr>fr_refName = Undef, fr_arguments = Undef\<rparr>"

definition FunctionRef_getJson :: "function_ref \<Rightarrow> js" where
  "FunctionRef_getJson r = JObj (put_truthy ''arguments'' (fr_arguments r) [(''refName'', fr_refName r)])"

definition FunctionRef_build :: "js \<Rightarrow> function_ref res" where
  "FunctionRef_build json = do {
     a \<leftarrow> js_get json ''arguments'';
     n \<leftarrow> js_get json ''refName'';
     Some (new_FunctionRef\<lparr>fr_arguments := or_default a Undef, fr_refName := n\<rparr>)
   }"

record action_data_filter =
  adf_useResults :: js
  adf_results :: js
  adf_toStateData :: js

definition new_ActionDataFilter :: action_data_filter where
  "new_ActionDataFilter = \<lparr>adf_useResults = JBool True, adf_results = Undef, adf_toStateData = Undef\<rparr>"

definition ActionDataFilter_getJson :: "action_data_filter \<Rightarrow> js" where
  "ActionDataFilter_getJson f =
     JObj (put_truthy ''toStateData'' (adf_toStateData f)
       (put_truthy ''results'' (adf_results f) [(''useResults'', adf_useResults f)]))"

definition ActionDataFilter_build :: "js \<Rightarrow> action_data_filter res" where
  "ActionDataFilter_build json = do {
     u \<leftarrow> js_get json ''useResults'';
     r \<leftarrow> js_get json ''results'';
     t \<leftarrow> js_get json ''toStateData'';
     Some (new_ActionDataFilter\<lparr>adf_useResults := u, adf_results := or_default r Undef,
                                adf_toStateData := or_default t Undef\<rparr>)
   }"

record operation_action =
  oa_name :: js
  oa_functionRef :: "function_ref option"
  oa_actionDataFilter :: "action_data_filter option"

definition OperationAction_getJson :: "operation_action \<Rightarrow> js" where
  "OperationAction_getJson a =
     JObj (put_opt ''actionDataFilter'' ActionDataFilter_getJson (oa_actionDataFilter a)
       (put_opt ''functionRef'' FunctionRef_getJson (oa_functionRef a) [(''name'', oa_name a)]))"

definition OperationAction_build :: "js \<Rightarrow> operation_action res" where
  "OperationAction_build json = do {
     n \<leftarrow> js_get json ''name'';
     f \<leftarrow> js_get json ''functionRef'';
     fr \<leftarrow> (if truthy f then map_option Some (FunctionRef_build f) else Some None);
     d \<leftarrow> js_get json ''actionDataFilter'';
     df \<leftarrow> (if truthy d then map_option Some (ActionDataFilter_build d) else Some None);
     Some \<lparr>oa_name = n, oa_functionRef = fr, oa_actionDataFilter = df\<rparr>
   }"

record operation_state = flowable_state +
  op_actionMode :: js
  op_actions :: "operation_action list"

definition new_OperationState :: operation_state where
  "new_OperationState = \<lparr>st_id = Undef, st_name = Undef, st_end = JBool False, st_filter = None,
     fl_transition = JStr '''', op_actionMode = JStr ''sequential'', op_actions = []\<rparr>"

text \<open>\<open>OperationStateMachineState\<close> overrides the three inherited methods.\<close>

definition op_setTransitions :: "transition list \<Rightarrow> operation_state \<Rightarrow> operation_state" where
  "op_setTransitions ts s =
     (case ts of
        t # _ \<Rightarrow> s\<lparr>fl_transition := transition_target t, st_end := JBool False\<rparr>
      | [] \<Rightarrow> s\<lparr>st_end := JBool True, fl_transition := JStr ''''\<rparr>)"

definition op_tryAddTransition :: "js \<Rightarrow> operation_state \<Rightarrow> js \<times> operation_state" where
  "op_tryAddTransition n s = (fl_transition s, s\<lparr>st_end := JBool False, fl_transition := n\<rparr>)"

definition op_getNextTransitions :: "operation_state \<Rightarrow> transition list" where
  "op_getNextTransitions s = [EmptyT (new_EmptyTransition\<lparr>et_transition := fl_transition s\<rparr>)]"

definition Operation_getJson :: "operation_state \<Rightarrow> js" where
  "Operation_getJson s =
     JObj (put_truthy ''transition'' (fl_transition s)
       [(''id'', st_id s), (''name'', st_name s), (''stateDataFilter'', opt_filter_json (st_filter s)),
        (''type'', JStr ''operation''), (''actionMode'', op_actionMode s), (''end'', st_end s),
        (''actions'', JArr (map OperationAction_getJson (op_actions s)))])"

record foreach_state = state_base +
  fe_transition :: js

definition new_ForeachState :: foreach_state where
  "new_ForeachState = \<lparr>st_id = Undef, st_name = Undef, st_end = JBool False, st_filter = None,
     fe_transition = JStr ''''\<rparr>"

definition fe_setTransitions :: "transition list \<Rightarrow> foreach_state \<Rightarrow> foreach_state" where
  "fe_setTransitions ts s =
     (case ts of
        t # _ \<Rightarrow> s\<lparr>fe_transition := transition_target t, st_end := JBool False\<rparr>
      | [] \<Rightarrow> s\<lparr>st_end := JBool True, fe_transition := JStr ''''\<rparr>)"

definition fe_tryAddTransition :: "js \<Rightarrow> foreach_state \<Rightarrow> js \<times> foreach_state" where
  "fe_tryAddTransition n s = (fe_transition s, s\<lparr>st_end := JBool False, fe_transition := n\<rparr>)"

definition fe_getNextTransitions :: "foreach_state \<Rightarrow> transition list" where
  "fe_getNextTransitions s = [EmptyT (new_EmptyTransition\<lparr>et_transition := fe_transition s\<rparr>)]"

definition Foreach_getJson :: "foreach_state \<Rightarrow> js" where
  "Foreach_getJson s =
     JObj (put_opt ''stateDataFilter'' StateDataFilter_getJson (st_filter s)
       (put_truthy ''transition'' (fe_transition s)
         [(''id'', st_id s), (''name'', st_name s),
          (''stateDataFilter'', opt_filter_json (st_filter s)),
          (''type'', JStr ''foreach''), (''end'', st_end s)]))"

section \<open>The switch state\<close>

record switch_state = state_base +
  sw_type :: string
  sw_events :: "event_condition list"
  sw_datas :: "data_condition list"
  sw_default :: "empty_transition option"

definition new_SwitchState :: switch_state where
  "new_SwitchState = \<lparr>st_id = Undef, st_name = Undef, st_end = JBool False, st_filter = None,
     sw_type = ''event'', sw_events = [], sw_datas = [], sw_default = None\<rparr>"

text \<open>\<open>transitions.filter(t => t.getType() == ...).map(t => t as ...)\<close>\<close>

fun event_conditions :: "transition list \<Rightarrow> event_condition list" where
  "event_conditions [] = []"
| "event_conditions (EventT c # ts) = c # event_conditions ts"
| "event_conditions (_ # ts) = event_conditions ts"

fun data_conditions :: "transition list \<Rightarrow> data_condition list" where
  "data_conditions [] = []"
| "data_conditions (DataT c # ts) = c # data_conditions ts"
| "data_conditions (_ # ts) = data_conditions ts"

definition sw_setTransitions :: "transition list \<Rightarrow> switch_state \<Rightarrow> switch_state" where
  "sw_setTransitions ts s =
     (let s1 = (if sw_type s = ''event'' then s\<lparr>sw_events := event_conditions ts\<rparr>
                else if sw_type s = ''data'' then s\<lparr>sw_datas := data_conditions ts\<rparr>
                else s)
      in s1\<lparr>st_end := JBool (ts = [])\<rparr>)"

text \<open>The label subject of a \<open>new DataCondition()\<close> exists, so the setter cannot throw there.\<close>

definition condition_to :: "js \<Rightarrow> js \<Rightarrow> data_condition" where
  "condition_to e n = new_DataCondition\<lparr>dc_condition := e, dc_label := Subject e, dc_transition := n\<rparr>"

lemma condition_to_setter:
  "set_condition e new_DataCondition = Some (condition_to e (JStr ''''))"
  by (simp add: set_condition_def condition_to_def new_DataCondition_def)

definition sw_tryAddTransition :: "js \<Rightarrow> switch_state \<Rightarrow> js \<times> switch_state" where
  "sw_tryAddTransition n s =
     (let s1 = s\<lparr>st_end := JBool False\<rparr>;
          s2 = (if sw_type s1 = ''event''
                then s1\<lparr>sw_events := sw_events s1 @ [new_EventCondition\<lparr>ec_transition := n\<rparr>]\<rparr>
                else if sw_type s1 = ''data''
                then s1\<lparr>sw_datas := sw_datas s1 @ [condition_to (JStr ''true'') n]\<rparr>
                else s1)
      in (Null, s2))"

definition sw_getNextTransitions :: "switch_state \<Rightarrow> transition list" where
  "sw_getNextTransitions s =
     map EventT (sw_events s) @ map DataT (sw_datas s) @
     (case sw_default s of
        Some d \<Rightarrow> (if truthy (et_transition d) then [EmptyT d] else [])
      | None \<Rightarrow> [])"

definition switchToEventCondition :: "switch_state \<Rightarrow> switch_state" where
  "switchToEventCondition s =
     s\<lparr>sw_type := ''event'',
       sw_events := map (\<lambda>e. new_EventCondition\<lparr>ec_eventRef := JStr ''event'',
           ec_label := Subject (JStr ''event''), ec_transition := dc_transition e\<rparr>) (sw_datas s),
       sw_datas := []\<rparr>"

definition switchToDataCondition :: "switch_state \<Rightarrow> switch_state" where
  "switchToDataCondition s =
     s\<lparr>sw_type := ''data'',
       sw_datas := map (\<lambda>e. condition_to (JStr ''true'') (ec_transition e)) (sw_events s),
       sw_events := []\<rparr>"

text \<open>
  Which transition object an edge of the diagram refers to: an element of one of the two arrays
  of conditions (by its position), or an object that is in neither array.
\<close>

datatype tref = EventRef nat | DataRef nat | OtherRef

definition event_indexOf :: "tref \<Rightarrow> switch_state \<Rightarrow> int" where
  "event_indexOf r s = (case r of EventRef i \<Rightarrow> (if i < length (sw_events s) then int i else -1) | _ \<Rightarrow> -1)"

definition data_indexOf :: "tref \<Rightarrow> switch_state \<Rightarrow> int" where
  "data_indexOf r s = (case r of DataRef i \<Rightarrow> (if i < length (sw_datas s) then int i else -1) | _ \<Rightarrow> -1)"

definition removeTransition :: "tref \<Rightarrow> switch_state \<Rightarrow> switch_state" where
  "removeTransition r s =
     (if sw_type s = ''event'' then s\<lparr>sw_events := js_splice (event_indexOf r s) 1 (sw_events s)\<rparr>
      else if sw_type s = ''data'' then s\<lparr>sw_datas := js_splice (data_indexOf r s) 1 (sw_datas s)\<rparr>
      else s)"

text \<open>\<open>r\<close> is the identity of the transition object and \<open>t\<close> its field \<open>transition\<close>.\<close>

definition swichTransitionToDefault :: "tref \<Rightarrow> js \<Rightarrow> switch_state \<Rightarrow> switch_state" where
  "swichTransitionToDefault r t s =
     (case sw_default s of
        Some d \<Rightarrow>
          (if js_eq t (et_transition d) then s
           else (removeTransition r (snd (sw_tryAddTransition (et_transition d) s)))
                  \<lparr>sw_default := Some (new_EmptyTransition\<lparr>et_transition := t\<rparr>)\<rparr>)
      | None \<Rightarrow> (removeTransition r s)
                  \<lparr>sw_default := Some (new_EmptyTransition\<lparr>et_transition := t\<rparr>)\<rparr>)"

definition Switch_getJson :: "switch_state \<Rightarrow> js" where
  "Switch_getJson s =
     (let d = (case sw_default s of Some d \<Rightarrow> et_transition d | None \<Rightarrow> Undef)
      in JObj
       (put_if (sw_datas s \<noteq> []) ''dataConditions'' (JArr (map DataCondition_getJson (sw_datas s)))
         (put_if (sw_events s \<noteq> []) ''eventConditions''
             (JArr (map EventCondition_getJson (sw_events s)))
           (put_opt ''stateDataFilter'' StateDataFilter_getJson (st_filter s)
             (put_if (truthy d) ''defaultCondition'' (JObj [(''transition'', d)])
               [(''id'', st_id s), (''name'', st_name s), (''type'', JStr ''switch''),
                (''end'', st_end s)])))))"

section \<open>Any state\<close>

datatype sm_state =
    Inject inject_state
  | Switch switch_state
  | Operation operation_state
  | Foreach foreach_state

fun state_id :: "sm_state \<Rightarrow> js" where
  "state_id (Inject s) = st_id s"
| "state_id (Switch s) = st_id s"
| "state_id (Operation s) = st_id s"
| "state_id (Foreach s) = st_id s"

fun state_name :: "sm_state \<Rightarrow> js" where
  "state_name (Inject s) = st_name s"
| "state_name (Switch s) = st_name s"
| "state_name (Operation s) = st_name s"
| "state_name (Foreach s) = st_name s"

fun state_end :: "sm_state \<Rightarrow> js" where
  "state_end (Inject s) = st_end s"
| "state_end (Switch s) = st_end s"
| "state_end (Operation s) = st_end s"
| "state_end (Foreach s) = st_end s"

fun state_type :: "sm_state \<Rightarrow> string" where
  "state_type (Inject s) = ''inject''"
| "state_type (Switch s) = ''switch''"
| "state_type (Operation s) = ''operation''"
| "state_type (Foreach s) = ''foreach''"

fun setTransitions :: "transition list \<Rightarrow> sm_state \<Rightarrow> sm_state" where
  "setTransitions ts (Inject s) = Inject (flow_setTransitions ts s)"
| "setTransitions ts (Switch s) = Switch (sw_setTransitions ts s)"
| "setTransitions ts (Operation s) = Operation (op_setTransitions ts s)"
| "setTransitions ts (Foreach s) = Foreach (fe_setTransitions ts s)"

fun tryAddTransition :: "js \<Rightarrow> sm_state \<Rightarrow> js \<times> sm_state" where
  "tryAddTransition n (Inject s) = map_prod id Inject (flow_tryAddTransition n s)"
| "tryAddTransition n (Switch s) = map_prod id Switch (sw_tryAddTransition n s)"
| "tryAddTransition n (Operation s) = map_prod id Operation (op_tryAddTransition n s)"
| "tryAddTransition n (Foreach s) = map_prod id Foreach (fe_tryAddTransition n s)"

fun getNextTransitions :: "sm_state \<Rightarrow> transition list" where
  "getNextTransitions (Inject s) = flow_getNextTransitions s"
| "getNextTransitions (Switch s) = sw_getNextTransitions s"
| "getNextTransitions (Operation s) = op_getNextTransitions s"
| "getNextTransitions (Foreach s) = fe_getNextTransitions s"

fun state_getJson :: "sm_state \<Rightarrow> js" where
  "state_getJson (Inject s) = Inject_getJson s"
| "state_getJson (Switch s) = Switch_getJson s"
| "state_getJson (Operation s) = Operation_getJson s"
| "state_getJson (Foreach s) = Foreach_getJson s"

abbreviation next_ids :: "sm_state \<Rightarrow> js list" where
  "next_ids s \<equiv> map transition_target (getNextTransitions s)"

end
