(* ===== verification/SM_Json.thy ===== *)
theory SM_Json
  imports SM_States
begin

text \<open>
  Saving and loading the states of a workflow: the switch over \<open>s.type\<close> in
  \<open>StateMachineModel.build\<close>, and for every class the function \<open>norm_...\<close> that says which instance
  results when an instance is written with \<open>getJson\<close> and read back with \<open>build\<close>. Each pair is an
  interpretation of the codec locales.
\<close>

section \<open>Loading one state\<close>

definition build_inject :: "js \<Rightarrow> sm_state res" where
  "build_inject s = do {
     i \<leftarrow> js_get s ''id'';
     d \<leftarrow> js_get s ''data'';
     t \<leftarrow> js_get s ''transition'';
     n \<leftarrow> js_get s ''name'';
     e \<leftarrow> js_get s ''end'';
     f \<leftarrow> js_get s ''stateDataFilter'';
     df \<leftarrow> StateDataFilter_build f;
     Some (Inject (new_InjectState\<lparr>st_id := i, in_data := or_default d Null, fl_transition := t,
                                    st_name := n, st_end := e, st_filter := df\<rparr>))
   }"

definition build_switch :: "js \<Rightarrow> sm_state res" where
  "build_switch s = do {
     i \<leftarrow> js_get s ''id'';
     n \<leftarrow> js_get s ''name'';
     e \<leftarrow> js_get s ''end'';
     f \<leftarrow> js_get s ''stateDataFilter'';
     df \<leftarrow> StateDataFilter_build f;
     ecs \<leftarrow> js_get s ''eventConditions'';
     es \<leftarrow> (if truthy ecs then js_map EventCondition_build ecs else Some []);
     dcs \<leftarrow> js_get s ''dataConditions'';
     ds \<leftarrow> (if truthy dcs then js_map DataCondition_build dcs else Some []);
     dc \<leftarrow> js_get s ''defaultCondition'';
     d \<leftarrow> (if truthy dc then map_option Some (EmptyTransition_build dc) else Some None);
     Some (Switch (new_SwitchState\<lparr>st_id := i, st_name := n, st_end := e, st_filter := df,
                                    sw_events := es, sw_datas := ds, sw_default := d\<rparr>))
   }"

definition build_operation :: "js \<Rightarrow> sm_state res" where
  "build_operation s = do {
     i \<leftarrow> js_get s ''id'';
     n \<leftarrow> js_get s ''name'';
     e \<leftarrow> js_get s ''end'';
     t \<leftarrow> js_get s ''transition'';
     m \<leftarrow> js_get s ''actionMode'';
     f \<leftarrow> js_get s ''stateDataFilter'';
     df \<leftarrow> StateDataFilter_build f;
     acs \<leftarrow> js_get s ''actions'';
     as \<leftarrow> (if truthy acs then js_map OperationAction_build acs else Some []);
     Some (Operation (new_OperationState\<lparr>st_id := i, st_name := n, st_end := e, fl_transition := t,
                                          op_actionMode := m, st_filter := df, op_actions := as\<rparr>))
   }"

definition build_foreach :: "js \<Rightarrow> sm_state res" where
  "build_foreach s = do {
     i \<leftarrow> js_get s ''id'';
     n \<leftarrow> js_get s ''name'';
     e \<leftarrow> js_get s ''end'';
     t \<leftarrow> js_get s ''transition'';
     Some (Foreach (new_ForeachState\<lparr>st_id := i, st_name := n, st_end := e, fe_transition := t\<rparr>))
   }"

text \<open>The callback of \<open>json["states"].map\<close>; \<open>Some None\<close> is the \<open>undefined\<close> of its last \<open>return\<close>.\<close>

definition build_state :: "js \<Rightarrow> sm_state option res" where
  "build_state s = do {
     ty \<leftarrow> js_get s ''type'';
     if ty = JStr ''inject'' then map_option Some (build_inject s)
     else if ty = JStr ''switch'' then map_option Some (build_switch s)
     else if ty = JStr ''operation'' then map_option Some (build_operation s)
     else if ty = JStr ''foreach'' then map_option Some (build_foreach s)
     else Some None
   }"

section \<open>What a reload keeps\<close>

abbreviation always :: "'a \<Rightarrow> bool" where
  "always x \<equiv> True"

definition norm_sdf :: "state_data_filter \<Rightarrow> state_data_filter" where
  "norm_sdf f = f\<lparr>sdf_input := or_default (sdf_input f) (JStr ''''),
                  sdf_output := or_default (sdf_output f) (JStr '''')\<rparr>"

definition norm_edf :: "event_data_filter \<Rightarrow> event_data_filter" where
  "norm_edf f = f\<lparr>edf_useData := Undef, edf_data := or_default (edf_data f) Undef,
                  edf_toStateData := or_default (edf_toStateData f) Undef\<rparr>"

definition norm_ec :: "event_condition \<Rightarrow> event_condition" where
  "norm_ec c = c\<lparr>ec_label := Raw Undef, ec_eventDataFilter := map_option norm_edf (ec_eventDataFilter c)\<rparr>"

definition norm_dc :: "data_condition \<Rightarrow> data_condition" where
  "norm_dc c = c\<lparr>dc_condition := or_default (dc_condition c) Undef,
                 dc_label := Subject (or_default (dc_condition c) Undef)\<rparr>"

definition norm_fr :: "function_ref \<Rightarrow> function_ref" where
  "norm_fr r = r\<lparr>fr_arguments := or_default (fr_arguments r) Undef\<rparr>"

definition norm_adf :: "action_data_filter \<Rightarrow> action_data_filter" where
  "norm_adf f = f\<lparr>adf_results := or_default (adf_results f) Undef,
                  adf_toStateData := or_default (adf_toStateData f) Undef\<rparr>"

definition norm_oa :: "operation_action \<Rightarrow> operation_action" where
  "norm_oa a = a\<lparr>oa_functionRef := map_option norm_fr (oa_functionRef a),
                 oa_actionDataFilter := map_option norm_adf (oa_actionDataFilter a)\<rparr>"

definition norm_default :: "empty_transition option \<Rightarrow> empty_transition option" where
  "norm_default d =
     (case d of
        Some t \<Rightarrow> (if truthy (et_transition t)
                   then Some \<lparr>et_transition = et_transition t, et_label = Raw Undef\<rparr> else None)
      | None \<Rightarrow> None)"

fun norm_state :: "sm_state \<Rightarrow> sm_state" where
  "norm_state (Inject s) =
     Inject (s\<lparr>fl_transition := or_default (fl_transition s) Undef,
               in_data := (if truthy (in_data s) \<and> js_has_keys (in_data s) then in_data s else Null),
               st_filter := map_option norm_sdf (st_filter s)\<rparr>)"
| "norm_state (Switch s) =
     Switch (s\<lparr>sw_type := ''event'', sw_events := map norm_ec (sw_events s),
               sw_datas := map norm_dc (sw_datas s), sw_default := norm_default (sw_default s),
               st_filter := map_option norm_sdf (st_filter s)\<rparr>)"
| "norm_state (Operation s) =
     Operation (s\<lparr>fl_transition := or_default (fl_transition s) Undef,
                  op_actions := map norm_oa (op_actions s),
                  st_filter := map_option norm_sdf (st_filter s)\<rparr>)"
| "norm_state (Foreach s) =
     Foreach (s\<lparr>fe_transition := or_default (fe_transition s) Undef, st_filter := None\<rparr>)"

section \<open>The codecs\<close>

lemma getJson_truthy [simp]:
  "truthy (StateDataFilter_getJson f)" "truthy (EventDataFilter_getJson g)"
  "truthy (FunctionRef_getJson h)" "truthy (ActionDataFilter_getJson a)"
  by (simp_all add: StateDataFilter_getJson_def EventDataFilter_getJson_def FunctionRef_getJson_def
      ActionDataFilter_getJson_def)

lemma put_truthy_lookup_self:
  "(if truthy v then v else Undef) = or_default v Undef"
  by (simp add: or_default_def)

lemmas filter_defs = StateDataFilter_getJson_def StateDataFilter_build_def new_StateDataFilter_def
  EventDataFilter_getJson_def EventDataFilter_build_def new_EventDataFilter_def
  FunctionRef_getJson_def FunctionRef_build_def new_FunctionRef_def
  ActionDataFilter_getJson_def ActionDataFilter_build_def new_ActionDataFilter_def
  norm_sdf_def norm_edf_def norm_fr_def norm_adf_def or_default_def

interpretation sdf: json_codec StateDataFilter_getJson StateDataFilter_build "\<lambda>f. Some (norm_sdf f)" always
  by unfold_locales (simp add: filter_defs)

lemma sdf_opt [simp]: "StateDataFilter_build (opt_filter_json f) = Some (map_option norm_sdf f)"
  by (simp add: opt_filter_json_def StateDataFilter_build_def [of Undef] sdf.dec_enc split: option.split)

interpretation edf: stable_codec EventDataFilter_getJson EventDataFilter_build norm_edf always
  by unfold_locales (simp_all add: filter_defs)

interpretation fr: stable_codec FunctionRef_getJson FunctionRef_build norm_fr always
  by unfold_locales (simp_all add: filter_defs)

interpretation adf: stable_codec ActionDataFilter_getJson ActionDataFilter_build norm_adf always
  by unfold_locales (simp_all add: filter_defs)

lemma map_option_idem: "(\<And>x. f (f x) = f x) \<Longrightarrow> map_option f (map_option f y) = map_option f y"
  by (cases y) auto

interpretation ec: stable_codec EventCondition_getJson EventCondition_build norm_ec always
proof (unfold_locales, goal_cases)
  case (1 c) then show ?case
    by (cases "ec_eventDataFilter c")
      (simp_all add: EventCondition_getJson_def EventCondition_build_def set_eventRef_def
        new_EventCondition_def norm_ec_def edf.dec_enc)
next
  case (3 c) then show ?case by (simp add: norm_ec_def map_option_idem [OF edf.norm_norm])
qed simp

interpretation dc: stable_codec DataCondition_getJson DataCondition_build norm_dc always
  by unfold_locales
    (simp_all add: DataCondition_getJson_def DataCondition_build_def set_condition_def
      new_DataCondition_def norm_dc_def or_default_def)

interpretation oa: stable_codec OperationAction_getJson OperationAction_build norm_oa always
proof (unfold_locales, goal_cases)
  case (1 a) then show ?case
    by (cases "oa_functionRef a"; cases "oa_actionDataFilter a")
      (simp_all add: OperationAction_getJson_def OperationAction_build_def norm_oa_def
        fr.dec_enc adf.dec_enc)
next
  case (3 a) then show ?case
    by (simp add: norm_oa_def map_option_idem [OF fr.norm_norm] map_option_idem [OF adf.norm_norm])
qed simp

section \<open>The state codec\<close>

lemma inject_reload: "build_inject (Inject_getJson s) = Some (norm_state (Inject s))"
  by (cases "st_filter s")
    (simp_all add: build_inject_def Inject_getJson_def new_InjectState_def sdf.dec_enc or_default_def
      StateDataFilter_build_def [of Undef])

lemma operation_reload: "build_operation (Operation_getJson s) = Some (norm_state (Operation s))"
  using oa.dec_enc_list [of "op_actions s"]
  by (simp add: build_operation_def Operation_getJson_def new_OperationState_def or_default_def list_all_iff)

lemma foreach_reload: "build_foreach (Foreach_getJson s) = Some (norm_state (Foreach s))"
  by (cases "st_filter s")
    (simp_all add: build_foreach_def Foreach_getJson_def new_ForeachState_def or_default_def)

lemma default_reload:
  "truthy (et_transition d) \<Longrightarrow>
     EmptyTransition_build (JObj [(''transition'', et_transition d)]) =
       Some \<lparr>et_transition = et_transition d, et_label = Raw Undef\<rparr>"
  by (simp add: EmptyTransition_build_def new_EmptyTransition_def)

lemma switch_lookups:
  "js_get (Switch_getJson s) ''id'' = Some (st_id s)"
  "js_get (Switch_getJson s) ''name'' = Some (st_name s)"
  "js_get (Switch_getJson s) ''type'' = Some (JStr ''switch'')"
  "js_get (Switch_getJson s) ''end'' = Some (st_end s)"
  "js_get (Switch_getJson s) ''stateDataFilter'' = Some (opt_filter_json (st_filter s))"
  "js_get (Switch_getJson s) ''eventConditions'' =
     Some (if sw_events s = [] then Undef else JArr (map EventCondition_getJson (sw_events s)))"
  "js_get (Switch_getJson s) ''dataConditions'' =
     Some (if sw_datas s = [] then Undef else JArr (map DataCondition_getJson (sw_datas s)))"
  "js_get (Switch_getJson s) ''defaultCondition'' =
     Some (case norm_default (sw_default s) of None \<Rightarrow> Undef
           | Some d \<Rightarrow> JObj [(''transition'', et_transition d)])"
  by (simp_all add: Switch_getJson_def Let_def opt_filter_json_def norm_default_def split: option.split)

lemma switch_reload: "build_switch (Switch_getJson s) = Some (norm_state (Switch s))"
proof -
  have es: "js_map EventCondition_build (JArr (map EventCondition_getJson (sw_events s))) =
      Some (map norm_ec (sw_events s))"
    by (rule ec.dec_enc_list) (simp add: list_all_iff)
  have ds: "js_map DataCondition_build (JArr (map DataCondition_getJson (sw_datas s))) =
      Some (map norm_dc (sw_datas s))"
    by (rule dc.dec_enc_list) (simp add: list_all_iff)
  have d: "(if truthy v then map_option Some (EmptyTransition_build v) else Some None) =
      Some (norm_default (sw_default s))"
    if "v = (case norm_default (sw_default s) of None \<Rightarrow> Undef
           | Some d \<Rightarrow> JObj [(''transition'', et_transition d)])" for v
    using that default_reload by (auto simp: norm_default_def split: option.splits)
  show ?thesis
    using es ds d [OF refl]
    by (simp add: build_switch_def switch_lookups new_SwitchState_def)
qed

lemma state_type_json: "js_get (state_getJson s) ''type'' = Some (JStr (state_type s))"
  by (cases s)
    (simp_all add: Inject_getJson_def Operation_getJson_def Foreach_getJson_def switch_lookups)

text \<open>
  Writing any state with \<open>getJson\<close> and reading it with \<open>build\<close> never throws and gives the state
  \<open>norm_state s\<close>: the same id, name, type and successors, with \<open>switchType\<close> reset to \<open>event\<close>, the
  \<open>useData\<close> flag of event filters lost and the data filter of a foreach state lost.
\<close>

lemma state_reload: "build_state (state_getJson s) = Some (Some (norm_state s))"
  using state_type_json [of s] inject_reload switch_reload operation_reload foreach_reload
  by (cases s) (simp_all add: build_state_def)

lemma norm_default_idem: "norm_default (norm_default d) = norm_default d"
  by (simp add: norm_default_def split: option.split)

lemma norm_state_norm_state: "norm_state (norm_state s) = norm_state s"
  by (cases s)
    (simp_all add: norm_default_idem ec.norm_norm dc.norm_norm oa.norm_norm norm_sdf_def
      map_option_idem o_def)

interpretation state: stable_codec state_getJson "\<lambda>j. Option.bind (build_state j) id" norm_state always
  by unfold_locales (simp_all add: norm_state_norm_state state_reload)

end
