(* ===== verification/SM_Transitions.thy ===== *)
theory SM_Transitions
  imports SM_States "HOL-Library.Multiset"
begin

text \<open>
  What the diagram editor relies on in \<open>StateMachineState\<close>: the contract of \<open>setTransitions\<close>,
  \<open>tryAddTransition\<close> and \<open>getNextTransitions\<close> as a locale, interpreted on the flowable states, on
  the switch state and on their union. Then the operations of the switch state alone: changing the
  kind of its conditions and choosing its default transition.
\<close>

abbreviation targets :: "transition list \<Rightarrow> js list" where
  "targets ts \<equiv> map transition_target ts"

text \<open>\<open>nextTransitions.filter(t => t.transition !== id)\<close>\<close>

abbreviation without :: "js \<Rightarrow> transition list \<Rightarrow> transition list" where
  "without k ts \<equiv> filter (\<lambda>t. \<not> js_seq (transition_target t) k) ts"

locale transition_holder =
  fixes setT :: "transition list \<Rightarrow> 's \<Rightarrow> 's"
    and tryAdd :: "js \<Rightarrow> 's \<Rightarrow> js \<times> 's"
    and nexts :: "'s \<Rightarrow> transition list"
    and ended :: "'s \<Rightarrow> js"
    and wf :: "'s \<Rightarrow> bool"
    and droppable :: "js \<Rightarrow> 's \<Rightarrow> bool"
  assumes set_ended: "ended (setT ts s) = JBool (ts = [])"
    and add_ended: "ended (snd (tryAdd n s)) = JBool False"
    and add_wf: "wf s \<Longrightarrow> wf (snd (tryAdd n s))"
    and set_wf: "wf s \<Longrightarrow> wf (setT ts s)"
    and add_target: "wf s \<Longrightarrow> n \<in> set (targets (nexts (snd (tryAdd n s))))"
    and add_keeps: "wf s \<Longrightarrow> set (targets (nexts s)) \<subseteq>
          insert (fst (tryAdd n s)) (set (targets (nexts (snd (tryAdd n s)))))"
    and drop_target: "wf s \<Longrightarrow> droppable k s \<Longrightarrow> truthy k \<Longrightarrow> is_prim k \<Longrightarrow>
          k \<notin> set (targets (nexts (setT (without k (nexts s)) s)))"
    and drop_keeps: "wf s \<Longrightarrow> droppable k s \<Longrightarrow> truthy t \<Longrightarrow> \<not> js_seq t k \<Longrightarrow>
          t \<in> set (targets (nexts s)) \<Longrightarrow>
          t \<in> set (targets (nexts (setT (without k (nexts s)) s)))"
begin

text \<open>Adding a transition: the new target is reached and at most the returned one is lost.\<close>

lemma add_step:
  assumes "wf s" and "tryAdd n s = (old, s')"
  shows "wf s' \<and> ended s' = JBool False \<and> n \<in> set (targets (nexts s')) \<and>
         set (targets (nexts s)) - {old} \<subseteq> set (targets (nexts s'))"
  using add_wf [OF assms(1), of n] add_ended [of n s] add_target [OF assms(1), of n]
    add_keeps [OF assms(1), of n] assms(2) by auto

text \<open>Dropping a target: exactly the truthy targets other than \<open>k\<close> stay.\<close>

lemma drop_step:
  assumes "wf s" and "droppable k s" and "truthy k" and "is_prim k"
  shows "k \<notin> set (targets (nexts (setT (without k (nexts s)) s))) \<and>
         (\<forall>t \<in> set (targets (nexts s)). truthy t \<longrightarrow> t \<noteq> k \<longrightarrow>
            t \<in> set (targets (nexts (setT (without k (nexts s)) s))))"
  using drop_target [OF assms] drop_keeps [OF assms(1,2)] by (auto simp: js_seq_def)

end

section \<open>Flowable states\<close>

lemmas flow_defs = flow_setTransitions_def flow_tryAddTransition_def flow_getNextTransitions_def
  op_setTransitions_def op_tryAddTransition_def op_getNextTransitions_def
  fe_setTransitions_def fe_tryAddTransition_def fe_getNextTransitions_def new_EmptyTransition_def

interpretation flow: transition_holder flow_setTransitions flow_tryAddTransition
  flow_getNextTransitions st_end "\<lambda>_. True" "\<lambda>_ _. True"
  by unfold_locales (auto simp: flow_defs js_seq_prim split: list.splits if_splits)

text \<open>The methods of the operation state are the inherited ones, written again.\<close>

lemma op_methods_inherited:
  "op_setTransitions = flow_setTransitions" "op_tryAddTransition = flow_tryAddTransition"
  "op_getNextTransitions = flow_getNextTransitions"
  by (auto simp: flow_defs fun_eq_iff split: list.splits)

interpretation oper: transition_holder op_setTransitions op_tryAddTransition
  op_getNextTransitions st_end "\<lambda>_. True" "\<lambda>_ _. True"
  unfolding op_methods_inherited by (rule flow.transition_holder_axioms)

interpretation fe: transition_holder fe_setTransitions fe_tryAddTransition
  fe_getNextTransitions st_end "\<lambda>_. True" "\<lambda>_ _. True"
  by unfold_locales (auto simp: flow_defs js_seq_prim split: list.splits if_splits)

section \<open>The switch state\<close>

text \<open>
  The array of conditions that \<open>switchType\<close> does not select is empty. \<open>switchToEventCondition\<close>
  and \<open>switchToDataCondition\<close> establish it; a state with data conditions that was loaded from a
  document violates it, because \<open>build\<close> leaves \<open>switchType\<close> at \<open>event\<close>.
\<close>

definition wf_switch :: "switch_state \<Rightarrow> bool" where
  "wf_switch s \<longleftrightarrow> (sw_type s = ''event'' \<and> sw_datas s = []) \<or> (sw_type s = ''data'' \<and> sw_events s = [])"

definition default_target :: "switch_state \<Rightarrow> js" where
  "default_target s = (case sw_default s of Some d \<Rightarrow> et_transition d | None \<Rightarrow> Undef)"

definition sw_droppable :: "js \<Rightarrow> switch_state \<Rightarrow> bool" where
  "sw_droppable k s \<longleftrightarrow> \<not> js_seq (default_target s) k"

lemma event_conditions_append [simp]:
  "event_conditions (xs @ ys) = event_conditions xs @ event_conditions ys"
  by (induction xs rule: event_conditions.induct) auto

lemma data_conditions_append [simp]:
  "data_conditions (xs @ ys) = data_conditions xs @ data_conditions ys"
  by (induction xs rule: data_conditions.induct) auto

lemma event_conditions_map [simp]:
  "event_conditions (map EventT cs) = cs" "event_conditions (map DataT ds) = []"
  by (induction cs, simp_all) (induction ds, simp_all)

lemma data_conditions_map [simp]:
  "data_conditions (map DataT ds) = ds" "data_conditions (map EventT cs) = []"
  by (induction ds, simp_all) (induction cs, simp_all)

lemma filter_map_conditions:
  "filter P (map EventT cs) = map EventT (filter (P \<circ> EventT) cs)"
  "filter P (map DataT ds) = map DataT (filter (P \<circ> DataT) ds)"
  by (simp_all add: filter_map)

text \<open>The targets of a switch state, listed by where they come from.\<close>

lemma sw_targets:
  "targets (sw_getNextTransitions s) = map ec_transition (sw_events s) @ map dc_transition (sw_datas s) @
     (if truthy (default_target s) then [default_target s] else [])"
  by (auto simp: sw_getNextTransitions_def default_target_def o_def split: option.splits)

lemmas sw_defs = sw_setTransitions_def sw_tryAddTransition_def condition_to_def Let_def
  new_EventCondition_def new_DataCondition_def wf_switch_def default_target_def sw_droppable_def

lemma sw_set_default [simp]: "default_target (sw_setTransitions ts s) = default_target s"
  by (simp add: sw_defs)

lemma sw_without:
  "event_conditions (without k (sw_getNextTransitions s)) =
     filter (\<lambda>c. \<not> js_seq (ec_transition c) k) (sw_events s)"
  "data_conditions (without k (sw_getNextTransitions s)) =
     filter (\<lambda>c. \<not> js_seq (dc_transition c) k) (sw_datas s)"
  by (auto simp: sw_getNextTransitions_def filter_map_conditions o_def split: option.splits)

interpretation sw: transition_holder sw_setTransitions sw_tryAddTransition
  sw_getNextTransitions st_end wf_switch sw_droppable
proof (unfold_locales, goal_cases)
  case (1 ts s) show ?case by (simp add: sw_defs)
next
  case (2 n s) show ?case by (simp add: sw_defs)
next
  case (3 s n) then show ?case by (auto simp: sw_defs)
next
  case (4 s ts) then show ?case by (auto simp: sw_defs)
next
  case (5 s n) then show ?case by (auto simp: sw_targets sw_defs)
next
  case (6 s n) then show ?case by (auto simp: sw_targets sw_defs)
next
  case (7 s k) then show ?case
    by (auto simp: sw_targets sw_without wf_switch_def sw_setTransitions_def Let_def
        sw_droppable_def default_target_def split: option.splits if_splits)
next
  case (8 s k t) then show ?case
    by (auto simp: sw_targets sw_without wf_switch_def sw_setTransitions_def Let_def
        default_target_def split: option.splits if_splits)
qed

section \<open>Any state\<close>

fun wf_links :: "sm_state \<Rightarrow> bool" where
  "wf_links (Switch s) = wf_switch s"
| "wf_links _ = True"

fun droppable :: "js \<Rightarrow> sm_state \<Rightarrow> bool" where
  "droppable k (Switch s) = sw_droppable k s"
| "droppable k _ = True"

lemmas dispatch_simps = oper.set_ended oper.add_ended flow.set_ended flow.add_ended fe.set_ended fe.add_ended
  sw.set_ended sw.add_ended

interpretation st: transition_holder setTransitions tryAddTransition getNextTransitions state_end
  wf_links droppable
proof (unfold_locales, goal_cases)
  case (1 ts s) show ?case by (cases s) (simp_all add: dispatch_simps)
next
  case (2 n s) show ?case by (cases s) (simp_all add: dispatch_simps)
next
  case (3 s n) then show ?case by (cases s) (simp_all add: sw.add_wf)
next
  case (4 s ts) then show ?case by (cases s) (simp_all add: sw.set_wf)
next
  case (5 s n) then show ?case
    using flow.add_target oper.add_target fe.add_target sw.add_target by (cases s) simp_all
next
  case (6 s n) then show ?case
    using flow.add_keeps oper.add_keeps fe.add_keeps sw.add_keeps by (cases s) simp_all
next
  case (7 s k) then show ?case
    using flow.drop_target oper.drop_target fe.drop_target sw.drop_target by (cases s) simp_all
next
  case (8 s k t) then show ?case
    using flow.drop_keeps oper.drop_keeps fe.drop_keeps sw.drop_keeps by (cases s) simp_all
qed

text \<open>
  C3. Adding a transition to a state of any kind makes the new state one of its successors, clears
  \<open>end\<close>, and loses at most the successor whose id the method returns.
\<close>

theorem state_add_transition:
  assumes "wf_links s" and "tryAddTransition n s = (old, s')"
  shows "wf_links s' \<and> state_end s' = JBool False \<and> n \<in> set (next_ids s') \<and>
         set (next_ids s) - {old} \<subseteq> set (next_ids s')"
  using st.add_step [OF assms] .

definition example_switch :: switch_state where
  "example_switch = new_SwitchState\<lparr>st_id := JStr ''sw'',
     sw_events := [new_EventCondition\<lparr>ec_transition := JStr ''a''\<rparr>,
                   new_EventCondition\<lparr>ec_transition := JStr ''b''\<rparr>]\<rparr>"

lemmas example_switch_simps = example_switch_def new_SwitchState_def new_EventCondition_def
  new_EmptyTransition_def sw_getNextTransitions_def wf_switch_def sw_tryAddTransition_def
  sw_droppable_def default_target_def

theorem state_add_transition_witness:
  "JStr ''c'' \<in> set (next_ids (snd (tryAddTransition (JStr ''c'') (Switch example_switch)))) \<and>
   JStr ''a'' \<in> set (next_ids (snd (tryAddTransition (JStr ''c'') (Switch example_switch))))"
proof -
  have wf: "wf_links (Switch example_switch)" by (simp add: example_switch_simps)
  have old: "fst (tryAddTransition (JStr ''c'') (Switch example_switch)) = Null"
    by (simp add: example_switch_simps Let_def)
  have "JStr ''a'' \<in> set (next_ids (Switch example_switch))" by (simp add: example_switch_simps)
  moreover have "tryAddTransition (JStr ''c'') (Switch example_switch) =
      (Null, snd (tryAddTransition (JStr ''c'') (Switch example_switch)))"
    using old by (simp only: prod_eq_iff fst_conv snd_conv simp_thms)
  note state_add_transition [OF wf this]
  ultimately show ?thesis by blast
qed



section \<open>Conditions and the default of a switch state\<close>

text \<open>
  Changing the kind of conditions of a switch state keeps its successors and establishes the
  agreement between \<open>switchType\<close> and the two arrays of conditions.
\<close>

theorem switch_kind_change_keeps_targets:
  assumes "wf_switch s"
  shows "wf_switch (switchToDataCondition s) \<and> wf_switch (switchToEventCondition s) \<and>
    (sw_type s = ''event'' \<longrightarrow> next_ids (Switch (switchToDataCondition s)) = next_ids (Switch s)) \<and>
    (sw_type s = ''data'' \<longrightarrow> next_ids (Switch (switchToEventCondition s)) = next_ids (Switch s))"
  using assms
  by (auto simp: sw_targets wf_switch_def switchToDataCondition_def switchToEventCondition_def
      condition_to_def default_target_def)

theorem switch_kind_change_keeps_targets_witness:
  "next_ids (Switch (switchToDataCondition example_switch)) = [JStr ''a'', JStr ''b'']"
  using switch_kind_change_keeps_targets [of example_switch] by (simp add: example_switch_simps)

text \<open>The transition object that a reference denotes.\<close>

definition denotes :: "switch_state \<Rightarrow> tref \<Rightarrow> js \<Rightarrow> bool" where
  "denotes s r t \<longleftrightarrow>
     (case r of
        EventRef i \<Rightarrow> i < length (sw_events s) \<and> ec_transition (sw_events s ! i) = t
      | DataRef i \<Rightarrow> i < length (sw_datas s) \<and> dc_transition (sw_datas s ! i) = t
      | OtherRef \<Rightarrow> False)"

lemma mset_splice_at: "i < length xs \<Longrightarrow> mset (js_splice (int i) (Suc 0) xs) = mset xs - {#xs ! i#}"
proof -
  assume i: "i < length xs"
  have "mset xs = mset (take i xs) + mset (drop i xs)"
    by (metis append_take_drop_id mset_append)
  also have "mset (drop i xs) = {#xs ! i#} + mset (drop (Suc i) xs)"
    using i by (simp flip: Cons_nth_drop_Suc)
  finally show ?thesis using i by (simp add: js_splice_in_range)
qed

lemma mset_map_splice_at:
  "i < length xs \<Longrightarrow>
     image_mset f (mset (js_splice (int i) (Suc 0) xs)) + {#f (xs ! i)#} = image_mset f (mset xs)"
  using mset_splice_at [of i xs]
  by (metis image_mset_single image_mset_union insert_DiffM2 nth_mem_mset)

lemma mset_removeTransition:
  assumes "wf_switch s" and "denotes s r t"
  shows "mset (map ec_transition (sw_events (removeTransition r s))) +
         mset (map dc_transition (sw_datas (removeTransition r s))) + {#t#} =
         mset (map ec_transition (sw_events s)) + mset (map dc_transition (sw_datas s))"
  using assms mset_map_splice_at [of _ "sw_events s" ec_transition]
    mset_map_splice_at [of _ "sw_datas s" dc_transition]
  by (auto simp: removeTransition_def denotes_def wf_switch_def event_indexOf_def data_indexOf_def
      split: tref.splits)

lemma removeTransition_default [simp]: "sw_default (removeTransition r s) = sw_default s"
  by (simp add: removeTransition_def)

lemma wf_switch_tryAdd: "wf_switch s \<Longrightarrow> wf_switch (snd (sw_tryAddTransition n s))"
  by (rule sw.add_wf)

lemma denotes_tryAdd: "denotes s r t \<Longrightarrow> denotes (snd (sw_tryAddTransition n s)) r t"
  by (auto simp: denotes_def sw_tryAddTransition_def Let_def nth_append split: tref.splits)

lemma mset_tryAdd:
  "wf_switch s \<Longrightarrow> mset (map ec_transition (sw_events (snd (sw_tryAddTransition n s)))) +
     mset (map dc_transition (sw_datas (snd (sw_tryAddTransition n s)))) =
   mset (map ec_transition (sw_events s)) + mset (map dc_transition (sw_datas s)) + {#n#}"
  by (auto simp: sw_defs)

text \<open>
  C5. Making a condition of a well-formed switch state its default transition keeps the multiset
  of successors: the condition becomes the default and the old default becomes a condition again.
\<close>

theorem default_keeps_targets:
  assumes "wf_switch s" and "denotes s r t" and "truthy t" and "is_prim t"
    and "sw_default s = None \<or> truthy (default_target s)"
  shows "mset (next_ids (Switch (swichTransitionToDefault r t s))) = mset (next_ids (Switch s))"
proof (cases "sw_default s")
  case None
  then show ?thesis
    using mset_removeTransition [OF assms(1,2)] assms(3)
    by (simp add: sw_targets swichTransitionToDefault_def default_target_def new_EmptyTransition_def
        flip: mset_map)
next
  case (Some d)
  let ?s = "snd (sw_tryAddTransition (et_transition d) s)"
  have d: "truthy (et_transition d)" using assms(5) Some by (simp add: default_target_def)
  show ?thesis
    using Some d assms(3) mset_tryAdd [OF assms(1), of "et_transition d"]
      mset_removeTransition [OF wf_switch_tryAdd denotes_tryAdd, OF assms(1,2), of "et_transition d"]
    by (auto simp: sw_targets swichTransitionToDefault_def default_target_def new_EmptyTransition_def
        ac_simps simp flip: mset_map)
qed

theorem default_keeps_targets_witness:
  "mset (next_ids (Switch (swichTransitionToDefault (EventRef 0) (JStr ''a'') example_switch))) =
     {#JStr ''a'', JStr ''b''#}"
proof -
  have "wf_switch example_switch" and "denotes example_switch (EventRef 0) (JStr ''a'')"
    by (simp_all add: example_switch_simps denotes_def)
  from default_keeps_targets [OF this] show ?thesis by (simp add: example_switch_simps)
qed

text \<open>
  On a switch state with data conditions as \<open>build\<close> leaves it (\<open>switchType\<close> is \<open>event\<close>, no event
  condition) the same operation does not remove the chosen condition: its target occurs once
  more among the successors than before.
\<close>

theorem default_of_reloaded_switch_duplicates:
  assumes "sw_type s = ''event''" and "sw_events s = []" and "sw_default s = None"
    and "denotes s (DataRef i) t" and "truthy t"
  shows "mset (next_ids (Switch (swichTransitionToDefault (DataRef i) t s))) =
         mset (next_ids (Switch s)) + {#t#}"
  using assms
  by (simp add: swichTransitionToDefault_def removeTransition_def event_indexOf_def js_splice_def
      sw_targets default_target_def new_EmptyTransition_def)

theorem default_of_reloaded_switch_duplicates_witness:
  "mset (next_ids (Switch (swichTransitionToDefault (DataRef 0) (JStr ''a'')
     (new_SwitchState\<lparr>sw_datas := [condition_to (JStr ''true'') (JStr ''a'')]\<rparr>)))) =
   {#JStr ''a'', JStr ''a''#}"
proof -
  let ?s = "new_SwitchState\<lparr>sw_datas := [condition_to (JStr ''true'') (JStr ''a'')]\<rparr>"
  have "denotes ?s (DataRef 0) (JStr ''a'')" by (simp add: denotes_def condition_to_def)
  with default_of_reloaded_switch_duplicates [of ?s 0 "JStr ''a''"] show ?thesis
    by (simp add: example_switch_simps condition_to_def new_DataCondition_def)
qed

end
