(* ===== verification/SM_Model.thy ===== *)
theory SM_Model
  imports SM_Json SM_Transitions
begin

text \<open>
  \<open>StateMachineModel\<close> (stores/statemachines/models/statemachinemodel.model.ts) with the classes it
  is made of: loading and saving a whole workflow document, looking states up, and the recursive
  \<open>remove\<close>. The type parameter of the record is the type of the elements of \<open>states\<close>: \<open>build\<close>
  yields \<open>undefined\<close> for a state of unknown type, so a loaded document has elements of type
  \<open>sm_state option\<close>; the operations that read every state's id are stated on defined states, as
  their \<open>filter\<close> callbacks throw on \<open>undefined\<close>.
\<close>

section \<open>The parts of a document\<close>

record start_model =
  sta_stateName :: js
  sta_schedule :: js

definition Start_getJson :: "start_model \<Rightarrow> js" where
  "Start_getJson s = JObj (put_truthy ''schedule'' (sta_schedule s)
     (put_truthy ''stateName'' (sta_stateName s) []))"

definition Start_build :: "js \<Rightarrow> start_model res" where
  "Start_build json = do {
     n \<leftarrow> js_get json ''stateName'';
     c \<leftarrow> js_get json ''schedule'';
     Some \<lparr>sta_stateName = or_default n Undef, sta_schedule = or_default c Undef\<rparr>
   }"

record sm_function =
  fn_name :: js
  fn_type :: js
  fn_operation :: js
  fn_metadata :: js

definition Function_getJson :: "sm_function \<Rightarrow> js" where
  "Function_getJson f = JObj (put_truthy ''metadata'' (fn_metadata f)
     [(''name'', fn_name f), (''type'', fn_type f), (''operation'', fn_operation f)])"

definition Function_build :: "js \<Rightarrow> sm_function res" where
  "Function_build json = do {
     n \<leftarrow> js_get json ''name'';
     t \<leftarrow> js_get json ''type'';
     t' \<leftarrow> (if truthy t then js_toLowerCase t else Some Undef);
     oper \<leftarrow> js_get json ''operation'';
     m \<leftarrow> js_get json ''metadata'';
     Some \<lparr>fn_name = n, fn_type = t', fn_operation = oper, fn_metadata = m\<rparr>
   }"

record sm_event =
  ev_name :: js
  ev_type :: js
  ev_source :: js
  ev_kind :: js
  ev_metadata :: js

definition Event_getJson :: "sm_event \<Rightarrow> js" where
  "Event_getJson e = JObj (put_truthy ''metadata'' (ev_metadata e)
     [(''name'', ev_name e), (''type'', ev_type e), (''source'', ev_source e), (''kind'', ev_kind e)])"

definition Event_build :: "js \<Rightarrow> sm_event res" where
  "Event_build json = do {
     n \<leftarrow> js_get json ''name'';
     t \<leftarrow> js_get json ''type'';
     s \<leftarrow> js_get json ''source'';
     k \<leftarrow> js_get json ''kind'';
     k' \<leftarrow> js_toLowerCase k;
     m \<leftarrow> js_get json ''metadata'';
     Some \<lparr>ev_name = n, ev_type = t, ev_source = s, ev_kind = k', ev_metadata = or_default m Undef\<rparr>
   }"

section \<open>The document\<close>

record 's sm_model =
  m_id :: js
  m_name :: js
  m_description :: js
  m_version :: js
  m_specVersion :: js
  m_applicationDomainId :: js
  m_vpn :: js
  m_start :: "start_model option"
  m_states :: "'s list"
  m_functions :: "sm_function list"
  m_events :: "sm_event list"

definition new_StateMachineModel :: "'s sm_model" where
  "new_StateMachineModel = \<lparr>m_id = Undef, m_name = Undef, m_description = Undef, m_version = Undef,
     m_specVersion = Undef, m_applicationDomainId = Undef, m_vpn = JStr '''', m_start = None,
     m_states = [], m_functions = [], m_events = []\<rparr>"

definition isEmpty :: "'s sm_model \<Rightarrow> bool" where
  "isEmpty m \<longleftrightarrow> length (m_states m) = 0"

text \<open>The property \<open>start\<close> is the object itself, with its two fields.\<close>

definition start_json :: "start_model option \<Rightarrow> js" where
  "start_json s = (case s of None \<Rightarrow> Undef
     | Some st \<Rightarrow> JObj [(''stateName'', sta_stateName st), (''schedule'', sta_schedule st)])"

definition saved_events :: "'s sm_model \<Rightarrow> sm_event list" where
  "saved_events m = filter (\<lambda>e. truthy (ev_name e) \<and> truthy (ev_source e) \<and> truthy (ev_type e)) (m_events m)"

definition getJson :: "sm_state option sm_model \<Rightarrow> js res" where
  "getJson m = do {
     ss \<leftarrow> those (map (map_option state_getJson) (m_states m));
     Some (JObj
       (put_if (m_functions m \<noteq> []) ''functions'' (JArr (map Function_getJson (m_functions m)))
         (put_if (saved_events m \<noteq> []) ''events'' (JArr (map Event_getJson (saved_events m)))
           [(''id'', m_id m), (''version'', m_version m), (''name'', m_name m),
            (''description'', m_description m), (''specVersion'', m_specVersion m),
            (''start'', start_json (m_start m)), (''states'', JArr ss)])))
   }"

definition build :: "js \<Rightarrow> sm_state option sm_model res" where
  "build json = do {
     i \<leftarrow> js_get json ''id'';
     a \<leftarrow> js_get json ''applicationDomainId'';
     v \<leftarrow> js_get json ''vpn'';
     n \<leftarrow> js_get json ''name'';
     d \<leftarrow> js_get json ''description'';
     ver \<leftarrow> js_get json ''version'';
     spec \<leftarrow> js_get json ''specVersion'';
     st \<leftarrow> js_get json ''start'';
     start \<leftarrow> (if truthy st then map_option Some (Start_build st) else Some None);
     ss \<leftarrow> js_get json ''states'';
     states \<leftarrow> js_map build_state ss;
     fs \<leftarrow> js_get json ''functions'';
     functions \<leftarrow> (if truthy fs then js_map Function_build fs else Some []);
     es \<leftarrow> js_get json ''events'';
     events \<leftarrow> (if truthy es then js_map Event_build es else Some []);
     Some (new_StateMachineModel\<lparr>m_id := i, m_applicationDomainId := a, m_vpn := v, m_name := n,
       m_description := d, m_version := ver, m_specVersion := spec, m_start := start,
       m_states := states, m_functions := functions, m_events := events\<rparr>)
   }"

section \<open>Looking states up and removing them\<close>

definition getState :: "js \<Rightarrow> sm_state list \<Rightarrow> sm_state option" where
  "getState stateName sts = js_filter0 (\<lambda>s. js_seq (state_id s) stateName) sts"

definition getRootState :: "sm_state sm_model \<Rightarrow> sm_state option" where
  "getRootState m =
     (case m_start m of
        None \<Rightarrow> None
      | Some st \<Rightarrow> js_filter0 (\<lambda>s. truthy (sta_stateName st) \<and> js_seq (state_id s) (sta_stateName st))
                    (m_states m))"

text \<open>
  \<open>remove\<close> calls itself on the successors; the first argument is the number of nested calls the
  call stack allows, and \<open>None\<close> means that it overflows.
\<close>

fun remove :: "nat \<Rightarrow> sm_state \<Rightarrow> sm_state list \<Rightarrow> sm_state list option"
  and remove_next :: "nat \<Rightarrow> transition list \<Rightarrow> sm_state list \<Rightarrow> sm_state list option" where
  "remove 0 s sts = None"
| "remove (Suc n) s sts = do {
     sts' \<leftarrow> remove_next n (getNextTransitions s) sts;
     Some (js_splice (js_findIndex (\<lambda>x. js_seq (state_id x) (state_id s)) sts') 1 sts')
   }"
| "remove_next n [] sts = Some sts"
| "remove_next n (t # ts) sts =
     (case getState (transition_target t) sts of
        None \<Rightarrow> remove_next n ts sts
      | Some child \<Rightarrow> do {
          sts' \<leftarrow> remove n child sts;
          remove_next n ts sts'
        })"

fun remove_each :: "nat \<Rightarrow> sm_state list \<Rightarrow> sm_state list \<Rightarrow> sm_state list option" where
  "remove_each n [] sts = Some sts"
| "remove_each n (f # fs) sts = do {
     sts' \<leftarrow> remove n f sts;
     remove_each n fs sts'
   }"

definition removeByNames :: "nat \<Rightarrow> js list \<Rightarrow> sm_state list \<Rightarrow> sm_state list option" where
  "removeByNames n names sts =
     remove_each n
       (filter (\<lambda>s. truthy (state_name s) \<and> 0 \<le> js_findIndex (\<lambda>k. js_seq k (state_name s)) names) sts)
       sts"

section \<open>Saving and loading a document\<close>

definition norm_start :: "start_model \<Rightarrow> start_model" where
  "norm_start s = s\<lparr>sta_stateName := or_default (sta_stateName s) Undef,
                    sta_schedule := or_default (sta_schedule s) Undef\<rparr>"

fun lower_js :: "js \<Rightarrow> js" where
  "lower_js (JStr t) = JStr (map lower_char t)"
| "lower_js v = v"

lemma lower_js_idem [simp]: "lower_js (lower_js v) = lower_js v"
  by (cases v) auto

lemma truthy_lower_js [simp]: "truthy (lower_js v) = truthy v"
  by (cases v) auto

definition function_ok :: "sm_function \<Rightarrow> bool" where
  "function_ok f \<longleftrightarrow> truthy (fn_type f) \<longrightarrow> (\<exists>t. fn_type f = JStr t)"

definition norm_function :: "sm_function \<Rightarrow> sm_function" where
  "norm_function f = f\<lparr>fn_type := (if truthy (fn_type f) then lower_js (fn_type f) else Undef),
                       fn_metadata := or_default (fn_metadata f) Undef\<rparr>"

definition event_ok :: "sm_event \<Rightarrow> bool" where
  "event_ok e \<longleftrightarrow> (\<exists>k. ev_kind e = JStr k)"

definition norm_event :: "sm_event \<Rightarrow> sm_event" where
  "norm_event e = e\<lparr>ev_kind := lower_js (ev_kind e),
                    ev_metadata := or_default (ev_metadata e) Undef\<rparr>"

interpretation start: stable_codec "\<lambda>s. start_json (Some s)" Start_build norm_start always
  by unfold_locales (simp_all add: start_json_def Start_build_def norm_start_def)

interpretation start_method: stable_codec Start_getJson Start_build norm_start always
  by unfold_locales (simp_all add: Start_getJson_def Start_build_def norm_start_def or_default_def)

lemma or_default_put: "(if truthy v then v else Undef) = or_default v Undef"
  by (simp add: or_default_def)

interpretation func: stable_codec Function_getJson Function_build norm_function function_ok
proof (unfold_locales, goal_cases)
  case (1 f) then show ?case
    by (auto simp: Function_getJson_def Function_build_def norm_function_def function_ok_def or_default_def)
next
  case (2 f) then show ?case by (auto simp: norm_function_def function_ok_def)
next
  case (3 f) then show ?case by (auto simp: norm_function_def)
qed

interpretation event: stable_codec Event_getJson Event_build norm_event event_ok
proof (unfold_locales, goal_cases)
  case (1 e) then show ?case
    by (auto simp: Event_getJson_def Event_build_def norm_event_def event_ok_def or_default_def)
next
  case (2 e) then show ?case by (auto simp: norm_event_def event_ok_def)
next
  case (3 e) then show ?case by (auto simp: norm_event_def)
qed

text \<open>What a reload of the whole document keeps.\<close>

definition norm_model :: "sm_state sm_model \<Rightarrow> sm_state option sm_model" where
  "norm_model m = \<lparr>m_id = m_id m, m_name = m_name m, m_description = m_description m,
     m_version = m_version m, m_specVersion = m_specVersion m, m_applicationDomainId = Undef,
     m_vpn = Undef, m_start = map_option norm_start (m_start m),
     m_states = map (Some \<circ> norm_state) (m_states m),
     m_functions = map norm_function (m_functions m),
     m_events = map norm_event (saved_events m)\<rparr>"

text \<open>A model all of whose states are defined, as an element of the type \<open>build\<close> returns.\<close>

definition defined :: "sm_state sm_model \<Rightarrow> sm_state option sm_model" where
  "defined m = \<lparr>m_id = m_id m, m_name = m_name m, m_description = m_description m,
     m_version = m_version m, m_specVersion = m_specVersion m,
     m_applicationDomainId = m_applicationDomainId m, m_vpn = m_vpn m, m_start = m_start m,
     m_states = map Some (m_states m), m_functions = m_functions m, m_events = m_events m\<rparr>"

definition document_ok :: "sm_state sm_model \<Rightarrow> bool" where
  "document_ok m \<longleftrightarrow> list_all function_ok (m_functions m) \<and> list_all event_ok (saved_events m)"

lemma build_states_list:
  "js_map build_state (JArr (map state_getJson ss)) = Some (map (Some \<circ> norm_state) ss)"
  by (induction ss) (simp_all add: state_reload)

lemma saved_events_defined [simp]: "saved_events (defined m) = saved_events m"
  by (simp add: saved_events_def defined_def)

lemma getJson_defined:
  "getJson (defined m) = Some (JObj
     (put_if (m_functions m \<noteq> []) ''functions'' (JArr (map Function_getJson (m_functions m)))
       (put_if (saved_events m \<noteq> []) ''events'' (JArr (map Event_getJson (saved_events m)))
         [(''id'', m_id m), (''version'', m_version m), (''name'', m_name m),
          (''description'', m_description m), (''specVersion'', m_specVersion m),
          (''start'', start_json (m_start m)),
          (''states'', JArr (map state_getJson (m_states m)))])))"
proof -
  have "those (map (map_option state_getJson) (map Some (m_states m))) =
      Some (map state_getJson (m_states m))"
    by (simp add: those_map_eq_Some [of _ _ state_getJson])
  moreover have "m_states (defined m) = map Some (m_states m)" by (simp add: defined_def)
  ultimately show ?thesis unfolding getJson_def by (simp del: map_map) (simp add: defined_def)
qed

lemma start_reload:
  "(if truthy (start_json s) then map_option Some (Start_build (start_json s)) else Some None) =
     Some (map_option norm_start s)"
  using start.dec_enc by (cases s) (auto simp: start_json_def)

lemma document_reload_aux:
  assumes "document_ok m"
  shows "Option.bind (getJson (defined m)) build = Some (norm_model m)"
proof -
  have fs: "js_map Function_build (JArr (map Function_getJson (m_functions m))) =
      Some (map norm_function (m_functions m))"
    using assms func.dec_enc_list by (simp add: document_ok_def)
  have es: "js_map Event_build (JArr (map Event_getJson (saved_events m))) =
      Some (map norm_event (saved_events m))"
    using assms event.dec_enc_list by (simp add: document_ok_def)
  show ?thesis
    using build_states_list [of "m_states m"] start_reload [of "m_start m"]
      fs es
    by (cases "m_functions m = []"; cases "saved_events m = []")
      (simp_all add: getJson_defined build_def norm_model_def new_StateMachineModel_def)
qed

text \<open>
  C2. Saving a workflow document with \<open>getJson\<close> and loading it with \<open>build\<close> succeeds whenever the
  types of functions and the kinds of events are strings, and yields the document \<open>norm_model m\<close>:
  every state, function and complete event in order, without the application domain and the
  virtual network.
\<close>

theorem document_reload:
  assumes "document_ok m"
  shows "Option.bind (getJson (defined m)) build = Some (norm_model m)"
  using assms by (rule document_reload_aux)

definition example_model :: "sm_state sm_model" where
  "example_model = new_StateMachineModel\<lparr>m_id := JStr ''m'',
     m_start := Some \<lparr>sta_stateName = JStr ''sw'', sta_schedule = Undef\<rparr>,
     m_states := [Switch example_switch,
       Inject (new_InjectState\<lparr>st_id := JStr ''a''\<rparr>), Foreach (new_ForeachState\<lparr>st_id := JStr ''b''\<rparr>)],
     m_functions := [\<lparr>fn_name = JStr ''f'', fn_type = JStr ''REST'', fn_operation = JStr ''op'', fn_metadata = Undef\<rparr>]\<rparr>"

theorem document_reload_witness:
  "map_option m_functions (Option.bind (getJson (defined example_model)) build) =
   Some [\<lparr>fn_name = JStr ''f'', fn_type = JStr ''rest'', fn_operation = JStr ''op'', fn_metadata = Undef\<rparr>]"
proof -
  have "document_ok example_model"
    by (simp add: document_ok_def example_model_def new_StateMachineModel_def function_ok_def saved_events_def)
  moreover have "lower_js (JStr ''REST'') = JStr ''rest''" by code_simp
  ultimately show ?thesis using document_reload [of example_model]
    by (simp add: norm_model_def example_model_def norm_function_def or_default_def del: lower_js.simps)
qed

text \<open>
  A loaded document is stable: saving and loading it again changes nothing.
\<close>

theorem document_reload_stable:
  assumes "document_ok m"
  shows "Option.bind (Option.bind (getJson (defined m)) build) (\<lambda>r. Option.bind (getJson r) build) =
         Option.bind (getJson (defined m)) build"
proof -
  let ?m = "\<lparr>m_id = m_id m, m_name = m_name m, m_description = m_description m,
     m_version = m_version m, m_specVersion = m_specVersion m, m_applicationDomainId = Undef,
     m_vpn = Undef, m_start = map_option norm_start (m_start m),
     m_states = map norm_state (m_states m), m_functions = map norm_function (m_functions m),
     m_events = map norm_event (saved_events m)\<rparr>"
  have eq: "norm_model m = defined ?m"
    by (simp add: defined_def norm_model_def)
  have se: "saved_events ?m = map norm_event (saved_events m)"
    by (simp add: saved_events_def norm_event_def filter_map o_def)
  have ok: "document_ok ?m"
    using assms func.ok_norm event.ok_norm by (auto simp: document_ok_def se list_all_iff)
  have "norm_model ?m = defined ?m"
    by (simp add: norm_model_def defined_def se state.norm_norm func.norm_norm event.norm_norm
        map_option_idem [OF start.norm_norm] o_def)
  with document_reload_aux [OF assms] document_reload_aux [OF ok] eq show ?thesis by simp
qed

theorem document_reload_stable_witness:
  "Option.bind (Option.bind (getJson (defined example_model)) build) (\<lambda>r. Option.bind (getJson r) build) =
   Option.bind (getJson (defined example_model)) build"
proof -
  have "document_ok example_model"
    by (simp add: document_ok_def example_model_def new_StateMachineModel_def function_ok_def saved_events_def)
  from document_reload_stable [OF this] show ?thesis .
qed

end
