(* ===== verification/Diagram_Build.thy ===== *)
theory Diagram_Build
  imports SM_Remove
begin

text \<open>
  The state of the diagram component (components/statediagram/statediagram.component.ts) and
  \<open>buildNodeHierarchy\<close>, which turns the workflow into nodes, edges, labels, anchors, drop zones and
  tokens. Objects that refer to each other are referred to by their position in the array that
  holds them: the arrays only grow while the diagram is built. A node refers to its state by the
  state's id. Coordinates are rational numbers; the program's are halves of integers, which
  doubles represent exactly.
\<close>

section \<open>Classes of the diagram\<close>

record node =
  nd_x :: rat
  nd_y :: rat
  nd_level :: nat
  nd_state :: js
  nd_status :: js

record token =
  tk_data :: js
  tk_type :: string
  tk_node :: nat
  tk_posX :: rat
  tk_posY :: rat

text \<open>A path \<open>"M" + x + "," + y + "L" + x' + "," + y'\<close> is represented by its two points.\<close>

type_synonym svg_path = "((rat \<times> rat) \<times> (rat \<times> rat)) option"

record edge =
  eg_from :: nat
  eg_to :: nat
  eg_transition :: transition
  eg_ref :: tref
  eg_path :: svg_path
  eg_fromX :: rat
  eg_fromY :: rat
  eg_toX :: rat
  eg_toY :: rat

record edge_label =
  el_label :: label
  el_edge :: nat
  el_posX :: rat
  el_posY :: rat
  el_width :: rat
  el_height :: rat
  el_selected :: bool

record anchor =
  an_node :: nat
  an_x :: rat
  an_y :: rat
  an_selected :: bool

record zone =
  dz_node :: nat
  dz_anchor :: nat
  dz_x :: rat
  dz_y :: rat
  dz_width :: rat
  dz_height :: rat

record diagram_options =
  o_nodeGap :: rat
  o_nodeWidth :: rat
  o_nodeHeight :: rat
  o_tokenWidth :: rat
  o_tokenHeight :: rat
  o_zoom :: rat
  o_draggableZoneWidth :: rat

definition new_DiagramOptions :: diagram_options where
  "new_DiagramOptions = \<lparr>o_nodeGap = 50, o_nodeWidth = 200, o_nodeHeight = 90, o_tokenWidth = 100,
     o_tokenHeight = 30, o_zoom = 20, o_draggableZoneWidth = 30\<rparr>"

text \<open>An executed instance of the workflow (stores/statemachineinstances/models).\<close>

record history =
  hi_data :: js
  hi_status :: js
  hi_timestamp :: js

record instance_state =
  is_defId :: js
  is_status :: js
  is_input :: js
  is_output :: js
  is_histories :: "history list"

text \<open>
  The component. \<open>d_svgWidth\<close> is what \<open>getSvgWidth\<close> reads from the page (\<open>None\<close> before the view
  exists); \<open>d_subs\<close> counts, for every state, the subscriptions of the component to its event
  emitter \<open>updated\<close>; a view box \<open>"x y w h"\<close> is represented by its four numbers.
\<close>

record diagram =
  d_model :: "sm_state sm_model"
  d_instance :: "instance_state list"
  d_options :: diagram_options
  d_svgWidth :: "rat option"
  d_circleStart :: "rat \<times> rat"
  d_circleStartSelected :: bool
  d_edgePathCircleStart :: svg_path
  d_viewBox :: "rat \<times> rat \<times> rat \<times> rat"
  d_isMoving :: bool
  d_isResizing :: bool
  d_startMoving :: bool
  d_previousMouse :: "rat \<times> rat"
  d_nodes :: "node list"
  d_edges :: "edge list"
  d_labels :: "edge_label list"
  d_anchors :: "anchor list"
  d_zones :: "zone list"
  d_tokens :: "token list"
  d_selectedState :: "js option"
  d_selectedTransition :: "transition option"
  d_subs :: "js \<Rightarrow> nat"

section \<open>Building the nodes\<close>

text \<open>The transitions of a state, each with the identity of its object.\<close>

definition ref_transitions :: "sm_state \<Rightarrow> (transition \<times> tref) list" where
  "ref_transitions s =
     (case s of
        Switch w \<Rightarrow> zip (sw_getNextTransitions w)
          (map EventRef [0..<length (sw_events w)] @ map DataRef [0..<length (sw_datas w)] @ [OtherRef])
      | _ \<Rightarrow> map (\<lambda>t. (t, OtherRef)) (getNextTransitions s))"

definition new_token :: "js \<Rightarrow> string \<Rightarrow> nat \<Rightarrow> token" where
  "new_token v ty i = \<lparr>tk_data = v, tk_type = ty, tk_node = i, tk_posX = 0, tk_posY = 0\<rparr>"

text \<open>
  \<open>histories.sort((a, b) => time(b) - time(a)).filter(a => a.status == ERROR)[0]\<close>; \<open>tm\<close> is the
  date parsing \<open>new Date(timestamp).getTime()\<close>.
\<close>

definition last_error :: "(js \<Rightarrow> int) \<Rightarrow> instance_state \<Rightarrow> history option" where
  "last_error tm inst =
     js_filter0 (\<lambda>h. js_eq (hi_status h) (JStr ''ERROR''))
       (sort_key (\<lambda>h. - tm (hi_timestamp h)) (is_histories inst))"

text \<open>The tokens of the node \<open>i\<close>; \<open>history.data\<close> throws when no history entry is an error.\<close>

definition instance_tokens :: "(js \<Rightarrow> int) \<Rightarrow> instance_state \<Rightarrow> nat \<Rightarrow> token list res" where
  "instance_tokens tm inst i = do {
     let ins = (if truthy (is_input inst) then [new_token (is_input inst) ''INPUT'' i] else []);
     let outs = (if truthy (is_output inst) then [new_token (is_output inst) ''OUTPUT'' i] else []);
     errs \<leftarrow> (if js_eq (is_status inst) (JStr ''ERROR'')
             then map_option (\<lambda>h. [new_token (hi_data h) ''ERROR'' i]) (last_error tm inst)
             else Some []);
     Some (ins @ outs @ errs)
   }"

definition matching_instances :: "js \<Rightarrow> diagram \<Rightarrow> instance_state list" where
  "matching_instances k d = filter (\<lambda>s. js_seq (is_defId s) k) (d_instance d)"

definition push_node :: "(js \<Rightarrow> int) \<Rightarrow> sm_state \<Rightarrow> nat \<Rightarrow> diagram \<Rightarrow> diagram res" where
  "push_node tm s lvl d =
     (let i = length (d_nodes d); k = state_id s
      in do {
        (status, toks) \<leftarrow>
          (case matching_instances k d of
             [inst] \<Rightarrow> map_option (\<lambda>ts. (is_status inst, ts)) (instance_tokens tm inst i)
           | _ \<Rightarrow> Some (JStr '''', []));
        Some (d\<lparr>d_tokens := d_tokens d @ toks,
                d_nodes := d_nodes d @ [\<lparr>nd_x = 0, nd_y = 0, nd_level = lvl, nd_state = k, nd_status = status\<rparr>],
                d_anchors := d_anchors d @ [\<lparr>an_node = i, an_x = 0, an_y = 0, an_selected = False\<rparr>],
                d_zones := d_zones d @ [\<lparr>dz_node = i, dz_anchor = length (d_anchors d), dz_x = 0, dz_y = 0,
                                         dz_width = 0, dz_height = 0\<rparr>],
                d_subs := (d_subs d)(k := d_subs d k + 1)\<rparr>)
      })"

definition push_edge :: "nat \<Rightarrow> nat \<Rightarrow> transition \<Rightarrow> tref \<Rightarrow> diagram \<Rightarrow> diagram" where
  "push_edge i j t r d =
     d\<lparr>d_labels := d_labels d @
          (if label_present (getLabel t)
           then [\<lparr>el_label = getLabel t, el_edge = length (d_edges d), el_posX = 0, el_posY = 0,
                  el_width = 0, el_height = 0, el_selected = False\<rparr>]
           else []),
       d_edges := d_edges d @ [\<lparr>eg_from = i, eg_to = j, eg_transition = t, eg_ref = r, eg_path = None,
                                eg_fromX = 0, eg_fromY = 0, eg_toX = 0, eg_toY = 0\<rparr>]\<rparr>"

definition existing_nodes :: "js \<Rightarrow> diagram \<Rightarrow> nat list" where
  "existing_nodes k d = filter (\<lambda>i. js_seq (nd_state (d_nodes d ! i)) k) [0..<length (d_nodes d)]"

definition raise_level :: "nat \<Rightarrow> nat \<Rightarrow> diagram \<Rightarrow> diagram" where
  "raise_level i lvl d =
     (let n = d_nodes d ! i
      in if nd_level n < lvl then d\<lparr>d_nodes := (d_nodes d)[i := n\<lparr>nd_level := lvl\<rparr>]\<rparr> else d)"

text \<open>
  The first number bounds the depth of the call stack; \<open>None\<close> means that it overflows, or the
  \<open>TypeError\<close> of a missing history entry.
\<close>

fun buildNodeHierarchy ::
      "(js \<Rightarrow> int) \<Rightarrow> nat \<Rightarrow> sm_state \<Rightarrow> nat option \<Rightarrow> diagram \<Rightarrow> (nat \<times> diagram) option"
  and buildChildren ::
      "(js \<Rightarrow> int) \<Rightarrow> nat \<Rightarrow> nat \<Rightarrow> (transition \<times> tref) list \<Rightarrow> diagram \<Rightarrow> diagram option" where
  "buildNodeHierarchy tm 0 s p d = None"
| "buildNodeHierarchy tm (Suc n) s p d =
     (let lvl = (case p of None \<Rightarrow> 0 | Some i \<Rightarrow> nd_level (d_nodes d ! i) + 1)
      in case existing_nodes (state_id s) d of
           [i] \<Rightarrow> Some (i, raise_level i lvl d)
         | _ \<Rightarrow> do {
             d1 \<leftarrow> push_node tm s lvl d;
             d2 \<leftarrow> buildChildren tm n (length (d_nodes d)) (ref_transitions s) d1;
             Some (length (d_nodes d), d2)
           })"
| "buildChildren tm n i [] d = Some d"
| "buildChildren tm n i ((t, r) # ts) d =
     (case getState (transition_target t) (m_states (d_model d)) of
        None \<Rightarrow> buildChildren tm n i ts d
      | Some child \<Rightarrow> do {
          (j, d1) \<leftarrow> buildNodeHierarchy tm n child (Some i) d;
          buildChildren tm n i ts (push_edge i j t r d1)
        })"

section \<open>The diagram is a depth-first search of the workflow\<close>

abbreviation node_ids :: "diagram \<Rightarrow> js list" where
  "node_ids d \<equiv> map nd_state (d_nodes d)"

definition instance_ok :: "diagram \<Rightarrow> bool" where
  "instance_ok d \<longleftrightarrow> (\<forall>inst \<in> set (d_instance d). js_eq (is_status inst) (JStr ''ERROR'') \<longrightarrow>
     (\<exists>h \<in> set (is_histories inst). js_eq (hi_status h) (JStr ''ERROR'')))"

lemma ref_transitions_fst: "map fst (ref_transitions s) = getNextTransitions s"
proof (cases s)
  case (Switch w)
  have "length (sw_getNextTransitions w) \<le> length (sw_events w) + (length (sw_datas w) + 1)"
    by (simp add: sw_getNextTransitions_def split: option.split)
  then show ?thesis using Switch by (simp add: ref_transitions_def map_fst_zip_take)
qed (simp_all add: ref_transitions_def o_def)

lemma instance_tokens_ok:
  assumes "instance_ok d" and "inst \<in> set (d_instance d)"
  shows "\<exists>toks. instance_tokens tm inst i = Some toks \<and> (\<forall>t \<in> set toks. tk_node t = i)"
proof (cases "js_eq (is_status inst) (JStr ''ERROR'')")
  case True
  with assms obtain g where "g \<in> set (is_histories inst)" "js_eq (hi_status g) (JStr ''ERROR'')"
    unfolding instance_ok_def by blast
  then have "last_error tm inst \<noteq> None"
    unfolding last_error_def js_filter0_find find_None_set set_sort by blast
  then obtain h where "last_error tm inst = Some h" by blast
  with True show ?thesis by (auto simp: instance_tokens_def new_token_def)
qed (auto simp: instance_tokens_def new_token_def)

lemma push_node_Some:
  assumes "instance_ok d"
  shows "\<exists>st toks. (\<forall>t \<in> set toks. tk_node t = length (d_nodes d)) \<and>
    push_node tm s lvl d = Some (d\<lparr>d_tokens := d_tokens d @ toks,
      d_nodes := d_nodes d @ [\<lparr>nd_x = 0, nd_y = 0, nd_level = lvl, nd_state = state_id s, nd_status = st\<rparr>],
      d_anchors := d_anchors d @ [\<lparr>an_node = length (d_nodes d), an_x = 0, an_y = 0, an_selected = False\<rparr>],
      d_zones := d_zones d @ [\<lparr>dz_node = length (d_nodes d), dz_anchor = length (d_anchors d),
         dz_x = 0, dz_y = 0, dz_width = 0, dz_height = 0\<rparr>],
      d_subs := (d_subs d)(state_id s := d_subs d (state_id s) + 1)\<rparr>)"
proof (cases "\<exists>inst. matching_instances (state_id s) d = [inst]")
  case True
  then obtain inst where inst: "matching_instances (state_id s) d = [inst]" ..
  then have "inst \<in> set (matching_instances (state_id s) d)" by simp
  then have "inst \<in> set (d_instance d)" by (simp add: matching_instances_def)
  from instance_tokens_ok [OF assms this] obtain toks
    where "instance_tokens tm inst (length (d_nodes d)) = Some toks"
      and "\<forall>t \<in> set toks. tk_node t = length (d_nodes d)" by blast
  then show ?thesis using inst
    by (intro exI [of _ "is_status inst"] exI [of _ toks]) (simp add: push_node_def Let_def)
next
  case False
  then have "(case matching_instances (state_id s) d of
      [inst] \<Rightarrow> map_option (\<lambda>ts. (is_status inst, ts)) (instance_tokens tm inst (length (d_nodes d)))
    | _ \<Rightarrow> Some (JStr '''', [])) = Some (JStr '''', [])"
    by (auto split: list.splits)
  then show ?thesis
    by (intro exI [of _ "JStr ''''"] exI [of _ "[]"]) (simp add: push_node_def Let_def)
qed

lemma filter_upt_eq: "i < n \<Longrightarrow> filter (\<lambda>j. j = i) [0..<n] = [i]"
  by (induction n) (auto simp: less_Suc_eq filter_empty_conv)

lemma existing_nodes_present:
  assumes "distinct (node_ids d)" and "is_prim k" and "k \<in> set (node_ids d)"
  obtains i where "i < length (d_nodes d)" and "existing_nodes k d = [i]" and "node_ids d ! i = k"
proof -
  from assms(3) obtain i where i: "i < length (d_nodes d)" "nd_state (d_nodes d ! i) = k"
    by (auto simp: in_set_conv_nth)
  have "existing_nodes k d = filter (\<lambda>j. j = i) [0..<length (d_nodes d)]"
    unfolding existing_nodes_def using i assms
    by (intro filter_cong) (auto simp: js_seq_def distinct_conv_nth)
  then have "existing_nodes k d = [i]" using i by (simp add: filter_upt_eq)
  with i that show ?thesis by simp
qed

lemma existing_nodes_absent: "k \<notin> set (node_ids d) \<Longrightarrow> existing_nodes k d = []"
  by (auto simp: existing_nodes_def js_seq_def filter_empty_conv)

subsection \<open>What a call adds to the diagram\<close>

text \<open>Everything but the arrays that the search fills and the subscriptions.\<close>

definition frame :: "diagram \<Rightarrow> diagram" where
  "frame d = d\<lparr>d_nodes := [], d_edges := [], d_labels := [], d_anchors := [], d_zones := [],
     d_tokens := [], d_subs := (\<lambda>_. 0)\<rparr>"

text \<open>
  The arrays fit together: one node per state, one anchor and one drop zone per node, in the order
  of the nodes; edges join nodes; the labels are those of the edges whose transition has one.
\<close>

definition shape :: "diagram \<Rightarrow> bool" where
  "shape d \<longleftrightarrow> distinct (node_ids d) \<and>
     map an_node (d_anchors d) = [0..<length (d_nodes d)] \<and>
     map dz_node (d_zones d) = [0..<length (d_nodes d)] \<and>
     map dz_anchor (d_zones d) = [0..<length (d_nodes d)] \<and>
     (\<forall>t \<in> set (d_tokens d). tk_node t < length (d_nodes d)) \<and>
     (\<forall>e \<in> set (d_edges d). eg_from e < length (d_nodes d) \<and> eg_to e < length (d_nodes d)) \<and>
     map el_edge (d_labels d) =
       filter (\<lambda>k. label_present (getLabel (eg_transition (d_edges d ! k)))) [0..<length (d_edges d)]"

definition out_edges :: "diagram \<Rightarrow> nat \<Rightarrow> (transition \<times> tref \<times> js) list" where
  "out_edges d i = map (\<lambda>e. (eg_transition e, eg_ref e, node_ids d ! eg_to e))
     (filter (\<lambda>e. eg_from e = i) (d_edges d))"

text \<open>The edges a list of transitions should give: those whose target is a state of the workflow.\<close>

definition wanted :: "sm_state list \<Rightarrow> (transition \<times> tref) list \<Rightarrow> (transition \<times> tref \<times> js) list" where
  "wanted sts ts = map (\<lambda>(t, r). (t, r, transition_target t))
     (filter (\<lambda>(t, r). getState (transition_target t) sts \<noteq> None) ts)"

definition grows ::
    "sm_state list \<Rightarrow> sm_state set \<Rightarrow> (nat \<Rightarrow> (transition \<times> tref \<times> js) list) \<Rightarrow> diagram \<Rightarrow> diagram \<Rightarrow> bool" where
  "grows sts S extra d d' \<longleftrightarrow> frame d' = frame d \<and> shape d' \<and>
     (\<exists>ks. node_ids d' = node_ids d @ ks \<and> set ks \<subseteq> state_id ` S \<and>
           (\<forall>k. d_subs d' k = d_subs d k + count_list ks k)) \<and>
     (\<forall>i < length (d_nodes d). out_edges d' i = out_edges d i @ extra i) \<and>
     (\<forall>i s. length (d_nodes d) \<le> i \<and> i < length (d_nodes d') \<and> s \<in> set sts \<and>
            state_id s = node_ids d' ! i \<longrightarrow> out_edges d' i = wanted sts (ref_transitions s))"

lemma frame_model: "frame d' = frame d \<Longrightarrow> d_model d' = d_model d"
  by (cases d, cases d') (simp add: frame_def)

lemma frame_instance: "frame d' = frame d \<Longrightarrow> d_instance d' = d_instance d"
  by (cases d, cases d') (simp add: frame_def)

lemma grows_length: "grows sts S f d d' \<Longrightarrow> length (d_nodes d) \<le> length (d_nodes d')"
proof -
  assume "grows sts S f d d'"
  then obtain ks where "node_ids d' = node_ids d @ ks" by (auto simp: grows_def)
  then have "length (node_ids d') = length (node_ids d) + length ks" by simp
  then show ?thesis by simp
qed

lemma grows_nth: "grows sts S f d d' \<Longrightarrow> i < length (d_nodes d) \<Longrightarrow> node_ids d' ! i = node_ids d ! i"
  by (auto simp: grows_def nth_append simp del: nth_map)

lemma grows_shape: "grows sts S f d d' \<Longrightarrow> shape d'"
  by (simp add: grows_def)

lemma grows_ids: "grows sts S f d d' \<Longrightarrow>
    set (node_ids d) \<subseteq> set (node_ids d') \<and> set (node_ids d') \<subseteq> set (node_ids d) \<union> state_id ` S"
  unfolding grows_def by (elim conjE exE) (simp del: set_map, blast)

lemma grows_refl: "shape d \<Longrightarrow> grows sts S (\<lambda>_. []) d d"
  by (auto simp: grows_def intro!: exI [of _ "[]"])

lemma grows_trans:
  assumes "grows sts S f d d1" and "grows sts S g d1 d2"
    and "\<And>i. length (d_nodes d) \<le> i \<Longrightarrow> g i = []"
  shows "grows sts S (\<lambda>i. f i @ g i) d d2"
proof -
  have len: "length (d_nodes d) \<le> length (d_nodes d1)" using assms(1) by (rule grows_length)
  obtain ks where ks: "node_ids d1 = node_ids d @ ks" "set ks \<subseteq> state_id ` S"
      "\<forall>k. d_subs d1 k = d_subs d k + count_list ks k"
    using assms(1) by (auto simp: grows_def)
  obtain ls where ls: "node_ids d2 = node_ids d1 @ ls" "set ls \<subseteq> state_id ` S"
      "\<forall>k. d_subs d2 k = d_subs d1 k + count_list ls k"
    using assms(2) by (auto simp: grows_def)
  have ids: "\<exists>ms. node_ids d2 = node_ids d @ ms \<and> set ms \<subseteq> state_id ` S \<and>
      (\<forall>k. d_subs d2 k = d_subs d k + count_list ms k)"
    using ks ls by (intro exI [of _ "ks @ ls"]) (simp add: count_list_append)
  have "out_edges d2 i = wanted sts (ref_transitions s)"
    if i: "length (d_nodes d) \<le> i" "i < length (d_nodes d2)" "s \<in> set sts" "state_id s = node_ids d2 ! i"
    for i s
  proof (cases "i < length (d_nodes d1)")
    case True
    then have "out_edges d2 i = out_edges d1 i" using assms(2) assms(3) [OF i(1)] by (simp add: grows_def)
    also have "\<dots> = wanted sts (ref_transitions s)"
      using assms(1) i True grows_nth [OF assms(2) True] unfolding grows_def by metis
    finally show ?thesis .
  next
    case False
    then show ?thesis using assms(2) i unfolding grows_def by (metis linorder_not_le)
  qed
  with ids show ?thesis using assms(1,2) len by (simp add: grows_def)
qed

lemma raise_level_grows:
  assumes "shape d" and "i < length (d_nodes d)"
  shows "grows sts S (\<lambda>_. []) d (raise_level i lvl d)"
proof -
  have ids: "node_ids (raise_level i lvl d) = node_ids d"
    using assms(2) by (auto simp: raise_level_def Let_def map_update intro!: list_update_same_conv [THEN iffD2])
  have len: "length (d_nodes (raise_level i lvl d)) = length (d_nodes d)"
    by (simp add: raise_level_def Let_def)
  have rest: "frame (raise_level i lvl d) = frame d" "d_subs (raise_level i lvl d) = d_subs d"
      "d_edges (raise_level i lvl d) = d_edges d" "d_labels (raise_level i lvl d) = d_labels d"
      "d_anchors (raise_level i lvl d) = d_anchors d" "d_zones (raise_level i lvl d) = d_zones d"
      "d_tokens (raise_level i lvl d) = d_tokens d"
    by (simp_all add: raise_level_def Let_def frame_def)
  show ?thesis unfolding grows_def shape_def out_edges_def ids len rest
    using assms(1) by (auto simp: shape_def)
qed

lemma push_edge_grows:
  assumes "shape d" and "i < length (d_nodes d)" and "j < length (d_nodes d)"
  shows "grows sts S (\<lambda>k. if k = i then [(t, r, node_ids d ! j)] else []) d (push_edge i j t r d)"
proof -
  have "filter (\<lambda>k. label_present (getLabel (eg_transition ((d_edges d @ [e]) ! k)))) [0..<length (d_edges d)] =
        filter (\<lambda>k. label_present (getLabel (eg_transition (d_edges d ! k)))) [0..<length (d_edges d)]" for e
    by (intro filter_cong) (auto simp: nth_append)
  then have "shape (push_edge i j t r d)"
    using assms unfolding shape_def push_edge_def by auto
  then show ?thesis
    by (auto simp: grows_def push_edge_def frame_def out_edges_def intro!: exI [of _ "[]"])
qed

lemma push_node_grows:
  assumes "shape d" and "instance_ok d" and "state_id s \<notin> set (node_ids d)"
  obtains d1 where "push_node tm s lvl d = Some d1" and "shape d1" and "frame d1 = frame d"
    and "node_ids d1 = node_ids d @ [state_id s]" and "d_edges d1 = d_edges d"
    and "d_subs d1 = (d_subs d)(state_id s := d_subs d (state_id s) + 1)"
proof -
  from push_node_Some [OF assms(2)] obtain st toks
    where toks: "\<forall>t \<in> set toks. tk_node t = length (d_nodes d)"
      and eq: "push_node tm s lvl d = Some (d\<lparr>d_tokens := d_tokens d @ toks,
      d_nodes := d_nodes d @ [\<lparr>nd_x = 0, nd_y = 0, nd_level = lvl, nd_state = state_id s, nd_status = st\<rparr>],
      d_anchors := d_anchors d @ [\<lparr>an_node = length (d_nodes d), an_x = 0, an_y = 0, an_selected = False\<rparr>],
      d_zones := d_zones d @ [\<lparr>dz_node = length (d_nodes d), dz_anchor = length (d_anchors d),
         dz_x = 0, dz_y = 0, dz_width = 0, dz_height = 0\<rparr>],
      d_subs := (d_subs d)(state_id s := d_subs d (state_id s) + 1)\<rparr>)" (is "_ = Some ?d1")
    by blast
  have "length (d_anchors d) = length (d_nodes d)"
    using assms(1) map_eq_imp_length_eq [of an_node "d_anchors d" id] by (auto simp: shape_def)
  then have "shape ?d1" using assms(1,3) toks by (auto simp: shape_def less_Suc_eq)
  then show ?thesis using eq by (intro that [of ?d1]) (auto simp: frame_def)
qed

abbreviation unvisited :: "sm_state list \<Rightarrow> diagram \<Rightarrow> js set" where
  "unvisited sts d \<equiv> state_id ` set sts - set (node_ids d)"

lemma grows_unvisited: "grows sts S f d d' \<Longrightarrow> card (unvisited sts d') \<le> card (unvisited sts d)"
  using grows_ids [of sts S f d d'] by (intro card_mono) (auto simp del: set_map)

lemma grows_ready: "grows sts S f d d' \<Longrightarrow> instance_ok d \<Longrightarrow> m_states (d_model d) = sts \<Longrightarrow>
    instance_ok d' \<and> m_states (d_model d') = sts"
  using frame_model [of d' d] frame_instance [of d' d] by (simp add: grows_def instance_ok_def)

text \<open>What a call of \<open>buildNodeHierarchy\<close> with room for \<open>n\<close> more calls on the stack does.\<close>

definition visits :: "(js \<Rightarrow> int) \<Rightarrow> nat \<Rightarrow> sm_state list \<Rightarrow> sm_state set \<Rightarrow> bool" where
  "visits tm n sts S \<longleftrightarrow> (\<forall>s p d. s \<in> S \<and> shape d \<and> instance_ok d \<and> m_states (d_model d) = sts \<and>
     card (unvisited sts d) < n \<longrightarrow>
     (\<exists>j d'. buildNodeHierarchy tm n s p d = Some (j, d') \<and> grows sts S (\<lambda>_. []) d d' \<and>
             j < length (d_nodes d') \<and> node_ids d' ! j = state_id s))"

lemma buildChildren_grows:
  assumes "visits tm n sts S" and "wf_ids sts"
  shows "\<lbrakk>\<And>t r y. (t, r) \<in> set ts \<Longrightarrow> getState (transition_target t) sts = Some y \<Longrightarrow> y \<in> S;
     shape d; instance_ok d; m_states (d_model d) = sts; card (unvisited sts d) < n; i < length (d_nodes d)\<rbrakk>
     \<Longrightarrow> \<exists>d'. buildChildren tm n i ts d = Some d' \<and>
           grows sts S (\<lambda>k. if k = i then wanted sts ts else []) d d'"
proof (induction ts arbitrary: d)
  case Nil
  then show ?case using grows_refl [of d sts S] by (simp add: wanted_def cong: if_cong)
next
  case (Cons tr ts)
  obtain t r where tr: "tr = (t, r)" by (cases tr)
  show ?case
  proof (cases "getState (transition_target t) sts")
    case None
    then have "wanted sts (tr # ts) = wanted sts ts" using tr by (simp add: wanted_def)
    moreover have "\<exists>d'. buildChildren tm n i ts d = Some d' \<and>
        grows sts S (\<lambda>k. if k = i then wanted sts ts else []) d d'"
      using Cons.prems by (intro Cons.IH) auto
    ultimately show ?thesis using None tr Cons.prems(4) by (simp cong: if_cong)
  next
    case (Some y)
    then have "y \<in> S" and ty: "state_id y = transition_target t"
      using Cons.prems(1) tr getState_Some_iff [OF assms(2)] by auto
    with assms(1) Cons.prems obtain j d1 where
      call: "buildNodeHierarchy tm n y (Some i) d = Some (j, d1)" and g1: "grows sts S (\<lambda>_. []) d d1"
      and j: "j < length (d_nodes d1)" "node_ids d1 ! j = state_id y"
      unfolding visits_def by blast
    define d2 where "d2 = push_edge i j t r d1"
    have i: "i < length (d_nodes d1)" using grows_length [OF g1] Cons.prems(6) by simp
    have g2: "grows sts S (\<lambda>k. if k = i then [(t, r, transition_target t)] else []) d1 d2"
      using push_edge_grows [OF grows_shape [OF g1] i j(1), of sts S t r] unfolding j(2) ty d2_def .
    have g12: "grows sts S (\<lambda>k. if k = i then [(t, r, transition_target t)] else []) d d2"
      using grows_trans [OF g1 g2] Cons.prems(6) by (simp add: if_distrib cong: if_cong)
    have "\<exists>d'. buildChildren tm n i ts d2 = Some d' \<and> grows sts S (\<lambda>k. if k = i then wanted sts ts else []) d2 d'"
      using Cons.prems grows_shape [OF g12] grows_ready [OF g12] grows_unvisited [OF g12] grows_length [OF g12]
      by (intro Cons.IH) auto
    then obtain d' where rest: "buildChildren tm n i ts d2 = Some d'"
      and g3: "grows sts S (\<lambda>k. if k = i then wanted sts ts else []) d2 d'" by blast
    have "wanted sts (tr # ts) = (t, r, transition_target t) # wanted sts ts"
      using Some tr by (simp add: wanted_def)
    then have "grows sts S (\<lambda>k. if k = i then wanted sts (tr # ts) else []) d d'"
      using grows_trans [OF g12 g3] Cons.prems(6) by (simp add: if_distrib cong: if_cong)
    then show ?thesis using tr Some Cons.prems(4) call rest by (simp add: d2_def)
  qed
qed

text \<open>A node is pushed, and the diagram grows from there.\<close>

lemma grows_after_push:
  assumes wf: "wf_ids sts" and s: "s \<in> S" "s \<in> set sts" and d: "shape d"
    and d1: "frame d1 = frame d" "node_ids d1 = node_ids d @ [state_id s]" "d_edges d1 = d_edges d"
      "d_subs d1 = (d_subs d)(state_id s := d_subs d (state_id s) + 1)"
    and g: "grows sts S (\<lambda>k. if k = length (d_nodes d) then wanted sts (ref_transitions s) else []) d1 d2"
  shows "grows sts S (\<lambda>_. []) d d2 \<and> length (d_nodes d) < length (d_nodes d2) \<and> node_ids d2 ! length (d_nodes d) = state_id s"
proof -
  let ?i = "length (d_nodes d)"
  have len1: "length (d_nodes d1) = Suc ?i" using arg_cong [OF d1(2), of length] by simp
  obtain ks where ks: "node_ids d2 = node_ids d1 @ ks" "set ks \<subseteq> state_id ` S"
      "\<forall>k. d_subs d2 k = d_subs d1 k + count_list ks k"
    using g by (auto simp: grows_def)
  have out: "out_edges d1 k = out_edges d k" if "k < ?i" for k
    using d d1(2) by (auto simp: out_edges_def d1(3) shape_def nth_append)
  have new1: "out_edges d1 ?i = []"
    using d by (auto simp: out_edges_def d1(3) shape_def filter_empty_conv)
  have len2: "?i < length (d_nodes d2)" and at: "node_ids d2 ! ?i = state_id s"
    using grows_length [OF g] len1 ks(1) d1(2) by (simp_all add: nth_append del: nth_map)
  have ids: "node_ids d2 = node_ids d @ (state_id s # ks)" using ks(1) d1(2) by simp
  have subs: "\<forall>k. d_subs d2 k = d_subs d k + count_list (state_id s # ks) k" using ks(3) d1(4) by simp
  have dn: "out_edges d2 k = wanted sts (ref_transitions y)"
    if k: "?i \<le> k" "k < length (d_nodes d2)" "y \<in> set sts" "state_id y = node_ids d2 ! k" for k y
  proof (cases "k = ?i")
    case True
    then have "y = s" using k(3,4) at s(2) wf_ids_inj [OF wf] by auto
    then show ?thesis using True g len1 new1 by (simp add: grows_def)
  next
    case False
    then show ?thesis using k g len1 unfolding grows_def by (metis Suc_leI le_neq_implies_less)
  qed
  have "\<exists>ks. node_ids d2 = node_ids d @ ks \<and> set ks \<subseteq> state_id ` S \<and>
      (\<forall>k. d_subs d2 k = d_subs d k + count_list ks k)"
    using ids subs ks(2) s(1) by (intro exI [of _ "state_id s # ks"]) auto
  moreover have "\<forall>k < ?i. out_edges d2 k = out_edges d k @ []"
    using out g len1 by (simp add: grows_def)
  moreover have "frame d2 = frame d" and "shape d2" using g d1(1) by (simp_all add: grows_def)
  ultimately have "grows sts S (\<lambda>_. []) d d2"
    using dn unfolding grows_def by blast
  then show ?thesis using len2 at by simp
qed

lemma visits_new:
  assumes "visits tm n sts S" and wf: "wf_ids sts" and S: "closed sts S" "S \<subseteq> set sts" and "s \<in> S"
    and d: "shape d" "instance_ok d" "m_states (d_model d) = sts" and card: "card (unvisited sts d) < Suc n"
    and new: "state_id s \<notin> set (node_ids d)"
  shows "\<exists>d2. Option.bind (push_node tm s lvl d) (buildChildren tm n (length (d_nodes d)) (ref_transitions s)) = Some d2 \<and>
    grows sts S (\<lambda>_. []) d d2 \<and> length (d_nodes d) < length (d_nodes d2) \<and>
    node_ids d2 ! length (d_nodes d) = state_id s"
proof -
  let ?i = "length (d_nodes d)"
  obtain d1 where d1: "push_node tm s lvl d = Some d1" "shape d1" "frame d1 = frame d"
    "node_ids d1 = node_ids d @ [state_id s]" "d_edges d1 = d_edges d"
    "d_subs d1 = (d_subs d)(state_id s := d_subs d (state_id s) + 1)"
    using push_node_grows [OF d(1,2) new] by blast
  have s: "s \<in> set sts" using assms(5) S by blast
  have len1: "length (d_nodes d1) = Suc ?i" using arg_cong [OF d1(4), of length] by simp
  have "unvisited sts d1 = unvisited sts d - {state_id s}" unfolding d1(4) by auto
  then have card1: "card (unvisited sts d1) < n"
    using card_Diff1_less [of "unvisited sts d" "state_id s"] card new s by (simp del: set_map)
  have inS: "y \<in> S" if "(t, r) \<in> set (ref_transitions s)" "getState (transition_target t) sts = Some y" for t r y
  proof -
    have "t \<in> set (getNextTransitions s)"
      using that(1) unfolding ref_transitions_fst [of s, symmetric] by force
    then have "(s, y) \<in> edges sts" using that(2) s by (auto simp: edges_def)
    then show ?thesis using S(1) assms(5) by (auto simp: closed_def)
  qed
  have "\<exists>d2. buildChildren tm n ?i (ref_transitions s) d1 = Some d2 \<and>
      grows sts S (\<lambda>k. if k = ?i then wanted sts (ref_transitions s) else []) d1 d2"
    using d frame_model [OF d1(3)] frame_instance [OF d1(3)] card1 len1
    by (intro buildChildren_grows [OF assms(1) wf inS d1(2)]) (auto simp: instance_ok_def)
  then obtain d2 where d2: "buildChildren tm n ?i (ref_transitions s) d1 = Some d2"
    and g: "grows sts S (\<lambda>k. if k = ?i then wanted sts (ref_transitions s) else []) d1 d2" by blast
  show ?thesis using d1(1) d2 grows_after_push [OF wf assms(5) s d(1) d1(3-6) g] by simp
qed

lemma visits_Suc:
  assumes "visits tm n sts S" and "wf_ids sts" and "closed sts S" and "S \<subseteq> set sts"
  shows "visits tm (Suc n) sts S"
  unfolding visits_def
proof (intro allI impI)
  fix s p d
  assume h: "s \<in> S \<and> shape d \<and> instance_ok d \<and> m_states (d_model d) = sts \<and> card (unvisited sts d) < Suc n"
  let ?lvl = "case p of None \<Rightarrow> 0 | Some i \<Rightarrow> nd_level (d_nodes d ! i) + 1"
  show "\<exists>j d'. buildNodeHierarchy tm (Suc n) s p d = Some (j, d') \<and> grows sts S (\<lambda>_. []) d d' \<and>
             j < length (d_nodes d') \<and> node_ids d' ! j = state_id s"
  proof (cases "state_id s \<in> set (node_ids d)")
    case True
    have "is_prim (state_id s)" using h assms(2,4) by (auto simp: wf_ids_def)
    with True h obtain i where i: "i < length (d_nodes d)" "existing_nodes (state_id s) d = [i]"
        "node_ids d ! i = state_id s"
      using existing_nodes_present [of d "state_id s"] by (auto simp: shape_def simp del: nth_map)
    have g: "grows sts S (\<lambda>_. []) d (raise_level i ?lvl d)" using h i by (intro raise_level_grows) auto
    show ?thesis
      using i g grows_length [OF g] grows_nth [OF g i(1)] by (auto simp: Let_def simp del: nth_map)
  next
    case False
    then have none: "existing_nodes (state_id s) d = []" by (rule existing_nodes_absent)
    from visits_new [OF assms, of s d ?lvl] h False obtain d2
      where "Option.bind (push_node tm s ?lvl d) (buildChildren tm n (length (d_nodes d)) (ref_transitions s)) = Some d2"
        and "grows sts S (\<lambda>_. []) d d2" and "length (d_nodes d) < length (d_nodes d2)"
        and "node_ids d2 ! length (d_nodes d) = state_id s" by blast
    then show ?thesis using none
      by (auto simp: Let_def simp del: nth_map split: Option.bind_splits)
  qed
qed

lemma visits_all: "wf_ids sts \<Longrightarrow> closed sts S \<Longrightarrow> S \<subseteq> set sts \<Longrightarrow> visits tm n sts S"
  by (induction n) (simp_all add: visits_Suc, simp add: visits_def)

subsection \<open>The diagram of a workflow\<close>

text \<open>\<open>refreshUI\<close> empties the arrays before it calls \<open>buildNodeHierarchy\<close> on the root state.\<close>

definition clear_arrays :: "diagram \<Rightarrow> diagram" where
  "clear_arrays d = d\<lparr>d_nodes := [], d_edges := [], d_labels := [], d_anchors := [], d_zones := [],
     d_tokens := []\<rparr>"

lemma clear_arrays_shape: "shape (clear_arrays d)"
  by (simp add: shape_def clear_arrays_def)

lemma diagram_built:
  assumes wf: "wf_ids (m_states (d_model d))" and rs: "rs \<in> set (m_states (d_model d))"
    and inst: "instance_ok d" and n: "length (m_states (d_model d)) < n"
  obtains d' where "buildNodeHierarchy tm n rs None (clear_arrays d) = Some (0, d')"
    and "grows (m_states (d_model d)) (reaches (m_states (d_model d)) rs) (\<lambda>_. []) (clear_arrays d) d'"
    and "node_ids d' ! 0 = state_id rs" and "0 < length (d_nodes d')"
proof -
  let ?sts = "m_states (d_model d)" and ?d = "clear_arrays d"
  have sub: "reaches ?sts rs \<subseteq> set ?sts"
  proof
    fix x assume "x \<in> reaches ?sts rs"
    then have "(rs, x) \<in> (edges ?sts)\<^sup>*" by (simp add: reaches_def)
    then show "x \<in> set ?sts" using rs edges_iff [OF wf] by (induction) auto
  qed
  have "card (unvisited ?sts ?d) \<le> card (set (map state_id ?sts))" by (simp add: clear_arrays_def)
  also have "\<dots> \<le> length ?sts" by (metis card_length length_map)
  finally have card: "card (unvisited ?sts ?d) < n" using n by simp
  have "visits tm n ?sts (reaches ?sts rs)"
    using visits_all [OF wf closed_reaches sub] .
  moreover have "rs \<in> reaches ?sts rs" by (simp add: reaches_def)
  moreover have "instance_ok ?d" "m_states (d_model ?d) = ?sts"
    using inst by (simp_all add: instance_ok_def clear_arrays_def)
  ultimately obtain j d' where d': "buildNodeHierarchy tm n rs None ?d = Some (j, d')"
      "grows ?sts (reaches ?sts rs) (\<lambda>_. []) ?d d'" "j < length (d_nodes d')" "node_ids d' ! j = state_id rs"
    using clear_arrays_shape [of d] card unfolding visits_def by blast
  have "j = 0" using d'(1) n
    by (cases n) (auto simp: Let_def existing_nodes_def clear_arrays_def split: Option.bind_splits)
  then show ?thesis using d' that by auto
qed

text \<open>A node's transitions to existing states lead to nodes, so the nodes are closed under successors.\<close>

lemma grows_closed:
  assumes g: "grows sts S (\<lambda>_. []) (clear_arrays d) d'" and wf: "wf_ids sts"
    and x: "x \<in> set sts" "state_id x \<in> set (node_ids d')" and e: "(x, y) \<in> edges sts"
  shows "state_id y \<in> set (node_ids d')"
proof -
  obtain i where i: "i < length (d_nodes d')" "node_ids d' ! i = state_id x"
    using x(2) by (auto simp: in_set_conv_nth simp del: nth_map set_map)
  then have out: "out_edges d' i = wanted sts (ref_transitions x)"
    using g x(1) by (simp add: grows_def clear_arrays_def)
  obtain t where t: "t \<in> set (getNextTransitions x)" "getState (transition_target t) sts = Some y"
    using e by (auto simp: edges_def)
  then obtain r where "(t, r) \<in> set (ref_transitions x)"
    unfolding ref_transitions_fst [of x, symmetric] by force
  then have "(t, r, state_id y) \<in> set (wanted sts (ref_transitions x))"
    using t(2) getState_Some_iff [OF wf] by (force simp: wanted_def)
  then obtain ed where "ed \<in> set (d_edges d')" "node_ids d' ! eg_to ed = state_id y"
    unfolding out [symmetric] out_edges_def by auto
  moreover have "eg_to ed < length (node_ids d')" using g calculation(1) by (auto simp: grows_def shape_def)
  ultimately show ?thesis by (metis nth_mem)
qed

lemma diagram_spec:
  assumes "wf_ids (m_states (d_model d))" and "rs \<in> set (m_states (d_model d))"
    and "instance_ok d" and "length (m_states (d_model d)) < n"
  obtains d' where "buildNodeHierarchy tm n rs None (clear_arrays d) = Some (0, d')"
    and "grows (m_states (d_model d)) (reaches (m_states (d_model d)) rs) (\<lambda>_. []) (clear_arrays d) d'"
    and "node_ids d' ! 0 = state_id rs" and "0 < length (d_nodes d')"
    and "set (node_ids d') = state_id ` reaches (m_states (d_model d)) rs"
proof -
  let ?sts = "m_states (d_model d)"
  obtain d' where d': "buildNodeHierarchy tm n rs None (clear_arrays d) = Some (0, d')"
      "grows ?sts (reaches ?sts rs) (\<lambda>_. []) (clear_arrays d) d'"
      "node_ids d' ! 0 = state_id rs" "0 < length (d_nodes d')"
    using diagram_built [OF assms] by blast
  have "state_id x \<in> set (node_ids d')" if "(rs, x) \<in> (edges ?sts)\<^sup>*" for x
    using that
  proof induction
    case base
    show ?case using d'(3,4) by (metis length_map nth_mem)
  next
    case (step y z)
    then show ?case using grows_closed [OF d'(2) assms(1), of y z] edges_iff [OF assms(1)] by auto
  qed
  then have "state_id ` reaches ?sts rs \<subseteq> set (node_ids d')" by (auto simp: reaches_def simp del: set_map)
  moreover have "set (node_ids d') \<subseteq> state_id ` reaches ?sts rs"
    using grows_ids [OF d'(2)] by (simp add: clear_arrays_def)
  ultimately show ?thesis using d' by (intro that [of d']) auto
qed

text \<open>
  C7. Building the diagram of a workflow with distinct ids always ends, cycles included, with a call
  stack no deeper than the number of states plus one, and gives one node per state that is reachable
  from the root state, the root's node first.
\<close>

theorem diagram_nodes_exact:
  assumes "wf_ids (m_states (d_model d))" and "rs \<in> set (m_states (d_model d))"
    and "instance_ok d" and "length (m_states (d_model d)) < n"
  shows "\<exists>d'. buildNodeHierarchy tm n rs None (clear_arrays d) = Some (0, d') \<and>
    d_model d' = d_model d \<and> distinct (node_ids d') \<and> node_ids d' ! 0 = state_id rs \<and>
    set (node_ids d') = state_id ` reaches (m_states (d_model d)) rs"
proof -
  let ?sts = "m_states (d_model d)"
  obtain d' where d': "buildNodeHierarchy tm n rs None (clear_arrays d) = Some (0, d')"
      "grows ?sts (reaches ?sts rs) (\<lambda>_. []) (clear_arrays d) d'"
      "node_ids d' ! 0 = state_id rs" "set (node_ids d') = state_id ` reaches ?sts rs"
    using diagram_spec [OF assms] by metis
  then have "d_model d' = d_model d" "distinct (node_ids d')"
    using frame_model [of d' "clear_arrays d"] by (simp_all add: grows_def shape_def clear_arrays_def)
  then show ?thesis using d' by blast
qed

text \<open>
  C8. The edges that leave a node of the finished diagram are, in order and without omission, the
  transitions of its state whose target exists, each ending at the node of its target; every node
  has its anchor and its drop zone, every labelled edge its label, and the component subscribed once
  more to the event emitter of exactly the displayed states.
\<close>

theorem diagram_edges_exact:
  assumes "wf_ids (m_states (d_model d))" and "rs \<in> set (m_states (d_model d))"
    and "instance_ok d" and "length (m_states (d_model d)) < n"
  shows "\<exists>d'. buildNodeHierarchy tm n rs None (clear_arrays d) = Some (0, d') \<and> shape d' \<and>
    (\<forall>i < length (d_nodes d'). \<forall>s \<in> set (m_states (d_model d)). state_id s = node_ids d' ! i \<longrightarrow>
       out_edges d' i = wanted (m_states (d_model d)) (ref_transitions s)) \<and>
    (\<forall>k. d_subs d' k = d_subs d k + (if k \<in> set (node_ids d') then 1 else 0))"
proof -
  let ?sts = "m_states (d_model d)"
  obtain d' where d': "buildNodeHierarchy tm n rs None (clear_arrays d) = Some (0, d')"
      "grows ?sts (reaches ?sts rs) (\<lambda>_. []) (clear_arrays d) d'"
    using diagram_built [OF assms] by blast
  have "d_subs d' k = d_subs d k + count_list (node_ids d') k" for k
    using d'(2) by (auto simp: grows_def clear_arrays_def)
  moreover have "distinct xs \<Longrightarrow> count_list xs k = (if k \<in> set xs then 1 else 0)" for xs and k :: js
    by (induction xs) auto
  moreover have "shape d'" using d'(2) by (simp add: grows_def)
  ultimately show ?thesis using d' by (auto simp: grows_def clear_arrays_def shape_def)
qed

section \<open>Examples\<close>

text \<open>A new component.\<close>

definition new_StateDiagram :: diagram where
  "new_StateDiagram = \<lparr>d_model = new_StateMachineModel, d_instance = [], d_options = new_DiagramOptions,
     d_svgWidth = None, d_circleStart = (0, 0), d_circleStartSelected = False,
     d_edgePathCircleStart = None, d_viewBox = (0, 0, 1, 1), d_isMoving = False, d_isResizing = False,
     d_startMoving = False, d_previousMouse = (0, 0), d_nodes = [], d_edges = [], d_labels = [],
     d_anchors = [], d_zones = [], d_tokens = [], d_selectedState = None, d_selectedTransition = None,
     d_subs = (\<lambda>_. 0)\<rparr>"

definition diagram_for :: "string \<Rightarrow> sm_state list \<Rightarrow> diagram" where
  "diagram_for r sts = new_StateDiagram\<lparr>d_svgWidth := Some 1000,
     d_model := new_StateMachineModel\<lparr>m_id := JStr ''m'', m_states := sts,
       m_start := Some \<lparr>sta_stateName = JStr r, sta_schedule = Undef\<rparr>\<rparr>\<rparr>"

lemma diagram_for_simps [simp]:
  "m_states (d_model (diagram_for r sts)) = sts" "instance_ok (diagram_for r sts)"
  "d_subs (diagram_for r sts) k = 0" "d_nodes (diagram_for r sts) = []"
  by (simp_all add: diagram_for_def instance_ok_def new_StateDiagram_def)

text \<open>A cycle of two states and a state that cannot be reached.\<close>

definition example_cycle :: "sm_state list" where
  "example_cycle = [flow_to ''a'' ''b'', flow_to ''c'' ''a'', flow_to ''b'' ''a'']"

lemma example_cycle_wf: "wf_ids example_cycle" "flow_to ''a'' ''b'' \<in> set example_cycle" "length example_cycle < 4"
  by (simp_all add: example_cycle_def wf_ids_def)

theorem diagram_nodes_exact_witness:
  "\<exists>d'. buildNodeHierarchy (\<lambda>_. 0) 4 (flow_to ''a'' ''b'') None (clear_arrays (diagram_for ''a'' example_cycle)) = Some (0, d') \<and>
    distinct (node_ids d') \<and> node_ids d' ! 0 = JStr ''a''"
  using diagram_nodes_exact [of "diagram_for ''a'' example_cycle" "flow_to ''a'' ''b''" 4 "\<lambda>_. 0"] example_cycle_wf
  by auto

theorem diagram_edges_exact_witness:
  "\<exists>d'. buildNodeHierarchy (\<lambda>_. 0) 4 (flow_to ''a'' ''b'') None (clear_arrays (diagram_for ''a'' example_cycle)) = Some (0, d') \<and>
    shape d' \<and> d_subs d' (JStr ''z'') \<le> 1"
proof -
  obtain d' where
    "buildNodeHierarchy (\<lambda>_. 0) 4 (flow_to ''a'' ''b'') None (clear_arrays (diagram_for ''a'' example_cycle)) = Some (0, d')"
    and "shape d'" and subs: "\<forall>k. d_subs d' k = 0 + (if k \<in> set (node_ids d') then 1 else 0)"
    using diagram_edges_exact [of "diagram_for ''a'' example_cycle" "flow_to ''a'' ''b''" 4 "\<lambda>_. 0"] example_cycle_wf
      diagram_for_simps(2) [of "''a''" example_cycle]
    unfolding diagram_for_simps(1,3) by blast
  moreover have "d_subs d' (JStr ''z'') \<le> 1" using subs by simp
  ultimately show ?thesis by blast
qed

text \<open>A workflow where a state has two predecessors, at different depths.\<close>

definition branch_to :: "string \<Rightarrow> string \<Rightarrow> string \<Rightarrow> sm_state" where
  "branch_to i a b = Switch (new_SwitchState\<lparr>st_id := JStr i, sw_datas :=
     [new_DataCondition\<lparr>dc_transition := JStr a\<rparr>, new_DataCondition\<lparr>dc_transition := JStr b\<rparr>]\<rparr>)"

definition example_dag :: "sm_state list" where
  "example_dag = [branch_to ''r'' ''a'' ''b'', flow_to ''a'' ''x'', flow_to ''b'' ''c'', flow_to ''c'' ''a'',
     flow_to ''x'' '''']"

text \<open>
  The depth of a node is the greatest over the paths that lead to it, but raising it does not
  move the states that were placed below it before: on a workflow where the second branch to a
  state is longer than the first, an edge of the diagram points upwards.
\<close>

theorem descendants_not_lowered:
  "map_option (\<lambda>(i, d). map (\<lambda>n. (nd_state n, nd_level n)) (d_nodes d))
     (buildNodeHierarchy (\<lambda>_. 0) 6 (branch_to ''r'' ''a'' ''b'') None (clear_arrays (diagram_for ''r'' example_dag))) =
   Some [(JStr ''r'', 0), (JStr ''a'', 3), (JStr ''x'', 2), (JStr ''b'', 1), (JStr ''c'', 2)]"
  by code_simp

end
