(* ===== verification/Diagram_Layout.thy ===== *)
theory Diagram_Layout
  imports Diagram_Build
begin

text \<open>
  Positions of the nodes, edges, labels, anchors, drop zones and tokens of the state diagram:
  \<open>updateNodePosition\<close>, \<open>updateStartAndEndEdgePath\<close> and the methods \<open>computePosition\<close> they call.
\<close>

section \<open>Positions\<close>

definition node_computePosition :: "nat \<Rightarrow> nat \<Rightarrow> rat \<Rightarrow> rat \<Rightarrow> rat \<Rightarrow> rat \<Rightarrow> node \<Rightarrow> node" where
  "node_computePosition position nbNodes nodeGap nodeWidth nodeHeigth fullWidth n =
     (let middle = fullWidth / 2;
          nbHalfNodes = nbNodes div 2;
          fullNodeWidth = nodeWidth + nodeGap
      in n\<lparr>nd_x := (if nbNodes = 1 then middle - nodeWidth / 2
                     else (middle - fullNodeWidth * of_nat nbHalfNodes) + fullNodeWidth * of_nat position - nodeWidth / 2),
           nd_y := of_nat (nd_level n) * (nodeHeigth + nodeGap) + nodeGap\<rparr>)"

fun getDisplayName :: "string \<Rightarrow> string option" where
  "getDisplayName ty =
     (if ty = ''INPUT'' then Some ''Input''
      else if ty = ''OUTPUT'' then Some ''Output''
      else if ty = ''ERROR'' then Some ''Error'' else None)"

definition token_computePosition :: "node list \<Rightarrow> rat \<Rightarrow> rat \<Rightarrow> rat \<Rightarrow> token \<Rightarrow> token" where
  "token_computePosition ns tokenWidth tokenHeight nodeHeight t =
     (let n = ns ! tk_node t;
          t1 = (if tk_type t = ''INPUT'' \<or> tk_type t = ''OUTPUT'' then t\<lparr>tk_posX := nd_x n - tokenWidth / 2\<rparr> else t);
          t2 = (if tk_type t = ''ERROR'' then t1\<lparr>tk_posX := nd_x n + tokenWidth\<rparr> else t1)
      in t2\<lparr>tk_posY := nd_y n + (if tk_type t = ''INPUT'' then 0 else nodeHeight - tokenHeight / 2)\<rparr>)"

definition edge_computePosition :: "node list \<Rightarrow> rat \<Rightarrow> rat \<Rightarrow> edge \<Rightarrow> edge" where
  "edge_computePosition ns nodeWidth nodeHeight e =
     (let f = ns ! eg_from e; t = ns ! eg_to e;
          fx = nd_x f + nodeWidth / 2; fy = nd_y f + nodeHeight;
          tx = nd_x t + nodeWidth / 2; ty = nd_y t
      in e\<lparr>eg_fromX := fx, eg_fromY := fy, eg_toX := tx, eg_toY := ty, eg_path := Some ((fx, fy), (tx, ty))\<rparr>)"

text \<open>\<open>isDefault\<close> and \<open>getMarkerEnd\<close>; the node's state is looked up by its id.\<close>

definition edge_isDefault :: "diagram \<Rightarrow> edge \<Rightarrow> bool" where
  "edge_isDefault d e \<longleftrightarrow> getType (eg_transition e) = ''empty'' \<and>
     (case getState (nd_state (d_nodes d ! eg_from e)) (m_states (d_model d)) of
        Some (Switch _) \<Rightarrow> True | _ \<Rightarrow> False)"

definition getMarkerEnd :: "diagram \<Rightarrow> edge \<Rightarrow> string" where
  "getMarkerEnd d e =
     ''url(#'' @ (if edge_isDefault d e then ''statediagram-barbEndDefault'' else ''statediagram-barbEnd'') @ '')''"

definition label_computePosition :: "edge list \<Rightarrow> edge_label \<Rightarrow> edge_label" where
  "label_computePosition es l =
     (let e = es ! el_edge l;
          w0 = eg_fromX e - eg_toX e;
          edgePathHeight = eg_toY e - eg_fromY e;
          edgePathWidth = (if w0 < 0 then - w0 else w0);
          width = (if el_width l = 0 then 100 else el_width l);
          height = (if el_height l = 0 then 30 else el_height l);
          fromX = (if eg_fromX e > eg_toX e then eg_toX e else eg_fromX e)
      in l\<lparr>el_width := width, el_height := height,
           el_posX := fromX + edgePathWidth / 2 - width / 2,
           el_posY := eg_fromY e + edgePathHeight / 2 - height / 2\<rparr>)"

definition anchor_computePosition :: "node list \<Rightarrow> rat \<Rightarrow> rat \<Rightarrow> anchor \<Rightarrow> anchor" where
  "anchor_computePosition ns nodeWidth nodeHeight a =
     (let n = ns ! an_node a in a\<lparr>an_x := nd_x n + nodeWidth / 2, an_y := nd_y n + nodeHeight\<rparr>)"

definition zone_computPosition :: "node list \<Rightarrow> rat \<Rightarrow> rat \<Rightarrow> rat \<Rightarrow> rat \<Rightarrow> zone \<Rightarrow> zone" where
  "zone_computPosition ns nodeWidth nodeHeight nodeGap draggableZoneWidth z =
     (let n = ns ! dz_node z
      in z\<lparr>dz_x := nd_x n + nodeWidth / 2 - draggableZoneWidth / 2, dz_y := nd_y n + nodeHeight,
           dz_width := draggableZoneWidth, dz_height := nodeGap\<rparr>)"

text \<open>
  \<open>groupBy(xs, key)\<close> on a key that is a natural number: an object whose keys are visited in
  ascending order by \<open>for (var key in ...)\<close>; each value is the list of the elements, here their
  indices, in order.
\<close>

fun group_push :: "nat \<Rightarrow> nat \<Rightarrow> (nat \<times> nat list) list \<Rightarrow> (nat \<times> nat list) list" where
  "group_push k i [] = [(k, [i])]"
| "group_push k i ((k', is) # gs) =
     (if k < k' then (k, [i]) # (k', is) # gs
      else if k = k' then (k', is @ [i]) # gs else (k', is) # group_push k i gs)"

definition groupBy :: "(nat \<Rightarrow> nat) \<Rightarrow> nat list \<Rightarrow> (nat \<times> nat list) list" where
  "groupBy key xs = foldl (\<lambda>rv x. group_push (key x) x rv) [] xs"

text \<open>The inner loop over one group, and the loop over the groups.\<close>

fun place_group :: "diagram_options \<Rightarrow> rat \<Rightarrow> nat \<Rightarrow> nat \<Rightarrow> nat list \<Rightarrow> node list \<Rightarrow> node list" where
  "place_group opt w index nbNodes [] ns = ns"
| "place_group opt w index nbNodes (i # is) ns =
     place_group opt w (index + 1) nbNodes is
       (ns[i := node_computePosition index nbNodes (o_nodeGap opt) (o_nodeWidth opt) (o_nodeHeight opt) w (ns ! i)])"

fun place_groups :: "diagram_options \<Rightarrow> rat \<Rightarrow> (nat \<times> nat list) list \<Rightarrow> node list \<Rightarrow> node list" where
  "place_groups opt w [] ns = ns"
| "place_groups opt w ((k, is) # gs) ns = place_groups opt w gs (place_group opt w 0 (length is) is ns)"

definition svg_width :: "diagram \<Rightarrow> rat" where
  "svg_width d = (case d_svgWidth d of None \<Rightarrow> 0 | Some w \<Rightarrow> w)"

definition updateNodePosition :: "diagram \<Rightarrow> diagram" where
  "updateNodePosition d =
     (let totalWidth = svg_width d; opt = d_options d
      in if totalWidth = 0 then d
         else let ns = place_groups opt totalWidth
                         (groupBy (\<lambda>i. nd_level (d_nodes d ! i)) [0..<length (d_nodes d)]) (d_nodes d);
                  es = map (edge_computePosition ns (o_nodeWidth opt) (o_nodeHeight opt)) (d_edges d)
              in d\<lparr>d_nodes := ns, d_edges := es,
                   d_labels := map (label_computePosition es) (d_labels d),
                   d_anchors := map (anchor_computePosition ns (o_nodeWidth opt) (o_nodeHeight opt)) (d_anchors d),
                   d_zones := map (zone_computPosition ns (o_nodeWidth opt) (o_nodeHeight opt) (o_nodeGap opt)
                                     (o_draggableZoneWidth opt)) (d_zones d),
                   d_tokens := map (token_computePosition ns (o_tokenWidth opt) (o_tokenHeight opt)
                                     (o_nodeHeight opt)) (d_tokens d)\<rparr>)"

definition updateStartAndEndEdgePath :: "diagram \<Rightarrow> diagram" where
  "updateStartAndEndEdgePath d =
     (case d_nodes d of
        [] \<Rightarrow> d
      | n # _ \<Rightarrow> d\<lparr>d_edgePathCircleStart :=
          Some (d_circleStart d, (nd_x n + o_nodeWidth (d_options d) / 2, nd_y n))\<rparr>)"

definition computeCirclePosition :: "diagram \<Rightarrow> rat" where
  "computeCirclePosition d = (if svg_width d = 0 then 0 else svg_width d / 2)"

section \<open>Grouping by level\<close>

lemma fst_group_push: "fst ` set (group_push k i gs) = insert k (fst ` set gs)"
  by (induction k i gs rule: group_push.induct) auto

lemma sorted_group_push: "sorted_wrt (<) (map fst gs) \<Longrightarrow> sorted_wrt (<) (map fst (group_push k i gs))"
proof (induction k i gs rule: group_push.induct)
  case (2 k i k' js gs)
  then show ?case using fst_group_push [of k i gs] by (auto simp: image_iff)
qed simp

lemma map_of_group_push:
  "sorted_wrt (<) (map fst gs) \<Longrightarrow> map_of (group_push k i gs) k' =
     (if k' = k then Some (case map_of gs k of None \<Rightarrow> [i] | Some js \<Rightarrow> js @ [i]) else map_of gs k')"
proof (induction k i gs rule: group_push.induct)
  case (2 k i k0 js gs)
  have "k < k0 \<Longrightarrow> map_of gs k = None"
    using "2.prems" by (auto simp: map_of_eq_None_iff image_iff)
  with 2 show ?case by (auto split: option.split)
qed simp

lemma groupBy_snoc: "groupBy key (xs @ [x]) = group_push (key x) x (groupBy key xs)"
  by (simp add: groupBy_def)

lemma sorted_groupBy: "sorted_wrt (<) (map fst (groupBy key xs))"
proof (induction xs rule: rev_induct)
  case (snoc x xs)
  then show ?case by (simp only: groupBy_snoc sorted_group_push)
qed (simp add: groupBy_def)

lemma map_of_groupBy:
  "map_of (groupBy key xs) k =
     (let is = filter (\<lambda>x. key x = k) xs in if is = [] then None else Some is)"
proof (induction xs rule: rev_induct)
  case (snoc x xs)
  then show ?case
    by (auto simp: groupBy_snoc map_of_group_push [OF sorted_groupBy] Let_def split: option.split if_splits)
qed (simp add: groupBy_def)

lemma groupBy_member:
  "(k, is) \<in> set (groupBy key xs) \<longleftrightarrow> is = filter (\<lambda>x. key x = k) xs \<and> is \<noteq> []"
proof -
  have "distinct (map fst (groupBy key xs))" using sorted_groupBy strict_sorted_iff by blast
  then have "(k, is) \<in> set (groupBy key xs) \<longleftrightarrow> map_of (groupBy key xs) k = Some is" by simp
  then show ?thesis by (auto simp: map_of_groupBy Let_def)
qed

section \<open>Placing the nodes\<close>

lemma length_place_group [simp]: "length (place_group opt w p nb is ns) = length ns"
  by (induction opt w p nb "is" ns rule: place_group.induct) simp_all

lemma place_group_other [simp]: "j \<notin> set is \<Longrightarrow> place_group opt w p nb is ns ! j = ns ! j"
  by (induction opt w p nb "is" ns rule: place_group.induct) auto

lemma place_group_nth:
  "distinct is \<Longrightarrow> set is \<subseteq> {..<length ns} \<Longrightarrow> q < length is \<Longrightarrow>
   place_group opt w p nb is ns ! (is ! q) =
     node_computePosition (p + q) nb (o_nodeGap opt) (o_nodeWidth opt) (o_nodeHeight opt) w (ns ! (is ! q))"
proof (induction opt w p nb "is" ns arbitrary: q rule: place_group.induct)
  case (2 opt w p nb i "is" ns)
  show ?case
  proof (cases q)
    case 0
    then show ?thesis using 2 by simp
  next
    case (Suc q')
    have "place_group opt w (p + 1) nb is (ns[i := node_computePosition p nb (o_nodeGap opt) (o_nodeWidth opt) (o_nodeHeight opt) w (ns ! i)]) ! (is ! q') =
      node_computePosition (p + 1 + q') nb (o_nodeGap opt) (o_nodeWidth opt) (o_nodeHeight opt) w
        (ns[i := node_computePosition p nb (o_nodeGap opt) (o_nodeWidth opt) (o_nodeHeight opt) w (ns ! i)] ! (is ! q'))"
      using 2 Suc by (intro "2.IH") auto
    moreover have "is ! q' \<noteq> i" using 2(2,4) Suc by auto
    ultimately show ?thesis using Suc by simp
  qed
qed simp

lemma length_place_groups [simp]: "length (place_groups opt w gs ns) = length ns"
  by (induction opt w gs ns rule: place_groups.induct) simp_all

lemma place_groups_other: "\<forall>(k, is) \<in> set gs. j \<notin> set is \<Longrightarrow> place_groups opt w gs ns ! j = ns ! j"
  by (induction opt w gs ns rule: place_groups.induct) auto

lemma place_groups_nth:
  assumes "distinct (map fst gs)"
    and "\<forall>(k, is) \<in> set gs. distinct is \<and> set is \<subseteq> {..<length ns} \<and> (\<forall>x \<in> set is. key x = k)"
    and "(k, is) \<in> set gs" and "q < length is"
  shows "place_groups opt w gs ns ! (is ! q) =
     node_computePosition q (length is) (o_nodeGap opt) (o_nodeWidth opt) (o_nodeHeight opt) w (ns ! (is ! q))"
  using assms
proof (induction opt w gs ns rule: place_groups.induct)
  case (2 opt w k0 is0 gs ns)
  show ?case
  proof (cases "(k, is) = (k0, is0)")
    case True
    have "\<forall>(k', is') \<in> set gs. is ! q \<notin> set is'"
      using 2(2,3,5) True by (fastforce simp: image_iff)
    then have "place_groups opt w gs (place_group opt w 0 (length is) is ns) ! (is ! q) =
        place_group opt w 0 (length is) is ns ! (is ! q)"
      by (rule place_groups_other)
    then show ?thesis using True 2(3,5) place_group_nth [of "is" ns q opt w 0 "length is"] by auto
  next
    case False
    then have m: "(k, is) \<in> set gs" using 2(4) by auto
    have "key (is ! q) = k" using 2(3,5) m by fastforce
    then have "is ! q \<notin> set is0" using 2(2,3) m by (fastforce simp: image_iff)
    then show ?thesis using 2 m by auto
  qed
qed simp

text \<open>The index of a node among the nodes of its level, and their number.\<close>

definition level_nodes :: "diagram \<Rightarrow> nat \<Rightarrow> nat list" where
  "level_nodes d k = filter (\<lambda>i. nd_level (d_nodes d ! i) = k) [0..<length (d_nodes d)]"

lemma updateNodePosition_node:
  assumes "svg_width d \<noteq> 0" and "i < length (d_nodes d)"
  obtains q where "q < length (level_nodes d (nd_level (d_nodes d ! i)))"
    and "level_nodes d (nd_level (d_nodes d ! i)) ! q = i"
    and "d_nodes (updateNodePosition d) ! i =
      node_computePosition q (length (level_nodes d (nd_level (d_nodes d ! i)))) (o_nodeGap (d_options d))
        (o_nodeWidth (d_options d)) (o_nodeHeight (d_options d)) (svg_width d) (d_nodes d ! i)"
proof -
  let ?key = "\<lambda>i. nd_level (d_nodes d ! i)" and ?is = "level_nodes d (nd_level (d_nodes d ! i))"
  let ?gs = "groupBy ?key [0..<length (d_nodes d)]"
  have "i \<in> set ?is" using assms(2) by (simp add: level_nodes_def)
  then obtain q where q: "q < length ?is" "?is ! q = i" by (auto simp: in_set_conv_nth)
  have "place_groups (d_options d) (svg_width d) ?gs (d_nodes d) ! (?is ! q) =
      node_computePosition q (length ?is) (o_nodeGap (d_options d)) (o_nodeWidth (d_options d))
        (o_nodeHeight (d_options d)) (svg_width d) (d_nodes d ! (?is ! q))"
  proof (rule place_groups_nth [where key = ?key])
    show "distinct (map fst ?gs)" using sorted_groupBy strict_sorted_iff by blast
    show "\<forall>(k, is) \<in> set ?gs. distinct is \<and> set is \<subseteq> {..<length (d_nodes d)} \<and> (\<forall>x \<in> set is. ?key x = k)"
      by (auto simp: groupBy_member)
    show "(?key i, ?is) \<in> set ?gs" using q(1) by (auto simp: groupBy_member level_nodes_def)
  qed (rule q(1))
  then show ?thesis using that q assms(1) by (simp add: updateNodePosition_def Let_def)
qed

text \<open>The horizontal distance of two nodes of a level with at least two nodes.\<close>

lemma computePosition_x_diff:
  "nb \<noteq> 1 \<Longrightarrow> nd_x (node_computePosition p nb g w h fw n) - nd_x (node_computePosition q nb g w h fw m) =
     (w + g) * (of_nat p - of_nat q)"
  by (simp add: node_computePosition_def Let_def algebra_simps)

lemma computePosition_y_diff:
  "nd_y (node_computePosition p nb g w h fw n) - nd_y (node_computePosition q nb' g w h fw m) =
     (h + g) * (of_nat (nd_level n) - of_nat (nd_level m))"
  by (simp add: node_computePosition_def Let_def algebra_simps)

lemma step_ge:
  fixes c :: rat assumes "0 \<le> c" and "p \<noteq> (q :: nat)" shows "c \<le> \<bar>c * (of_nat p - of_nat q)\<bar>"
proof -
  have "(1 :: rat) \<le> \<bar>of_nat p - of_nat q\<bar>" using assms(2) by (cases "p < q") (auto simp: of_nat_diff)
  then have "c * 1 \<le> c * \<bar>of_nat p - of_nat q\<bar>" using assms(1) by (intro mult_left_mono)
  then show ?thesis using assms(1) by (simp add: abs_mult)
qed

text \<open>
  C12. Once the page has a width, no two boxes of the diagram overlap: two different nodes are at
  least a node width and a gap apart horizontally, or at least a node height and a gap vertically.
\<close>

theorem nodes_do_not_overlap:
  assumes "svg_width d \<noteq> 0" and "i < length (d_nodes d)" and "j < length (d_nodes d)" and "i \<noteq> j"
    and "0 \<le> o_nodeWidth (d_options d) + o_nodeGap (d_options d)"
    and "0 \<le> o_nodeHeight (d_options d) + o_nodeGap (d_options d)"
  shows "o_nodeWidth (d_options d) + o_nodeGap (d_options d) \<le>
           \<bar>nd_x (d_nodes (updateNodePosition d) ! i) - nd_x (d_nodes (updateNodePosition d) ! j)\<bar> \<or>
         o_nodeHeight (d_options d) + o_nodeGap (d_options d) \<le>
           \<bar>nd_y (d_nodes (updateNodePosition d) ! i) - nd_y (d_nodes (updateNodePosition d) ! j)\<bar>"
proof -
  obtain p where p: "p < length (level_nodes d (nd_level (d_nodes d ! i)))"
      "level_nodes d (nd_level (d_nodes d ! i)) ! p = i"
      "d_nodes (updateNodePosition d) ! i = node_computePosition p (length (level_nodes d (nd_level (d_nodes d ! i))))
        (o_nodeGap (d_options d)) (o_nodeWidth (d_options d)) (o_nodeHeight (d_options d)) (svg_width d) (d_nodes d ! i)"
    using updateNodePosition_node [OF assms(1,2)] by blast
  obtain q where q: "q < length (level_nodes d (nd_level (d_nodes d ! j)))"
      "level_nodes d (nd_level (d_nodes d ! j)) ! q = j"
      "d_nodes (updateNodePosition d) ! j = node_computePosition q (length (level_nodes d (nd_level (d_nodes d ! j))))
        (o_nodeGap (d_options d)) (o_nodeWidth (d_options d)) (o_nodeHeight (d_options d)) (svg_width d) (d_nodes d ! j)"
    using updateNodePosition_node [OF assms(1,3)] by blast
  show ?thesis
  proof (cases "nd_level (d_nodes d ! i) = nd_level (d_nodes d ! j)")
    case True
    then have "p \<noteq> q" using p(2) q(2) assms(4) by auto
    then have "length (level_nodes d (nd_level (d_nodes d ! i))) \<noteq> 1" using p(1) q(1) True by auto
    then show ?thesis using step_ge [OF assms(5) \<open>p \<noteq> q\<close>]
      unfolding p(3) q(3) True by (simp add: computePosition_x_diff del: One_nat_def)
  next
    case False
    show ?thesis using step_ge [OF assms(6) False] unfolding p(3) q(3) computePosition_y_diff by simp
  qed
qed

text \<open>
  C13. If the page is wide enough for the widest level, with one more place where the number of nodes
  of the level is even, every box of the level lies within the width of the page, and every box lies
  below the upper margin, at the height of its level.
\<close>

theorem nodes_stay_in_page:
  assumes "svg_width d \<noteq> 0" and "i < length (d_nodes d)"
    and "0 \<le> o_nodeWidth (d_options d)" and "0 \<le> o_nodeGap (d_options d)" and "0 \<le> o_nodeHeight (d_options d)"
  defines "w \<equiv> o_nodeWidth (d_options d)" and "g \<equiv> o_nodeGap (d_options d)" and "n \<equiv> d_nodes (updateNodePosition d) ! i"
    and "k \<equiv> length (level_nodes d (nd_level (d_nodes d ! i)))"
  assumes room: "of_nat (2 * (k div 2)) * (w + g) + w \<le> svg_width d"
  shows "0 \<le> nd_x n \<and> nd_x n + w \<le> svg_width d \<and> g \<le> nd_y n \<and>
    nd_y n = of_nat (nd_level (d_nodes d ! i)) * (o_nodeHeight (d_options d) + g) + g"
proof -
  obtain q where q: "q < k" "n = node_computePosition q k g w (o_nodeHeight (d_options d)) (svg_width d) (d_nodes d ! i)"
    unfolding k_def n_def g_def w_def using updateNodePosition_node [OF assms(1,2)] by blast
  let ?F = "w + g" and ?h = "of_nat (k div 2) :: rat" and ?W = "svg_width d"
  have F: "0 \<le> ?F" "0 \<le> w" using assms(3,4) by (simp_all add: w_def g_def)
  have r: "2 * (?F * ?h) + w \<le> ?W" using room by (simp add: algebra_simps)
  have "0 \<le> ?F * ?h" "0 \<le> ?F * of_nat q" using F by simp_all
  moreover have "q \<le> 2 * (k div 2)" using q(1) by linarith
  then have "of_nat q \<le> 2 * ?h" by (metis of_nat_le_iff of_nat_mult of_nat_numeral)
  then have "?F * of_nat q \<le> ?F * (2 * ?h)" using F by (intro mult_left_mono)
  ultimately have x: "0 \<le> nd_x n \<and> nd_x n + w \<le> ?W"
    using r F unfolding q(2) by (simp add: node_computePosition_def Let_def algebra_simps split: if_splits)
  have y: "nd_y n = of_nat (nd_level (d_nodes d ! i)) * (o_nodeHeight (d_options d) + g) + g"
    unfolding q(2) by (simp add: node_computePosition_def Let_def)
  have "0 \<le> of_nat (nd_level (d_nodes d ! i)) * (o_nodeHeight (d_options d) + g)" using assms(4,5) by (simp add: g_def)
  with x y show ?thesis by simp
qed


section \<open>Examples\<close>

definition example_node :: "string \<Rightarrow> nat \<Rightarrow> node" where
  "example_node k l = \<lparr>nd_x = 0, nd_y = 0, nd_level = l, nd_state = JStr k, nd_status = JStr ''''\<rparr>"

definition example_layout :: diagram where
  "example_layout = new_StateDiagram\<lparr>d_svgWidth := Some 1000,
     d_nodes := [example_node ''a'' 0, example_node ''b'' 1, example_node ''c'' 1],
     d_edges := [\<lparr>eg_from = 0, eg_to = 2, eg_transition = EmptyT new_EmptyTransition, eg_ref = OtherRef,
                   eg_path = None, eg_fromX = 0, eg_fromY = 0, eg_toX = 0, eg_toY = 0\<rparr>],
     d_anchors := [\<lparr>an_node = 0, an_x = 0, an_y = 0, an_selected = False\<rparr>]\<rparr>"

lemma example_layout_simps:
  "svg_width example_layout = 1000" "length (d_nodes example_layout) = 3"
  "d_options example_layout = new_DiagramOptions"
  by (simp_all add: example_layout_def svg_width_def new_StateDiagram_def)

theorem nodes_do_not_overlap_witness:
  "250 \<le> \<bar>nd_x (d_nodes (updateNodePosition example_layout) ! 1) - nd_x (d_nodes (updateNodePosition example_layout) ! 2)\<bar> \<or>
   140 \<le> \<bar>nd_y (d_nodes (updateNodePosition example_layout) ! 1) - nd_y (d_nodes (updateNodePosition example_layout) ! 2)\<bar>"
  using nodes_do_not_overlap [of example_layout 1 2] by (simp add: example_layout_simps new_DiagramOptions_def)

theorem nodes_stay_in_page_witness:
  "0 \<le> nd_x (d_nodes (updateNodePosition example_layout) ! 1) \<and> nd_x (d_nodes (updateNodePosition example_layout) ! 1) + 200 \<le> 1000"
proof -
  have "level_nodes example_layout 1 = [1, 2]" "nd_level (d_nodes example_layout ! 1) = 1"
    by (simp_all add: level_nodes_def example_layout_def example_node_def upt_rec)
  then show ?thesis using nodes_stay_in_page [of example_layout 1] by (simp add: example_layout_simps new_DiagramOptions_def)
qed


end
