(* ===== verification/Guid.thy ===== *)
theory Guid
  imports Js_Prelude
begin

text \<open>
  The two generators of identifiers: \<open>buildId\<close> of the state diagram and \<open>newGUID\<close> of the
  application editor. \<open>rnd n\<close> is the value of the \<open>n\<close>-th call of \<open>Math.random()\<close>, a number in
  the half-open interval from 0 to 1.
\<close>

section \<open>The generators\<close>

definition template :: string where
  "template = ''xxxxxxxx-xxxx-4xxx-yxxx-xxxxxxxxxxxx''"

text \<open>\<open>v.toString(16)\<close>\<close>

definition hex_digit :: "nat \<Rightarrow> char" where
  "hex_digit n = ''0123456789abcdef'' ! n"

fun to_hex :: "nat \<Rightarrow> string" where
  "to_hex v = (if v < 16 then [hex_digit v] else to_hex (v div 16) @ [hex_digit (v mod 16)])"

declare to_hex.simps [simp del]

text \<open>\<open>Math.random() * 16 | 0\<close>\<close>

definition nibble :: "rat \<Rightarrow> nat" where
  "nibble r = nat \<lfloor>r * 16\<rfloor>"

text \<open>\<open>c == 'x' ? r : (r & 0x3 | 0x8)\<close>\<close>

definition guid_value :: "char \<Rightarrow> nat \<Rightarrow> nat" where
  "guid_value c r = (if c = CHR ''x'' then r else or (and r 3) 8)"

text \<open>\<open>template.replace(/[xy]/g, ...)\<close>: the callback is called for each \<open>x\<close> and \<open>y\<close>, in order.\<close>

fun replace_xy :: "string \<Rightarrow> (nat \<Rightarrow> rat) \<Rightarrow> string" where
  "replace_xy [] rnd = []"
| "replace_xy (c # cs) rnd =
     (if c = CHR ''x'' \<or> c = CHR ''y''
      then to_hex (guid_value c (nibble (rnd 0))) @ replace_xy cs (\<lambda>n. rnd (n + 1))
      else c # replace_xy cs rnd)"

definition buildId :: "(nat \<Rightarrow> rat) \<Rightarrow> string" where
  "buildId rnd = replace_xy template rnd"

text \<open>The loop of \<open>newGUID\<close> draws a number for every character, also for those it copies.\<close>

function newGUID_loop :: "(nat \<Rightarrow> rat) \<Rightarrow> nat \<Rightarrow> string \<Rightarrow> string" where
  "newGUID_loop rnd i u =
     (if i < 36
      then let c = template ! i; v = guid_value c (nibble (rnd i))
           in newGUID_loop rnd (i + 1) (u @ (if c = CHR ''-'' \<or> c = CHR ''4'' then [c] else to_hex v))
      else u)"
  by pat_completeness auto
termination by (relation "measure (\<lambda>(rnd, i, u). 36 - i)") auto

declare newGUID_loop.simps [simp del]

definition newGUID :: "(nat \<Rightarrow> rat) \<Rightarrow> string" where
  "newGUID rnd = newGUID_loop rnd 0 ''''"

section \<open>Format\<close>

definition random_source :: "(nat \<Rightarrow> rat) \<Rightarrow> bool" where
  "random_source rnd \<longleftrightarrow> (\<forall>n. 0 \<le> rnd n \<and> rnd n < 1)"

text \<open>The identifiers of version 4 and variant 1.\<close>

definition hex_chars :: "string" where
  "hex_chars = ''0123456789abcdef''"

definition fits :: "char \<Rightarrow> char \<Rightarrow> bool" where
  "fits c d \<longleftrightarrow> (if c = CHR ''x'' then d \<in> set hex_chars
               else if c = CHR ''y'' then d \<in> set ''89ab'' else d = c)"

definition is_guid4 :: "string \<Rightarrow> bool" where
  "is_guid4 s \<longleftrightarrow> list_all2 fits template s"

lemma nibble_less: "r < 1 \<Longrightarrow> nibble r < 16"
proof -
  assume "r < 1"
  then have "\<lfloor>r * 16\<rfloor> < 16" by (simp add: floor_less_iff)
  then show ?thesis by (cases "0 \<le> \<lfloor>r * 16\<rfloor>") (simp_all add: nibble_def nat_less_iff)
qed

lemma hex_digit_in: "n < 16 \<Longrightarrow> hex_digit n \<in> set hex_chars"
  unfolding hex_digit_def hex_chars_def by (intro nth_mem) simp

lemma to_hex_small [simp]: "n < 16 \<Longrightarrow> to_hex n = [hex_digit n]"
  by (simp add: to_hex.simps)

lemma less_16_cases: "n < 16 \<Longrightarrow> n \<in> {0, 1, 2, 3, 4, 5, 6, 7, 8, 9, 10, 11, 12, 13, 14, 15 :: nat}"
  by (simp only: insert_iff empty_iff) presburger

lemma hex_digit_inj: "m < 16 \<Longrightarrow> n < 16 \<Longrightarrow> hex_digit m = hex_digit n \<longleftrightarrow> m = n"
  using nth_eq_iff_index_eq [of "''0123456789abcdef''" m n] by (simp add: hex_digit_def)

lemma variant_value: "(n :: nat) < 16 \<Longrightarrow> or (and n 3) 8 = 8 + n mod 4"
proof -
  assume "n < 16"
  then have "n \<in> {0, 1, 2, 3, 4, 5, 6, 7, 8, 9, 10, 11, 12, 13, 14, 15}" by (rule less_16_cases)
  then show ?thesis by (elim insertE emptyE; hypsubst; code_simp)
qed

lemma guid_value_less: "n < 16 \<Longrightarrow> guid_value c n < 16"
  using mod_less_divisor [of 4 n] by (auto simp: guid_value_def variant_value)

lemma variant_digit: "n < 16 \<Longrightarrow> hex_digit (8 + n mod 4) \<in> set ''89ab''"
  using less_16_cases [of n] by (auto simp: hex_digit_def)

lemma guid_value_fits:
  "n < 16 \<Longrightarrow> c = CHR ''x'' \<or> c = CHR ''y'' \<Longrightarrow> fits c (hex_digit (guid_value c n))"
  using hex_digit_in [of n] variant_digit [of n] by (auto simp: guid_value_def variant_value fits_def)

lemma replace_xy_fits: "random_source rnd \<Longrightarrow> list_all2 fits cs (replace_xy cs rnd)"
proof (induction cs arbitrary: rnd)
  case (Cons c cs)
  have n: "nibble (rnd 0) < 16" using Cons.prems by (simp add: random_source_def nibble_less)
  have "list_all2 fits cs (replace_xy cs rnd)" "list_all2 fits cs (replace_xy cs (\<lambda>n. rnd (n + 1)))"
    using Cons by (simp_all add: random_source_def)
  then show ?case using guid_value_fits [OF n, of c] by (auto simp: guid_value_less n) (simp add: fits_def)
qed simp

text \<open>The loop copies what \<open>replace\<close> copies and draws at the same places, from its own positions.\<close>

lemma template_nth: "i < 36 \<Longrightarrow> template ! i \<in> {CHR ''x'', CHR ''y'', CHR ''-'', CHR ''4''}"
proof -
  assume "i < 36"
  then have "template ! i \<in> set template" by (intro nth_mem) (simp add: template_def)
  then show ?thesis by (auto simp: template_def)
qed

lemma newGUID_loop_fits:
  "random_source rnd \<Longrightarrow> i \<le> 36 \<Longrightarrow> list_all2 fits (take i template) u \<Longrightarrow>
   list_all2 fits template (newGUID_loop rnd i u)"
proof (induction rnd i u rule: newGUID_loop.induct)
  case (1 rnd i u)
  have len: "length template = 36" by (simp add: template_def)
  show ?case
  proof (cases "i < 36")
    case True
    have n: "nibble (rnd i) < 16" using 1(2) by (simp add: random_source_def nibble_less)
    let ?c = "template ! i"
    let ?s = "if ?c = CHR ''-'' \<or> ?c = CHR ''4'' then [?c] else to_hex (guid_value ?c (nibble (rnd i)))"
    have "list_all2 fits [?c] ?s"
      using template_nth [OF True] guid_value_fits [OF n, of ?c] guid_value_less [OF n, of ?c]
      by (auto simp: fits_def)
    then have "list_all2 fits (take (i + 1) template) (u @ ?s)"
      using 1(4) True len by (simp only: take_Suc_conv_app_nth Suc_eq_plus1 [symmetric] list_all2_appendI)
    then have "list_all2 fits template (newGUID_loop rnd (i + 1) (u @ ?s))"
      using 1(1) [OF True refl refl] 1(2) True by simp
    then show ?thesis using True by (subst newGUID_loop.simps) (simp add: Let_def)
  next
    case False
    then show ?thesis using 1(3,4) len by (subst newGUID_loop.simps) simp
  qed
qed

text \<open>
  C15. Both generators always end and give a well-formed identifier of version 4: 36 characters,
  hyphens at positions 8, 13, 18 and 23, the digit 4 at position 14, one of 8, 9, a and b at
  position 19, and hexadecimal digits elsewhere.
\<close>

theorem generated_ids_are_guids:
  assumes "random_source rnd" shows "is_guid4 (buildId rnd) \<and> is_guid4 (newGUID rnd)"
  using replace_xy_fits [OF assms, of template] newGUID_loop_fits [OF assms, of 0 "[]"]
  by (simp add: is_guid4_def buildId_def newGUID_def)

lemma random_source_half: "random_source (\<lambda>n. 1 / 2)"
  by (simp add: random_source_def)

theorem generated_ids_are_guids_witness:
  "is_guid4 (buildId (\<lambda>n. 1 / 2)) \<and> is_guid4 (newGUID (\<lambda>n. 1 / 2))"
  using generated_ids_are_guids [OF random_source_half] .

lemma is_guid4_truthy: "is_guid4 s \<Longrightarrow> truthy (JStr s)"
  by (auto simp: is_guid4_def template_def)

section \<open>Collisions\<close>

abbreviation is_xy :: "char \<Rightarrow> bool" where
  "is_xy c \<equiv> c = CHR ''x'' \<or> c = CHR ''y''"

lemma replace_xy_eq_iff:
  "random_source rnd \<Longrightarrow> random_source rnd' \<Longrightarrow> replace_xy cs rnd = replace_xy cs rnd' \<longleftrightarrow>
     (\<forall>k < length (filter is_xy cs).
        guid_value (filter is_xy cs ! k) (nibble (rnd k)) = guid_value (filter is_xy cs ! k) (nibble (rnd' k)))"
proof (induction cs arbitrary: rnd rnd')
  case (Cons c cs)
  have v: "guid_value c (nibble (rnd 0)) < 16" "guid_value c (nibble (rnd' 0)) < 16"
    using Cons.prems by (simp_all add: random_source_def nibble_less guid_value_less)
  have IH: "replace_xy cs (\<lambda>n. rnd (n + 1)) = replace_xy cs (\<lambda>n. rnd' (n + 1)) \<longleftrightarrow>
     (\<forall>k < length (filter is_xy cs).
        guid_value (filter is_xy cs ! k) (nibble (rnd (k + 1))) = guid_value (filter is_xy cs ! k) (nibble (rnd' (k + 1))))"
    using Cons.prems by (intro Cons.IH) (simp_all add: random_source_def)
  show ?case
  proof (cases "is_xy c")
    case True
    then have "replace_xy (c # cs) rnd = replace_xy (c # cs) rnd' \<longleftrightarrow>
        guid_value c (nibble (rnd 0)) = guid_value c (nibble (rnd' 0)) \<and>
        replace_xy cs (\<lambda>n. rnd (n + 1)) = replace_xy cs (\<lambda>n. rnd' (n + 1))"
      using v by (simp add: hex_digit_inj)
    then show ?thesis using True unfolding IH by (auto simp: less_Suc_eq_0_disj)
  next
    case False
    then show ?thesis using Cons by simp
  qed
qed simp

lemma template_draws: "filter is_xy template = replicate 15 (CHR ''x'') @ CHR ''y'' # replicate 15 (CHR ''x'')"
  by (simp add: template_def numeral_eq_Suc)

lemma template_draws_nth: "k < 31 \<Longrightarrow> filter is_xy template ! k = (if k = 15 then CHR ''y'' else CHR ''x'')"
  unfolding template_draws by (auto simp: nth_append nth_Cons')

text \<open>
  Every random digit enters the identifier: two identifiers are equal only if their thirty free
  digits are equal and their variant digits agree in the last two bits.
\<close>

theorem buildId_collision:
  assumes "random_source rnd" and "random_source rnd'"
  shows "buildId rnd = buildId rnd' \<longleftrightarrow>
    (\<forall>k < 31. if k = 15 then nibble (rnd k) mod 4 = nibble (rnd' k) mod 4 else nibble (rnd k) = nibble (rnd' k))"
proof -
  have "guid_value (filter is_xy template ! k) (nibble (rnd k)) = guid_value (filter is_xy template ! k) (nibble (rnd' k)) \<longleftrightarrow>
      (if k = 15 then nibble (rnd k) mod 4 = nibble (rnd' k) mod 4 else nibble (rnd k) = nibble (rnd' k))"
    if "k < 31" for k
    using assms that by (simp add: template_draws_nth guid_value_def random_source_def nibble_less variant_value)
  moreover have "length (filter is_xy template) = 31" unfolding template_draws by simp
  ultimately show ?thesis unfolding buildId_def replace_xy_eq_iff [OF assms] by auto
qed

theorem buildId_collision_witness: "buildId (\<lambda>n. 1 / 2) \<noteq> buildId (\<lambda>n. 1 / 4)"
proof -
  have "random_source (\<lambda>n. 1 / 4)" by (simp add: random_source_def)
  moreover have "nibble (1 / 2) = 8" "nibble (1 / 4) = 4" by (simp_all add: nibble_def)
  ultimately show ?thesis using buildId_collision [OF random_source_half] by (auto intro!: exI [of _ 0])
qed

end
