(* ===== verification/Diagram_Editor.thy ===== *)
theory Diagram_Editor
  imports Diagram_Layout Guid
begin

text \<open>
  The event handlers of the state diagram (components/statediagram/statediagram.component.ts):
  \<open>refreshUI\<close>, dropping a new state on a node or on the start circle, removing a node, selecting a
  state or a label, choosing the default condition, moving and zooming. \<open>None\<close> is a stack overflow
  or a \<open>TypeError\<close>. A state that a node displays is the element of the document with the node's
  id; a handler that mutates it updates that element. \<open>n\<close> is the depth of the call stack, \<open>tm\<close>
  the date parsing and \<open>rnd\<close> the random numbers.
\<close>

section \<open>Refreshing the diagram\<close>

definition refreshUI :: "(js \<Rightarrow> int) \<Rightarrow> nat \<Rightarrow> diagram \<Rightarrow> diagram option" where
  "refreshUI tm n d =
     (if \<not> truthy (m_id (d_model d)) then Some d
      else let d1 = clear_arrays (d\<lparr>d_circleStart := (computeCirclePosition d, 10)\<rparr>)
           in case getRootState (d_model d1) of
                None \<Rightarrow> Some d1
              | Some rs \<Rightarrow> do {
                  (i, d2) \<leftarrow> buildNodeHierarchy tm n rs None d1;
                  Some (updateStartAndEndEdgePath (updateNodePosition d2))
                })"

text \<open>The setters of the inputs; the states of a new document have no subscriber yet.\<close>

definition set_stateMachine :: "(js \<Rightarrow> int) \<Rightarrow> nat \<Rightarrow> sm_state sm_model \<Rightarrow> diagram \<Rightarrow> diagram option" where
  "set_stateMachine tm n m d = refreshUI tm n (d\<lparr>d_model := m, d_subs := (\<lambda>_. 0)\<rparr>)"

definition set_stateMachineInstance :: "(js \<Rightarrow> int) \<Rightarrow> nat \<Rightarrow> instance_state list \<Rightarrow> diagram \<Rightarrow> diagram option" where
  "set_stateMachineInstance tm n sts d = refreshUI tm n (d\<lparr>d_instance := sts\<rparr>)"

text \<open>\<open>ngAfterViewInit\<close>: the size of the container becomes the view box.\<close>

definition ngAfterViewInit :: "rat \<Rightarrow> rat \<Rightarrow> diagram \<Rightarrow> diagram" where
  "ngAfterViewInit w h d = d\<lparr>d_viewBox := (0, 0, w, h)\<rparr>"

text \<open>An emission of \<open>updated\<close> of the state \<open>k\<close>: every subscriber present at that time refreshes.\<close>

fun refresh_times :: "(js \<Rightarrow> int) \<Rightarrow> nat \<Rightarrow> nat \<Rightarrow> diagram \<Rightarrow> diagram option" where
  "refresh_times tm n 0 d = Some d"
| "refresh_times tm n (Suc c) d = Option.bind (refreshUI tm n d) (refresh_times tm n c)"

definition emit_updated :: "(js \<Rightarrow> int) \<Rightarrow> nat \<Rightarrow> js \<Rightarrow> diagram \<Rightarrow> diagram option" where
  "emit_updated tm n k d = refresh_times tm n (d_subs d k) d"

section \<open>Handlers\<close>

definition closePanel :: "diagram \<Rightarrow> diagram" where
  "closePanel d = d\<lparr>d_selectedState := None, d_selectedTransition := None\<rparr>"

definition set_anchor :: "nat \<Rightarrow> bool \<Rightarrow> diagram \<Rightarrow> diagram" where
  "set_anchor i b d = d\<lparr>d_anchors := (d_anchors d)[i := (d_anchors d ! i)\<lparr>an_selected := b\<rparr>]\<rparr>"

text \<open>\<open>child = new ...(); child.id = ...; child.name = type; child.end = true\<close>\<close>

definition new_child :: "string \<Rightarrow> js \<Rightarrow> sm_state option" where
  "new_child ty k =
     (if ty = ''inject'' then Some (Inject (new_InjectState\<lparr>st_id := k, st_name := JStr ty, st_end := JBool True\<rparr>))
      else if ty = ''switch'' then Some (Switch (new_SwitchState\<lparr>st_id := k, st_name := JStr ty, st_end := JBool True\<rparr>))
      else if ty = ''foreach'' then Some (Foreach (new_ForeachState\<lparr>st_id := k, st_name := JStr ty, st_end := JBool True\<rparr>))
      else if ty = ''operation'' then Some (Operation (new_OperationState\<lparr>st_id := k, st_name := JStr ty, st_end := JBool True\<rparr>))
      else None)"

fun update_state :: "js \<Rightarrow> (sm_state \<Rightarrow> sm_state) \<Rightarrow> sm_state list \<Rightarrow> sm_state list" where
  "update_state k f [] = []"
| "update_state k f (s # sts) = (if js_seq (state_id s) k then f s # sts else s # update_state k f sts)"

abbreviation set_states :: "sm_state list \<Rightarrow> diagram \<Rightarrow> diagram" where
  "set_states sts d \<equiv> d\<lparr>d_model := (d_model d)\<lparr>m_states := sts\<rparr>\<rparr>"

text \<open>The document after \<open>parent?.tryAddTransition(id)\<close>, \<open>removeByNames\<close> and \<open>states.push(child)\<close>.\<close>

definition drop_states :: "nat \<Rightarrow> js \<Rightarrow> sm_state \<Rightarrow> sm_state list \<Rightarrow> sm_state list option" where
  "drop_states n parent child sts =
     (case getState parent sts of
        None \<Rightarrow> Some (sts @ [child])
      | Some p \<Rightarrow>
          (let (removed, p') = tryAddTransition (state_id child) p;
               sts1 = update_state parent (\<lambda>_. p') sts
           in do {
             sts2 \<leftarrow> (if truthy removed then removeByNames n [removed] sts1 else Some sts1);
             Some (sts2 @ [child])
           }))"

definition onDrop :: "(js \<Rightarrow> int) \<Rightarrow> nat \<Rightarrow> (nat \<Rightarrow> rat) \<Rightarrow> string \<Rightarrow> nat \<Rightarrow> diagram \<Rightarrow> diagram option" where
  "onDrop tm n rnd ty zi d =
     (if d_startMoving d then Some d
      else let z = d_zones d ! zi;
               d1 = set_anchor (dz_anchor z) False d;
               parent = nd_state (d_nodes d ! dz_node z)
           in case new_child ty (JStr (buildId rnd)) of
                None \<Rightarrow> Some d1
              | Some child \<Rightarrow> do {
                  sts \<leftarrow> drop_states n parent child (m_states (d_model d1));
                  d2 \<leftarrow> refreshUI tm n (set_states sts d1);
                  Some (closePanel d2)
                })"

definition onDragOver :: "nat \<Rightarrow> diagram \<Rightarrow> diagram" where
  "onDragOver zi d = (if d_startMoving d then d else set_anchor (dz_anchor (d_zones d ! zi)) True d)"

definition onDragLeave :: "nat \<Rightarrow> diagram \<Rightarrow> diagram" where
  "onDragLeave zi d = (if d_startMoving d then d else set_anchor (dz_anchor (d_zones d ! zi)) False d)"

definition onDragOverCircleStart :: "diagram \<Rightarrow> diagram" where
  "onDragOverCircleStart d = (if d_startMoving d then d else d\<lparr>d_circleStartSelected := True\<rparr>)"

definition onDragLeaveCircleStart :: "diagram \<Rightarrow> diagram" where
  "onDragLeaveCircleStart d = (if d_startMoving d then d else d\<lparr>d_circleStartSelected := False\<rparr>)"

definition onDropCircleStart :: "(js \<Rightarrow> int) \<Rightarrow> nat \<Rightarrow> (nat \<Rightarrow> rat) \<Rightarrow> string \<Rightarrow> diagram \<Rightarrow> diagram option" where
  "onDropCircleStart tm n rnd ty d =
     (let d1 = d\<lparr>d_circleStartSelected := False\<rparr>
      in if d_startMoving d then Some d1
         else case new_child ty (JStr (buildId rnd)) of
                None \<Rightarrow> Some d1
              | Some child \<Rightarrow> do {
                  d2 \<leftarrow> refreshUI tm n (d1\<lparr>d_model := (d_model d1)
                          \<lparr>m_start := map_option (\<lambda>st. st\<lparr>sta_stateName := state_id child\<rparr>) (m_start (d_model d1)),
                           m_states := [child]\<rparr>\<rparr>);
                  Some (closePanel d2)
                })"

text \<open>\<open>getParent\<close>: the id of the state whose node is the source of the only edge to \<open>k\<close>.\<close>

definition getParent :: "js \<Rightarrow> diagram \<Rightarrow> js option" where
  "getParent k d =
     (case filter (\<lambda>e. js_eq (nd_state (d_nodes d ! eg_to e)) k) (d_edges d) of
        [e] \<Rightarrow> Some (nd_state (d_nodes d ! eg_from e))
      | _ \<Rightarrow> None)"

definition removeNode :: "(js \<Rightarrow> int) \<Rightarrow> nat \<Rightarrow> nat \<Rightarrow> diagram \<Rightarrow> diagram option" where
  "removeNode tm n i d =
     (if d_startMoving d then Some d
      else let k = nd_state (d_nodes d ! i); sts = m_states (d_model d)
           in case getState k sts of
                None \<Rightarrow> Some d
              | Some s \<Rightarrow>
                  (case Option.bind (getParent k d) (\<lambda>p. getState p sts) of
                     None \<Rightarrow>
                       (if getNextTransitions s = []
                        then Option.bind (remove n s sts) (\<lambda>sts'. refreshUI tm n (set_states sts' d))
                        else do {
                          sts' \<leftarrow> remove n s sts;
                          d2 \<leftarrow> refreshUI tm n (set_states sts' d);
                          Some (closePanel d2)
                        })
                   | Some p \<Rightarrow>
                       (let parentNext = without k (getNextTransitions p)
                        in do {
                          sts' \<leftarrow> remove n s sts;
                          d2 \<leftarrow> refreshUI tm n
                                  (set_states (update_state (state_id p) (setTransitions parentNext) sts') d);
                          Some (closePanel d2)
                        })))"

definition unselect_labels :: "diagram \<Rightarrow> diagram" where
  "unselect_labels d = d\<lparr>d_labels := map (\<lambda>l. l\<lparr>el_selected := False\<rparr>) (d_labels d)\<rparr>"

definition selectState :: "nat \<Rightarrow> diagram \<Rightarrow> diagram" where
  "selectState i d =
     (if d_startMoving d then d
      else (unselect_labels (d\<lparr>d_selectedState := Some (nd_state (d_nodes d ! i))\<rparr>))\<lparr>d_selectedTransition := None\<rparr>)"

definition selectLabel :: "nat \<Rightarrow> diagram \<Rightarrow> diagram" where
  "selectLabel i d =
     (let d1 = (unselect_labels d)\<lparr>d_selectedState := None\<rparr>;
          l = d_labels d1 ! i
      in d1\<lparr>d_labels := (d_labels d1)[i := l\<lparr>el_selected := \<not> el_selected l\<rparr>],
            d_selectedTransition := Some (eg_transition (d_edges d ! el_edge l))\<rparr>)"

text \<open>\<open>onContextMenu\<close>: whether the menu of the label is opened.\<close>

definition onContextMenu :: "nat \<Rightarrow> diagram \<Rightarrow> bool" where
  "onContextMenu i d = (getType (eg_transition (d_edges d ! el_edge (d_labels d ! i))) \<noteq> ''empty'')"

text \<open>\<open>setDefaultCondition\<close>: the cast of a state that is no switch makes the method call throw.\<close>

definition setDefaultCondition :: "(js \<Rightarrow> int) \<Rightarrow> nat \<Rightarrow> nat \<Rightarrow> diagram \<Rightarrow> diagram option" where
  "setDefaultCondition tm n i d =
     (let e = d_edges d ! el_edge (d_labels d ! i);
          k = nd_state (d_nodes d ! eg_from e)
      in case getState k (m_states (d_model d)) of
           Some (Switch w) \<Rightarrow> do {
             d1 \<leftarrow> refreshUI tm n (set_states (update_state k
                     (\<lambda>_. Switch (swichTransitionToDefault (eg_ref e) (transition_target (eg_transition e)) w))
                     (m_states (d_model d))) d);
             Some (d1\<lparr>d_selectedTransition := None\<rparr>)
           }
         | _ \<Rightarrow> TypeError)"

section \<open>Moving and zooming\<close>

definition zoom :: "rat \<Rightarrow> diagram \<Rightarrow> diagram" where
  "zoom delta d = (case d_viewBox d of (x, y, w, h) \<Rightarrow> d\<lparr>d_viewBox := (x, y, w + delta, h + delta)\<rparr>)"

definition zoomIn :: "diagram \<Rightarrow> diagram" where
  "zoomIn d = zoom (- o_zoom (d_options d)) d"

definition zoomOut :: "diagram \<Rightarrow> diagram" where
  "zoomOut d = zoom (o_zoom (d_options d)) d"

definition startMove :: "diagram \<Rightarrow> diagram" where
  "startMove d = d\<lparr>d_startMoving := True\<rparr>"

definition startEdit :: "diagram \<Rightarrow> diagram" where
  "startEdit d = d\<lparr>d_startMoving := False\<rparr>"

definition onmousedown :: "rat \<Rightarrow> rat \<Rightarrow> diagram \<Rightarrow> diagram" where
  "onmousedown clientX clientY d =
     (if \<not> d_startMoving d then d
      else case d_viewBox d of (x, y, w, h) \<Rightarrow>
             d\<lparr>d_isMoving := True, d_previousMouse := (clientX + x, clientY + y)\<rparr>)"

definition onmousemove :: "rat \<Rightarrow> rat \<Rightarrow> diagram \<Rightarrow> diagram" where
  "onmousemove clientX clientY d =
     (if \<not> d_isMoving d then d
      else case (d_viewBox d, d_previousMouse d) of ((x, y, w, h), (px, py)) \<Rightarrow>
             d\<lparr>d_viewBox := (- (clientX - px), - (clientY - py), w, h)\<rparr>)"

definition onmouseup :: "diagram \<Rightarrow> diagram" where
  "onmouseup d = d\<lparr>d_isMoving := False\<rparr>"

definition handleMouseUp :: "diagram \<Rightarrow> diagram" where
  "handleMouseUp d =
     (let d1 = (if d_isResizing d then d\<lparr>d_isResizing := False\<rparr> else d)
      in if d_isMoving d1 then d1\<lparr>d_isMoving := False\<rparr> else d1)"

text \<open>The width that \<open>handleMouseMoveWindow\<close> gives the container of the diagram, for the width of the gutter\<close>

definition handleMouseMoveWindow :: "rat \<Rightarrow> rat \<Rightarrow> diagram \<Rightarrow> rat option" where
  "handleMouseMoveWindow gutterWidth x d =
     (if \<not> d_isResizing d then None else Some (gutterWidth - (fst (d_previousMouse d) - x)))"

section \<open>Refreshing shows the reachable states\<close>

lemma nd_state_computePosition [simp]: "nd_state (node_computePosition p nb g w h fw x) = nd_state x"
  by (simp add: node_computePosition_def Let_def)

lemma node_ids_place_group [simp]: "map nd_state (place_group opt w p nb is ns) = map nd_state ns"
proof (induction opt w p nb "is" ns rule: place_group.induct)
  case (2 opt w p nb i "is" ns)
  have "(map nd_state ns)[i := nd_state (ns ! i)] = map nd_state ns" by (metis list_update_id map_update)
  with 2 show ?case by (simp add: map_update)
qed simp

lemma node_ids_place_groups [simp]: "map nd_state (place_groups opt w gs ns) = map nd_state ns"
  by (induction opt w gs ns rule: place_groups.induct) simp_all

lemma edge_computePosition_fields [simp]:
  "eg_from (edge_computePosition ns w h e) = eg_from e" "eg_to (edge_computePosition ns w h e) = eg_to e"
  "eg_transition (edge_computePosition ns w h e) = eg_transition e" "eg_ref (edge_computePosition ns w h e) = eg_ref e"
  by (simp_all add: edge_computePosition_def Let_def)

lemma attachment_fields [simp]:
  "an_node (anchor_computePosition ns w h a) = an_node a"
  "dz_node (zone_computPosition ns w h g zw z) = dz_node z"
  "dz_anchor (zone_computPosition ns w h g zw z) = dz_anchor z"
  "tk_node (token_computePosition ns tw th h t) = tk_node t"
  "el_edge (label_computePosition es l) = el_edge l" "el_selected (label_computePosition es l) = el_selected l"
  by (simp_all add: anchor_computePosition_def zone_computPosition_def token_computePosition_def
      label_computePosition_def Let_def)

lemma updateNodePosition_fields [simp]:
  "d_model (updateNodePosition d) = d_model d" "d_instance (updateNodePosition d) = d_instance d"
  "d_subs (updateNodePosition d) = d_subs d" "node_ids (updateNodePosition d) = node_ids d"
  "d_selectedState (updateNodePosition d) = d_selectedState d"
  "d_selectedTransition (updateNodePosition d) = d_selectedTransition d"
  "length (d_nodes (updateNodePosition d)) = length (d_nodes d)"
  by (simp_all add: updateNodePosition_def Let_def)

lemma updateNodePosition_edges:
  "map (\<lambda>e. (eg_from e, eg_to e, eg_transition e, eg_ref e)) (d_edges (updateNodePosition d)) =
   map (\<lambda>e. (eg_from e, eg_to e, eg_transition e, eg_ref e)) (d_edges d)"
  by (simp add: updateNodePosition_def Let_def)

lemma updateStart_fields [simp]:
  "d_model (updateStartAndEndEdgePath d) = d_model d" "d_instance (updateStartAndEndEdgePath d) = d_instance d"
  "d_subs (updateStartAndEndEdgePath d) = d_subs d" "d_nodes (updateStartAndEndEdgePath d) = d_nodes d"
  "d_edges (updateStartAndEndEdgePath d) = d_edges d" "d_labels (updateStartAndEndEdgePath d) = d_labels d"
  "d_anchors (updateStartAndEndEdgePath d) = d_anchors d" "d_zones (updateStartAndEndEdgePath d) = d_zones d"
  "d_tokens (updateStartAndEndEdgePath d) = d_tokens d"
  "d_selectedState (updateStartAndEndEdgePath d) = d_selectedState d"
  "d_selectedTransition (updateStartAndEndEdgePath d) = d_selectedTransition d"
  by (simp_all add: updateStartAndEndEdgePath_def split: list.split)

lemma updateNodePosition_shape: "shape d \<Longrightarrow> shape (updateNodePosition d)"
proof -
  assume d: "shape d"
  have "filter (\<lambda>k. label_present (getLabel (eg_transition (map (edge_computePosition ns w h) es ! k)))) [0..<length es] =
        filter (\<lambda>k. label_present (getLabel (eg_transition (es ! k)))) [0..<length es]" for ns w h es
    by (intro filter_cong) auto
  then show ?thesis using d by (auto simp: shape_def updateNodePosition_def Let_def o_def)
qed

lemma updateStart_shape [simp]: "shape (updateStartAndEndEdgePath d) = shape d"
  by (simp add: shape_def)

text \<open>The ids of the states that a diagram of the document should show.\<close>

definition visible :: "sm_state sm_model \<Rightarrow> js set" where
  "visible m = (case getRootState m of None \<Rightarrow> {} | Some rs \<Rightarrow> state_id ` reaches (m_states m) rs)"

lemma getRootState_in: "getRootState m = Some rs \<Longrightarrow> rs \<in> set (m_states m)"
  by (auto simp: getRootState_def split: option.splits dest: find_Some_set)

text \<open>Everything but what the search and the layout write.\<close>

definition selections :: "diagram \<Rightarrow> js option \<times> transition option" where
  "selections d = (d_selectedState d, d_selectedTransition d)"

definition labels_off :: "diagram \<Rightarrow> bool" where
  "labels_off d \<longleftrightarrow> (\<forall>l \<in> set (d_labels d). \<not> el_selected l)"

lemma frame_selections: "frame d' = frame d \<Longrightarrow> selections d' = selections d"
  by (cases d, cases d') (simp add: frame_def selections_def)

lemma refreshUI_spec:
  assumes "wf_ids (m_states (d_model d))" and "instance_ok d" and "length (m_states (d_model d)) < n"
    and "truthy (m_id (d_model d))"
  obtains d' where "refreshUI tm n d = Some d'" and "d_model d' = d_model d" and "d_instance d' = d_instance d"
    and "selections d' = selections d" and "shape d'" and "set (node_ids d') = visible (d_model d)"
    and "\<And>k. d_subs d' k = d_subs d k + (if k \<in> visible (d_model d) then 1 else 0)"
proof (cases "getRootState (d_model d)")
  case None
  show ?thesis
  proof (rule that)
    show "refreshUI tm n d = Some (clear_arrays (d\<lparr>d_circleStart := (computeCirclePosition d, 10)\<rparr>))"
      using None assms(4) by (simp add: refreshUI_def clear_arrays_def)
  qed (simp_all add: clear_arrays_shape, simp_all add: clear_arrays_def selections_def visible_def None)
next
  case (Some rs)
  let ?sts = "m_states (d_model d)" and ?d0 = "d\<lparr>d_circleStart := (computeCirclePosition d, 10)\<rparr>"
  have rs: "rs \<in> set (m_states (d_model ?d0))" using getRootState_in [OF Some] by simp
  have pre: "wf_ids (m_states (d_model ?d0))" "instance_ok ?d0" "length (m_states (d_model ?d0)) < n"
    using assms by (simp_all add: instance_ok_def)
  have m0: "m_states (d_model ?d0) = ?sts" by simp
  obtain d1 where d1: "buildNodeHierarchy tm n rs None (clear_arrays ?d0) = Some (0, d1)"
      "grows ?sts (reaches ?sts rs) (\<lambda>_. []) (clear_arrays ?d0) d1"
      "node_ids d1 ! 0 = state_id rs" "0 < length (d_nodes d1)"
      "set (node_ids d1) = state_id ` reaches ?sts rs"
    by (rule diagram_spec [OF pre(1) rs pre(2,3), of tm, unfolded m0])
  have fr: "frame d1 = frame (clear_arrays ?d0)" and sh: "shape d1" using d1(2) by (simp_all add: grows_def)
  have subs: "d_subs d1 k = d_subs d k + count_list (node_ids d1) k" for k
    using d1(2) by (auto simp: grows_def clear_arrays_def)
  have cnt: "distinct xs \<Longrightarrow> count_list xs k = (if k \<in> set xs then 1 else 0)" for xs and k :: js
    by (induction xs) auto
  have vis: "visible (d_model d) = set (node_ids d1)" using Some d1(5) by (simp add: visible_def)
  show ?thesis
  proof (rule that)
    show "refreshUI tm n d = Some (updateStartAndEndEdgePath (updateNodePosition d1))"
      using assms(4) Some d1(1) by (simp add: refreshUI_def clear_arrays_def)
    show "shape (updateStartAndEndEdgePath (updateNodePosition d1))" using sh by (simp add: updateNodePosition_shape)
    show "d_subs (updateStartAndEndEdgePath (updateNodePosition d1)) k =
        d_subs d k + (if k \<in> visible (d_model d) then 1 else 0)" for k
      unfolding vis using subs [of k] cnt [of "node_ids d1" k] sh by (simp add: shape_def)
    show "set (node_ids (updateStartAndEndEdgePath (updateNodePosition d1))) = visible (d_model d)"
      unfolding vis updateStart_fields updateNodePosition_fields ..
    show "d_model (updateStartAndEndEdgePath (updateNodePosition d1)) = d_model d"
      using frame_model [OF fr] by (simp add: clear_arrays_def)
    show "d_instance (updateStartAndEndEdgePath (updateNodePosition d1)) = d_instance d"
      using frame_instance [OF fr] by (simp add: clear_arrays_def)
    show "selections (updateStartAndEndEdgePath (updateNodePosition d1)) = selections d"
      using frame_selections [OF fr] by (simp add: selections_def clear_arrays_def)
  qed
qed

end
