(* ===== verification/Diagram_Props.thy ===== *)
theory Diagram_Props
  imports Diagram_Editor
begin

text \<open>
  Correctness of the editing handlers of the state diagram: what dropping and removing do to the
  document and to what is displayed, how subscriptions grow, and an invariant of the component
  over all sequences of events.
\<close>

section \<open>Emissions\<close>

definition ready :: "nat \<Rightarrow> diagram \<Rightarrow> bool" where
  "ready n d \<longleftrightarrow> wf_ids (m_states (d_model d)) \<and> instance_ok d \<and> length (m_states (d_model d)) < n \<and>
     truthy (m_id (d_model d))"

lemma ready_spec:
  assumes "ready n d"
  shows "\<exists>d'. refreshUI tm n d = Some d' \<and> ready n d' \<and> d_model d' = d_model d \<and>
    selections d' = selections d \<and> shape d' \<and> set (node_ids d') = visible (d_model d) \<and>
    (\<forall>k. d_subs d' k = d_subs d k + (if k \<in> visible (d_model d) then 1 else 0))"
proof -
  have pre: "wf_ids (m_states (d_model d))" "instance_ok d" "length (m_states (d_model d)) < n"
      "truthy (m_id (d_model d))"
    using assms by (simp_all add: ready_def)
  show ?thesis
    by (rule refreshUI_spec [OF pre, of tm]) (use assms in \<open>auto simp: ready_def instance_ok_def\<close>)
qed

lemma refresh_times_spec:
  "ready n d \<Longrightarrow> k \<in> visible (d_model d) \<Longrightarrow>
     \<exists>d'. refresh_times tm n c d = Some d' \<and> ready n d' \<and> d_model d' = d_model d \<and> d_subs d' k = d_subs d k + c"
proof (induction c arbitrary: d)
  case (Suc c)
  obtain d1 where d1: "refreshUI tm n d = Some d1" "ready n d1" "d_model d1 = d_model d"
      "selections d1 = selections d" "shape d1" "set (node_ids d1) = visible (d_model d)"
      "\<forall>j. d_subs d1 j = d_subs d j + (if j \<in> visible (d_model d) then 1 else 0)"
    using ready_spec [OF Suc.prems(1), of tm] by blast
  then show ?case using Suc.IH [OF d1(2)] Suc.prems(2) by auto
qed simp

text \<open>
  Every refresh subscribes again to the displayed states and nothing ever unsubscribes, so an
  emission of a displayed state's event \<open>updated\<close> doubles the number of its subscriptions.
\<close>

theorem emission_doubles_subscriptions:
  assumes "ready n d" and "k \<in> visible (d_model d)"
  shows "\<exists>d'. emit_updated tm n k d = Some d' \<and> d_model d' = d_model d \<and> d_subs d' k = 2 * d_subs d k"
  using refresh_times_spec [OF assms, of tm "d_subs d k"] by (auto simp: emit_updated_def)

lemma example_ready: "ready 4 (diagram_for ''a'' example_cycle)"
  using example_cycle_wf by (simp add: ready_def) (simp add: diagram_for_def)

lemma example_visible: "JStr ''a'' \<in> visible (d_model (diagram_for ''a'' example_cycle))"
proof -
  have "getRootState (d_model (diagram_for ''a'' example_cycle)) = Some (flow_to ''a'' ''b'')"
    by (simp add: getRootState_def diagram_for_def example_cycle_def)
  then show ?thesis by (force simp: visible_def reaches_def)
qed

theorem emission_doubles_subscriptions_witness:
  "\<exists>d'. emit_updated (\<lambda>_. 0) 4 (JStr ''a'') ((diagram_for ''a'' example_cycle)\<lparr>d_subs := (\<lambda>_. 5)\<rparr>) = Some d' \<and>
     d_subs d' (JStr ''a'') = 10"
proof -
  have "ready 4 ((diagram_for ''a'' example_cycle)\<lparr>d_subs := (\<lambda>_. 5)\<rparr>)"
    using example_ready by (simp add: ready_def instance_ok_def)
  moreover have "JStr ''a'' \<in> visible (d_model ((diagram_for ''a'' example_cycle)\<lparr>d_subs := (\<lambda>_. 5)\<rparr>))"
    using example_visible by simp
  ultimately show ?thesis using emission_doubles_subscriptions by fastforce
qed

section \<open>Dropping a state on a node\<close>

lemma tryAdd_id [simp]: "state_id (snd (tryAddTransition k s)) = state_id s"
  by (cases s) (simp_all add: flow_tryAddTransition_def op_tryAddTransition_def fe_tryAddTransition_def
      sw_tryAddTransition_def Let_def)

lemma tryAdd_name [simp]: "state_name (snd (tryAddTransition k s)) = state_name s"
  by (cases s) (simp_all add: flow_tryAddTransition_def op_tryAddTransition_def fe_tryAddTransition_def
      sw_tryAddTransition_def Let_def)

lemma tryAdd_old: "fst (tryAddTransition k s) = Null \<or> fst (tryAddTransition k s) \<in> set (next_ids s)"
  by (cases s) (simp_all add: flow_tryAddTransition_def op_tryAddTransition_def fe_tryAddTransition_def
      sw_tryAddTransition_def Let_def flow_getNextTransitions_def op_getNextTransitions_def
      fe_getNextTransitions_def new_EmptyTransition_def)

lemma setTransitions_id [simp]: "state_id (setTransitions ts s) = state_id s"
  by (cases s) (simp_all add: flow_setTransitions_def op_setTransitions_def fe_setTransitions_def
      sw_setTransitions_def Let_def split: list.split)

lemma update_state_wf:
  "wf_ids sts \<Longrightarrow> p \<in> set sts \<Longrightarrow>
     update_state (state_id p) f sts = map (\<lambda>s. if s = p then f s else s) sts"
proof -
  assume wf: "wf_ids sts" and p: "p \<in> set sts"
  have "distinct (map state_id xs) \<Longrightarrow> set xs \<subseteq> set sts \<Longrightarrow>
      update_state (state_id p) f xs = map (\<lambda>s. if s = p then f s else s) xs" for xs
  proof (induction xs)
    case (Cons x xs)
    show ?case
    proof (cases "x = p")
      case True
      then have "p \<notin> set xs" using Cons.prems(1) by auto
      then show ?thesis using True wf p by (auto simp: wf_ids_def intro: map_idI [symmetric])
    next
      case False
      then have "state_id x \<noteq> state_id p" using wf_ids_inj [OF wf, of x p] Cons.prems(2) p by auto
      then show ?thesis using False Cons by (auto simp: js_seq_def)
    qed
  qed simp
  then show ?thesis using wf by (simp add: wf_ids_def)
qed

lemma ids_update: "(\<And>s. state_id (f s) = state_id s) \<Longrightarrow>
    map state_id (map (\<lambda>s. if s = p then f s else s) sts) = map state_id sts"
  by auto

lemma new_child_props: "new_child ty k = Some c \<Longrightarrow> state_id c = k \<and> state_name c = JStr ty \<and> state_end c = JBool True"
  by (auto simp: new_child_def split: if_splits)

text \<open>The document after a drop on the state \<open>p\<close>, when no state is named like a successor of \<open>p\<close>.\<close>

definition names_apart :: "sm_state \<Rightarrow> sm_state list \<Rightarrow> bool" where
  "names_apart p sts \<longleftrightarrow> (\<forall>s \<in> set sts. state_name s \<notin> set (next_ids p))"

abbreviation with_child :: "sm_state \<Rightarrow> sm_state \<Rightarrow> sm_state list \<Rightarrow> sm_state list" where
  "with_child p c sts \<equiv>
     map (\<lambda>s. if s = p then snd (tryAddTransition (state_id c) p) else s) sts @ [c]"

lemma drop_states_eq:
  assumes wf: "wf_ids sts" and p: "p \<in> set sts" and names: "names_apart p sts"
  shows "drop_states n (state_id p) c sts = Some (with_child p c sts)"
proof -
  obtain old p' where t: "tryAddTransition (state_id c) p = (old, p')" by fastforce
  let ?sts1 = "map (\<lambda>s. if s = p then p' else s) sts"
  have p': "p' = snd (tryAddTransition (state_id c) p)" and old: "old = fst (tryAddTransition (state_id c) p)"
    using t by simp_all
  have "removeByNames n [old] ?sts1 = Some ?sts1" if "truthy old"
  proof (rule removeByNames_unknown)
    have "old \<in> set (next_ids p)" using tryAdd_old [of "state_id c" p] that old by auto
    then show "\<forall>s \<in> set ?sts1. \<forall>k \<in> set [old]. \<not> js_seq k (state_name s)"
      using names p by (auto simp: names_apart_def js_seq_def p')
  qed
  moreover have "getState (state_id p) sts = Some p" using wf p by (simp add: getState_Some_iff)
  moreover have "update_state (state_id p) (\<lambda>_. p') sts = ?sts1" using update_state_wf [OF wf p] .
  ultimately show ?thesis unfolding p' [symmetric] by (simp add: drop_states_def t Let_def)
qed

lemma with_child_ids: "map state_id (with_child p c sts) = map state_id sts @ [state_id c]"
  by auto

lemma with_child_wf:
  "wf_ids sts \<Longrightarrow> is_prim (state_id c) \<Longrightarrow> state_id c \<notin> state_id ` set sts \<Longrightarrow> wf_ids (with_child p c sts)"
proof -
  assume a: "wf_ids sts" "is_prim (state_id c)" "state_id c \<notin> state_id ` set sts"
  have "wf_ids xs \<longleftrightarrow> distinct (map state_id xs) \<and> list_all is_prim (map state_id xs)" for xs
    by (auto simp: wf_ids_def list_all_iff)
  then show ?thesis using a unfolding with_child_ids [symmetric] by (simp only: with_child_ids) auto
qed

text \<open>A path to \<open>p\<close> that does not pass through \<open>p\<close> earlier survives the change of \<open>p\<close>.\<close>

lemma with_child_path:
  assumes wf: "wf_ids sts" and p: "p \<in> set sts" and wf': "wf_ids (with_child p c sts)"
    and path: "(x, p) \<in> (edges sts)\<^sup>*"
  shows "(if x = p then snd (tryAddTransition (state_id c) p) else x, snd (tryAddTransition (state_id c) p))
     \<in> (edges (with_child p c sts))\<^sup>*"
  using path
proof (induction rule: converse_rtrancl_induct)
  case (step x y)
  let ?p = "snd (tryAddTransition (state_id c) p)" and ?new = "with_child p c sts"
  show ?case
  proof (cases "x = p")
    case False
    let ?y = "if y = p then ?p else y"
    have e: "x \<in> set sts" "y \<in> set sts" "state_id y \<in> set (next_ids x)"
      using step.hyps(1) by (simp_all only: edges_iff [OF wf])
    have "x \<in> set ?new" "?y \<in> set ?new" using e False by auto
    moreover have "state_id ?y \<in> set (next_ids x)" using e(3) by auto
    ultimately have "(x, ?y) \<in> edges ?new" by (simp only: edges_iff [OF wf'])
    then show ?thesis using False step.IH by simp
  qed simp
qed simp

lemma getRootState_iff:
  "wf_ids (m_states m) \<Longrightarrow> getRootState m = Some s \<longleftrightarrow>
     s \<in> set (m_states m) \<and> (\<exists>st. m_start m = Some st \<and> truthy (sta_stateName st) \<and> state_id s = sta_stateName st)"
proof -
  assume wf: "wf_ids (m_states m)"
  have "js_filter0 (\<lambda>s. truthy k \<and> js_seq (state_id s) k) (m_states m) =
      (if truthy k then getState k (m_states m) else None)" for k
    by (simp add: getState_def find_None_set)
  then show ?thesis using getState_Some_iff [OF wf] by (auto simp: getRootState_def split: option.split)
qed

lemma with_child_visible:
  assumes wf: "wf_ids (m_states m)" and p: "p \<in> set (m_states m)" "state_id p \<in> visible m" and links: "wf_links p"
    and c: "is_prim (state_id c)" "state_id c \<notin> state_id ` set (m_states m)"
  shows "state_id c \<in> visible (m\<lparr>m_states := with_child p c (m_states m)\<rparr>)"
proof -
  let ?sts = "m_states m" and ?new = "with_child p c (m_states m)" and ?p = "snd (tryAddTransition (state_id c) p)"
  have wf': "wf_ids ?new" using with_child_wf [OF wf c] .
  obtain rs q where rs: "getRootState m = Some rs" and q: "q \<in> reaches ?sts rs" "state_id q = state_id p"
    using p(2) by (auto simp: visible_def split: option.splits)
  have rin: "rs \<in> set ?sts" using getRootState_in [OF rs] .
  have "q \<in> set ?sts" using q(1) rin edges_iff [OF wf] unfolding reaches_def by (auto elim: rtranclE)
  then have "q = p" using q(2) p(1) wf_ids_inj [OF wf] by blast
  then have path: "(rs, p) \<in> (edges ?sts)\<^sup>*" using q(1) by (simp add: reaches_def)
  let ?rs = "if rs = p then ?p else rs"
  have r': "getRootState (m\<lparr>m_states := ?new\<rparr>) = Some ?rs"
    using rs rin wf wf' by (auto simp: getRootState_iff)
  have "state_id c \<in> set (next_ids ?p)" using st.add_target [OF links] .
  then have "(?p, c) \<in> edges ?new" using p(1) by (simp only: edges_iff [OF wf']) auto
  then have "(?rs, c) \<in> (edges ?new)\<^sup>*"
    using with_child_path [OF wf p(1) wf' path] by (rule rtrancl_into_rtrancl [rotated])
  then show ?thesis unfolding visible_def r' by (force simp: reaches_def)
qed

lemma set_anchor_fields [simp]:
  "d_model (set_anchor i b d) = d_model d" "d_instance (set_anchor i b d) = d_instance d"
  "selections (set_anchor i b d) = selections d" "d_nodes (set_anchor i b d) = d_nodes d"
  "d_startMoving (set_anchor i b d) = d_startMoving d"
  by (simp_all add: set_anchor_def selections_def)

text \<open>
  C10. Dropping a new state on a displayed node succeeds, adds exactly that state at the end of the
  document, keeps the id of every other state and shows the new state in the diagram; the panel is
  closed. In particular a successor that the new state replaces stays in the document.
\<close>

theorem drop_shows_new_state:
  assumes "ready n d" and "length (m_states (d_model d)) + 1 < n" and "\<not> d_startMoving d"
    and "new_child ty (JStr (buildId rnd)) = Some c"
    and "JStr (buildId rnd) \<notin> state_id ` set (m_states (d_model d))"
    and "p \<in> set (m_states (d_model d))" and "state_id p \<in> visible (d_model d)"
    and "nd_state (d_nodes d ! dz_node (d_zones d ! zi)) = state_id p"
    and "wf_links p" and "names_apart p (m_states (d_model d))"
  shows "\<exists>d'. onDrop tm n rnd ty zi d = Some d' \<and> shape d' \<and> selections d' = (None, None) \<and>
    map state_id (m_states (d_model d')) = map state_id (m_states (d_model d)) @ [JStr (buildId rnd)] \<and>
    JStr (buildId rnd) \<in> set (node_ids d')"
proof -
  let ?sts = "m_states (d_model d)" and ?new = "with_child p c (m_states (d_model d))"
  have wf: "wf_ids ?sts" using assms(1) by (simp add: ready_def)
  have cid: "state_id c = JStr (buildId rnd)" using new_child_props [OF assms(4)] by simp
  have c: "is_prim (state_id c)" "state_id c \<notin> state_id ` set ?sts" using assms(5) cid by simp_all
  let ?d1 = "set_states ?new (set_anchor (dz_anchor (d_zones d ! zi)) False d)"
  have r1: "ready n ?d1"
    using assms(1,2) with_child_wf [OF wf c, of p] by (simp add: ready_def instance_ok_def)
  obtain d2 where d2: "refreshUI tm n ?d1 = Some d2" "ready n d2" "d_model d2 = d_model ?d1"
      "selections d2 = selections ?d1" "shape d2" "set (node_ids d2) = visible (d_model ?d1)"
    using ready_spec [OF r1, of tm] by blast
  have vis: "JStr (buildId rnd) \<in> set (node_ids d2)"
    using with_child_visible [OF wf assms(6,7,9) c] d2(6) cid by simp
  have "onDrop tm n rnd ty zi d = Some (closePanel d2)"
    using assms(3,4,8) drop_states_eq [OF wf assms(6,10)] d2(1) by (simp add: onDrop_def Let_def)
  moreover have "shape (closePanel d2)" using d2(5) by (simp add: shape_def closePanel_def)
  moreover have "map state_id (m_states (d_model (closePanel d2))) = map state_id ?sts @ [JStr (buildId rnd)]"
    using d2(3) with_child_ids [of p c ?sts] cid by (simp add: closePanel_def)
  moreover have "node_ids (closePanel d2) = node_ids d2" "selections (closePanel d2) = (None, None)"
    by (simp_all add: closePanel_def selections_def)
  ultimately show ?thesis using vis by (intro exI [of _ "closePanel d2"]) simp
qed

definition half :: "nat \<Rightarrow> rat" where
  "half n = 1 / 2"

definition example_pair :: "sm_state list" where
  "example_pair = [Inject (new_InjectState\<lparr>st_id := JStr ''a'', st_name := JStr ''first'', fl_transition := JStr ''b''\<rparr>),
     Inject (new_InjectState\<lparr>st_id := JStr ''b'', st_name := JStr ''second'', st_end := JBool True\<rparr>)]"

definition example_shown :: diagram where
  "example_shown = the (refreshUI (\<lambda>_. 0) 6 (diagram_for ''a'' example_pair))"

lemma half_id: "buildId half = ''88888888-8888-4888-8888-888888888888''"
  by code_simp

lemma example_shown_eq:
  "m_states (d_model example_shown) = example_pair" "d_startMoving example_shown = False"
  "nd_state (d_nodes example_shown ! dz_node (d_zones example_shown ! 0)) = JStr ''a''"
  by code_simp+

text \<open>
  Where a state has a single successor, the new state takes the place of the old one, which the
  code means to delete with \<open>removeByNames\<close>; but it passes an id where names are expected, so the
  old successor stays in the document without being displayed.
\<close>

theorem replaced_successor_is_orphaned:
  "map_option (\<lambda>d. (map state_id (m_states (d_model d)), node_ids d))
     (onDrop (\<lambda>_. 0) 6 half ''inject'' 0 example_shown) =
   Some ([JStr ''a'', JStr ''b'', JStr ''88888888-8888-4888-8888-888888888888''],
         [JStr ''a'', JStr ''88888888-8888-4888-8888-888888888888''])"
  by code_simp

lemma example_shown_ready:
  "ready 6 example_shown" "visible (d_model example_shown) \<supseteq> {JStr ''a''}"
proof -
  have m: "m_id (d_model example_shown) = JStr ''m''" "d_instance example_shown = []"
    "getRootState (d_model example_shown) = Some (hd example_pair)"
    by code_simp+
  then show "ready 6 example_shown"
    by (simp add: ready_def example_shown_eq instance_ok_def wf_ids_def example_pair_def)
  have "JStr ''a'' = state_id (hd example_pair)" by (simp add: example_pair_def)
  then show "visible (d_model example_shown) \<supseteq> {JStr ''a''}"
    using m(3) by (auto simp: visible_def reaches_def)
qed

theorem drop_shows_new_state_witness:
  "\<exists>d'. onDrop (\<lambda>_. 0) 6 half ''switch'' 0 example_shown = Some d' \<and> JStr (buildId half) \<in> set (node_ids d')"
proof -
  let ?p = "hd example_pair"
  obtain c where c: "new_child ''switch'' (JStr (buildId half)) = Some c" by (simp add: new_child_def)
  have p: "?p \<in> set (m_states (d_model example_shown))" "wf_links ?p" "state_id ?p = JStr ''a''"
    "names_apart ?p (m_states (d_model example_shown))"
    by (simp_all add: example_shown_eq example_pair_def names_apart_def flow_getNextTransitions_def new_EmptyTransition_def)
  have fresh: "JStr (buildId half) \<notin> state_id ` set (m_states (d_model example_shown))"
    by (simp add: example_shown_eq example_pair_def half_id)
  have len: "length (m_states (d_model example_shown)) + 1 < 6" by (simp add: example_shown_eq example_pair_def)
  show ?thesis
    using drop_shows_new_state [OF example_shown_ready(1) len _ c fresh p(1) _ _ p(2,4), of 0 "\<lambda>_. 0"]
      example_shown_eq p(3) example_shown_ready(2) by auto
qed

section \<open>Removing a node\<close>

lemma wf_ids_ids: "map state_id xs = map state_id ys \<Longrightarrow> wf_ids xs = wf_ids ys"
proof -
  assume eq: "map state_id xs = map state_id ys"
  have "wf_ids zs \<longleftrightarrow> distinct (map state_id zs) \<and> list_all is_prim (map state_id zs)" for zs
    by (auto simp: wf_ids_def list_all_iff)
  then show ?thesis by (simp only: eq)
qed



section \<open>All sequences of events\<close>

text \<open>What removals do to the array: it gets smaller and stays well formed.\<close>

definition shrinks :: "sm_state list \<Rightarrow> sm_state list \<Rightarrow> bool" where
  "shrinks sts sts' \<longleftrightarrow> length sts' \<le> length sts \<and> set sts' \<subseteq> set sts \<and> (wf_ids sts \<longrightarrow> wf_ids sts')"

lemma shrinks_refl [simp]: "shrinks sts sts"
  by (simp add: shrinks_def)

lemma shrinks_trans: "shrinks a b \<Longrightarrow> shrinks b c \<Longrightarrow> shrinks a c"
  by (auto simp: shrinks_def)

lemma shrinks_splice: "shrinks sts (js_splice i m sts)"
proof -
  have "distinct xs \<Longrightarrow> distinct (take s xs @ drop (s + m) xs)" for xs :: "js list" and s
    by (auto simp: set_take_disj_set_drop_if_distinct)
  from this [of "map state_id sts"] show ?thesis
    by (auto simp: shrinks_def wf_ids_def js_splice_def Let_def take_map drop_map dest: in_set_takeD in_set_dropD)
qed

lemma remove_shrinks:
  "remove n s sts = Some sts' \<Longrightarrow> shrinks sts sts'"
  "remove_next n ts sts = Some sts' \<Longrightarrow> shrinks sts sts'"
proof (induction n s sts and n ts sts arbitrary: sts' and sts' rule: remove_remove_next.induct)
  case (2 n s sts)
  then obtain sts1 where "remove_next n (getNextTransitions s) sts = Some sts1"
    and "sts' = js_splice (js_findIndex (\<lambda>x. js_seq (state_id x) (state_id s)) sts1) 1 sts1"
    by (auto split: Option.bind_splits)
  then show ?case using 2 shrinks_splice shrinks_trans by metis
next
  case (4 n t ts sts)
  show ?case
  proof (cases "getState (transition_target t) sts")
    case None
    then show ?thesis using 4 by simp
  next
    case (Some c)
    then obtain sts1 where "remove n c sts = Some sts1" "remove_next n ts sts1 = Some sts'"
      using 4 by (auto split: Option.bind_splits)
    then show ?thesis using 4 Some shrinks_trans by metis
  qed
qed simp_all

lemma remove_each_shrinks: "remove_each n fs sts = Some sts' \<Longrightarrow> shrinks sts sts'"
proof (induction fs arbitrary: sts)
  case (Cons f fs)
  then obtain sts1 where "remove n f sts = Some sts1" "remove_each n fs sts1 = Some sts'"
    by (auto split: Option.bind_splits)
  then show ?case using Cons remove_shrinks(1) shrinks_trans by metis
qed simp

lemma removeByNames_shrinks: "removeByNames n names sts = Some sts' \<Longrightarrow> shrinks sts sts'"
  unfolding removeByNames_def by (rule remove_each_shrinks)

lemma update_state_ids: "(\<And>s. js_seq (state_id s) k \<Longrightarrow> state_id (f s) = state_id s) \<Longrightarrow>
    map state_id (update_state k f sts) = map state_id sts"
  by (induction sts) auto

lemma length_update_state [simp]: "length (update_state k f sts) = length sts"
  by (induction sts) auto

lemma drop_states_wf:
  assumes "drop_states n k c sts = Some sts'" and "wf_ids sts" and "is_prim (state_id c)"
    and "state_id c \<notin> state_id ` set sts"
  shows "wf_ids sts' \<and> length sts' \<le> length sts + 1"
proof -
  have snoc: "wf_ids xs \<Longrightarrow> state_id c \<notin> state_id ` set xs \<Longrightarrow> wf_ids (xs @ [c])" for xs
    using assms(3) by (auto simp: wf_ids_def)
  show ?thesis
  proof (cases "getState k sts")
    case None
    then show ?thesis using assms snoc by (auto simp: drop_states_def)
  next
    case (Some p)
    obtain old p' where t: "tryAddTransition (state_id c) p = (old, p')" by fastforce
    have pid: "state_id p' = state_id p" using tryAdd_id [of "state_id c" p] t by simp
    have "state_id p = k" using Some by (auto simp: getState_def js_seq_def dest: find_Some_set)
    then have ids: "map state_id (update_state k (\<lambda>_. p') sts) = map state_id sts"
      using pid by (intro update_state_ids) (auto simp: js_seq_def)
    obtain sts2 where "shrinks (update_state k (\<lambda>_. p') sts) sts2" and eq: "sts' = sts2 @ [c]"
      using assms(1) Some t
      by (auto simp: drop_states_def Let_def split: Option.bind_splits if_splits dest: removeByNames_shrinks)
    moreover have "length (update_state k (\<lambda>_. p') sts) = length sts"
      "state_id ` set (update_state k (\<lambda>_. p') sts) = state_id ` set sts"
      using arg_cong [OF ids, of length] arg_cong [OF ids, of set] by simp_all
    ultimately have "wf_ids sts2" "state_id ` set sts2 \<subseteq> state_id ` set sts" "length sts2 \<le> length sts"
      using assms(2) wf_ids_ids [OF ids] image_mono [of "set sts2" "set (update_state k (\<lambda>_. p') sts)" state_id]
      by (simp_all add: shrinks_def)
    moreover from this have "state_id c \<notin> state_id ` set sts2" using assms(4) by blast
    ultimately show ?thesis using snoc eq by simp
  qed
qed

text \<open>
  The events of the page. The premises say what the surroundings provide: a loaded document has
  distinct ids, an instance marked as failed has a failed history entry, a generated id is not yet in
  use, an event comes from an element that exists, and the call stack is deeper than the document.
\<close>

inductive editor_step :: "diagram \<Rightarrow> diagram \<Rightarrow> bool" where
  load: "wf_ids (m_states m) \<Longrightarrow> length (m_states m) < n \<Longrightarrow> set_stateMachine tm n m d = Some d' \<Longrightarrow> editor_step d d'"
| watch: "instance_ok (d\<lparr>d_instance := sts\<rparr>) \<Longrightarrow> length (m_states (d_model d)) < n \<Longrightarrow>
    set_stateMachineInstance tm n sts d = Some d' \<Longrightarrow> editor_step d d'"
| drop: "zi < length (d_zones d) \<Longrightarrow> JStr (buildId rnd) \<notin> state_id ` set (m_states (d_model d)) \<Longrightarrow>
    length (m_states (d_model d)) + 1 < n \<Longrightarrow> onDrop tm n rnd ty zi d = Some d' \<Longrightarrow> editor_step d d'"
| drop_start: "1 < n \<Longrightarrow> onDropCircleStart tm n rnd ty d = Some d' \<Longrightarrow> editor_step d d'"
| remove_node: "i < length (d_nodes d) \<Longrightarrow> length (m_states (d_model d)) < n \<Longrightarrow>
    removeNode tm n i d = Some d' \<Longrightarrow> editor_step d d'"
| set_default: "i < length (d_labels d) \<Longrightarrow> length (m_states (d_model d)) < n \<Longrightarrow>
    setDefaultCondition tm n i d = Some d' \<Longrightarrow> editor_step d d'"
| updated: "length (m_states (d_model d)) < n \<Longrightarrow> emit_updated tm n k d = Some d' \<Longrightarrow> editor_step d d'"
| select_state: "i < length (d_nodes d) \<Longrightarrow> editor_step d (selectState i d)"
| select_label: "i < length (d_labels d) \<Longrightarrow> editor_step d (selectLabel i d)"
| close: "editor_step d (closePanel d)"
| drag_over: "zi < length (d_zones d) \<Longrightarrow> editor_step d (onDragOver zi d)"
| drag_leave: "zi < length (d_zones d) \<Longrightarrow> editor_step d (onDragLeave zi d)"
| drag_over_start: "editor_step d (onDragOverCircleStart d)"
| drag_leave_start: "editor_step d (onDragLeaveCircleStart d)"
| view_init: "editor_step d (ngAfterViewInit w h d)"
| zoom_in: "editor_step d (zoomIn d)"
| zoom_out: "editor_step d (zoomOut d)"
| move: "editor_step d (startMove d)"
| edit: "editor_step d (startEdit d)"
| mouse_down: "editor_step d (onmousedown x y d)"
| mouse_move: "editor_step d (onmousemove x y d)"
| mouse_up: "editor_step d (onmouseup d)"
| window_up: "editor_step d (handleMouseUp d)"

inductive editor_reachable :: "diagram \<Rightarrow> bool" where
  start: "editor_reachable new_StateDiagram"
| step: "editor_reachable d \<Longrightarrow> editor_step d d' \<Longrightarrow> editor_reachable d'"

definition editor_inv :: "diagram \<Rightarrow> bool" where
  "editor_inv d \<longleftrightarrow> wf_ids (m_states (d_model d)) \<and> instance_ok d \<and> shape d \<and>
     (d_selectedState d = None \<or> d_selectedTransition d = None)"

lemma refreshUI_inv:
  assumes "refreshUI tm n d = Some d'" and "editor_inv d" and "length (m_states (d_model d)) < n"
  shows "editor_inv d' \<and> d_model d' = d_model d"
proof (cases "truthy (m_id (d_model d))")
  case True
  then have "ready n d" using assms by (simp add: ready_def editor_inv_def)
  from ready_spec [OF this, of tm] assms(1,2) show ?thesis
    by (auto simp: editor_inv_def ready_def selections_def)
next
  case False
  then show ?thesis using assms by (simp add: refreshUI_def)
qed

text \<open>The invariant depends on these fields only.\<close>

lemma editor_inv_cong:
  "m_states (d_model d') = m_states (d_model d) \<Longrightarrow> d_instance d' = d_instance d \<Longrightarrow> shape d' = shape d \<Longrightarrow>
   selections d' = selections d \<or> selections d' = (None, None) \<Longrightarrow> editor_inv d \<Longrightarrow> editor_inv d'"
  by (auto simp: editor_inv_def instance_ok_def selections_def)

lemma closePanel_inv: "editor_inv d \<Longrightarrow> editor_inv (closePanel d)"
  by (erule editor_inv_cong [rotated 4]) (simp_all add: closePanel_def selections_def shape_def)

lemma set_states_inv: "editor_inv d \<Longrightarrow> wf_ids sts \<Longrightarrow> editor_inv (set_states sts d)"
  by (auto simp: editor_inv_def instance_ok_def shape_def)

lemma set_anchor_inv: "i < length (d_zones d) \<Longrightarrow> editor_inv d \<Longrightarrow> editor_inv (set_anchor (dz_anchor (d_zones d ! i)) b d)"
proof (erule editor_inv_cong [rotated 4])
  have "map an_node ((d_anchors d)[j := (d_anchors d ! j)\<lparr>an_selected := b\<rparr>]) = map an_node (d_anchors d)" for j
    by (simp add: map_update) (metis list_update_id map_update)
  then show "shape (set_anchor (dz_anchor (d_zones d ! i)) b d) = shape d"
    by (simp add: shape_def set_anchor_def)
qed simp_all

lemma refresh_times_inv:
  "refresh_times tm n c d = Some d' \<Longrightarrow> editor_inv d \<Longrightarrow> length (m_states (d_model d)) < n \<Longrightarrow> editor_inv d'"
proof (induction c arbitrary: d)
  case (Suc c)
  then obtain d1 where d1: "refreshUI tm n d = Some d1" "refresh_times tm n c d1 = Some d'"
    by (auto split: Option.bind_splits)
  have "editor_inv d1 \<and> d_model d1 = d_model d" by (rule refreshUI_inv [OF d1(1) Suc.prems(2,3)])
  then show ?case using Suc.IH [OF d1(2)] Suc.prems(3) by simp
qed simp

lemma onDrop_inv:
  assumes "onDrop tm n rnd ty zi d = Some d'" and inv: "editor_inv d" and "zi < length (d_zones d)"
    and fresh: "JStr (buildId rnd) \<notin> state_id ` set (m_states (d_model d))"
    and n: "length (m_states (d_model d)) + 1 < n"
  shows "editor_inv d'"
proof (cases "d_startMoving d \<or> new_child ty (JStr (buildId rnd)) = None")
  case True
  then show ?thesis using assms(1) inv set_anchor_inv [OF assms(3) inv]
    by (auto simp: onDrop_def Let_def split: if_splits)
next
  case False
  let ?d1 = "set_anchor (dz_anchor (d_zones d ! zi)) False d"
  from False obtain c where c: "new_child ty (JStr (buildId rnd)) = Some c" by auto
  have cid: "state_id c = JStr (buildId rnd)" using new_child_props [OF c] by simp
  obtain sts d2 where sts: "drop_states n (nd_state (d_nodes d ! dz_node (d_zones d ! zi))) c (m_states (d_model d)) = Some sts"
    and d2: "refreshUI tm n (set_states sts ?d1) = Some d2" "d' = closePanel d2"
    using assms(1) False c by (auto simp: onDrop_def Let_def split: Option.bind_splits)
  have wf: "wf_ids sts \<and> length sts \<le> length (m_states (d_model d)) + 1"
    using drop_states_wf [OF sts] inv cid fresh by (simp add: editor_inv_def)
  have "editor_inv (set_states sts ?d1)" using wf set_states_inv [OF set_anchor_inv [OF assms(3) inv]] by simp
  then show ?thesis using refreshUI_inv [OF d2(1)] wf n d2(2) closePanel_inv by simp
qed

lemma onDropCircleStart_inv:
  assumes "onDropCircleStart tm n rnd ty d = Some d'" and inv: "editor_inv d" and "1 < n"
  shows "editor_inv d'"
proof (cases "d_startMoving d \<or> new_child ty (JStr (buildId rnd)) = None")
  case True
  then have "d' = d\<lparr>d_circleStartSelected := False\<rparr>"
    using assms(1) by (auto simp: onDropCircleStart_def Let_def split: if_splits)
  then show ?thesis using inv by (auto simp: editor_inv_def instance_ok_def shape_def)
next
  case False
  from False obtain c where c: "new_child ty (JStr (buildId rnd)) = Some c" by auto
  have "is_prim (state_id c)" using new_child_props [OF c] by simp
  then have "editor_inv (d\<lparr>d_circleStartSelected := False, d_model := (d_model d)
      \<lparr>m_start := map_option (\<lambda>st. st\<lparr>sta_stateName := state_id c\<rparr>) (m_start (d_model d)), m_states := [c]\<rparr>\<rparr>)"
    using inv by (auto simp: editor_inv_def instance_ok_def shape_def wf_ids_def)
  then show ?thesis using assms(1,3) False c
    by (auto simp: onDropCircleStart_def Let_def split: Option.bind_splits intro!: closePanel_inv dest!: refreshUI_inv)
qed

lemma removeNode_inv:
  assumes "removeNode tm n i d = Some d'" and inv: "editor_inv d" and n: "length (m_states (d_model d)) < n"
  shows "editor_inv d'"
proof -
  have wf: "wf_ids (m_states (d_model d))" using inv by (simp add: editor_inv_def)
  have upd: "wf_ids (update_state k (setTransitions ts) sts) \<longleftrightarrow> wf_ids sts"
    "length (update_state k (setTransitions ts) sts) = length sts" for k ts sts
    using wf_ids_ids [OF update_state_ids, of k "setTransitions ts" sts]
      arg_cong [OF update_state_ids, of k "setTransitions ts" length sts] by simp_all
  have ok: "editor_inv d2" if "remove n s (m_states (d_model d)) = Some sts" "refreshUI tm n (set_states sts' d) = Some d2"
    "sts' = sts \<or> (\<exists>k ts. sts' = update_state k (setTransitions ts) sts)" for s sts sts' d2
  proof -
    have "shrinks (m_states (d_model d)) sts" using remove_shrinks(1) [OF that(1)] .
    then have "wf_ids sts'" "length sts' < n" using that(3) wf n upd by (auto simp: shrinks_def)
    then show ?thesis using refreshUI_inv [OF that(2)] set_states_inv [OF inv] by simp
  qed
  show ?thesis using assms(1) inv
    by (auto simp: removeNode_def Let_def split: if_splits option.splits Option.bind_splits
        intro!: closePanel_inv intro: ok)
qed

lemma setDefault_inv:
  assumes "setDefaultCondition tm n i d = Some d'" and inv: "editor_inv d" and n: "length (m_states (d_model d)) < n"
  shows "editor_inv d'"
proof -
  have "\<exists>k w r t d1. getState k (m_states (d_model d)) = Some (Switch w) \<and>
      refreshUI tm n (set_states (update_state k (\<lambda>_. Switch (swichTransitionToDefault r t w)) (m_states (d_model d))) d) =
        Some d1 \<and> d' = d1\<lparr>d_selectedTransition := None\<rparr>"
    using assms(1)
    by (auto simp: setDefaultCondition_def Let_def split: option.splits sm_state.splits Option.bind_splits) blast
  then obtain k w r t d1 where k: "getState k (m_states (d_model d)) = Some (Switch w)"
    and d1: "refreshUI tm n (set_states (update_state k (\<lambda>_. Switch (swichTransitionToDefault r t w)) (m_states (d_model d))) d) = Some d1"
    and d': "d' = d1\<lparr>d_selectedTransition := None\<rparr>" by blast
  define w' where "w' = swichTransitionToDefault r t w"
  have w': "st_id w' = st_id w"
    by (simp add: w'_def swichTransitionToDefault_def removeTransition_def sw_tryAddTransition_def Let_def
        split: option.split)
  note d1 = d1 [folded w'_def]
  let ?sts = "update_state k (\<lambda>_. Switch w') (m_states (d_model d))"
  have "st_id w = k" using k by (auto simp: getState_def js_seq_def dest: find_Some_set)
  then have ids: "map state_id ?sts = map state_id (m_states (d_model d))"
    using w' by (intro update_state_ids) (auto simp: js_seq_def)
  then have "wf_ids ?sts" "length ?sts < n"
    using inv n wf_ids_ids [OF ids] by (simp_all add: editor_inv_def)
  then have "editor_inv d1" using refreshUI_inv [OF d1] set_states_inv [OF inv] by simp
  then show ?thesis unfolding d' by (auto simp: editor_inv_def instance_ok_def shape_def)
qed

text \<open>Handlers that touch neither the document nor the arrays.\<close>

lemmas plain_handler_defs = onDragOverCircleStart_def onDragLeaveCircleStart_def ngAfterViewInit_def
  zoomIn_def zoomOut_def zoom_def startMove_def startEdit_def onmousedown_def onmousemove_def onmouseup_def
  handleMouseUp_def

lemma labels_shape:
  "map el_edge ls = map el_edge (d_labels d) \<Longrightarrow> shape (d\<lparr>d_labels := ls\<rparr>) = shape d"
  by (simp add: shape_def)

lemma selectState_inv: "editor_inv d \<Longrightarrow> editor_inv (selectState i d)"
  by (auto simp: selectState_def unselect_labels_def editor_inv_def instance_ok_def shape_def o_def)

lemma selectLabel_inv: "i < length (d_labels d) \<Longrightarrow> editor_inv d \<Longrightarrow> editor_inv (selectLabel i d)"
proof -
  assume "i < length (d_labels d)" and inv: "editor_inv d"
  let ?ls = "map (\<lambda>l. l\<lparr>el_selected := False\<rparr>) (d_labels d)"
  have ls: "map el_edge (?ls[i := (?ls ! i)\<lparr>el_selected := b\<rparr>]) = map el_edge (d_labels d)" for b
  proof -
    have "map el_edge (xs[i := (xs ! i)\<lparr>el_selected := b\<rparr>]) = map el_edge xs" for xs :: "edge_label list"
      by (simp add: map_update) (metis list_update_id map_update)
    from this [of ?ls] show ?thesis by (simp add: o_def)
  qed
  show ?thesis using inv ls [of "\<not> el_selected (?ls ! i)"]
    by (simp add: selectLabel_def unselect_labels_def Let_def editor_inv_def instance_ok_def shape_def)
qed

lemma editor_step_inv: "editor_step d d' \<Longrightarrow> editor_inv d \<Longrightarrow> editor_inv d'"
proof (induction rule: editor_step.induct)
  case (load m n tm d d')
  have "editor_inv (d\<lparr>d_model := m, d_subs := \<lambda>_. 0\<rparr>)"
    using load by (auto simp: editor_inv_def instance_ok_def shape_def)
  then show ?case using load refreshUI_inv [of tm n "d\<lparr>d_model := m, d_subs := \<lambda>_. 0\<rparr>" d']
    by (simp add: set_stateMachine_def)
next
  case (watch sts d n tm d')
  have "editor_inv (d\<lparr>d_instance := sts\<rparr>)"
    using watch by (auto simp: editor_inv_def instance_ok_def shape_def)
  then show ?case using watch refreshUI_inv [of tm n "d\<lparr>d_instance := sts\<rparr>" d']
    by (simp add: set_stateMachineInstance_def)
next
  case (updated d n tm k d')
  then show ?case by (simp add: emit_updated_def refresh_times_inv)
qed (auto simp: onDrop_inv onDropCircleStart_inv removeNode_inv setDefault_inv selectState_inv selectLabel_inv
    closePanel_inv onDragOver_def onDragLeave_def set_anchor_inv,
    auto simp: plain_handler_defs editor_inv_def instance_ok_def shape_def split: prod.split)

text \<open>
  C9. Whatever the user does, in any order: the ids of the document stay distinct, there is exactly
  one node per displayed state with its anchor and drop zone, edges and labels refer to existing
  nodes and edges, and the panel never shows a state and a transition at the same time.
\<close>

theorem editor_invariant:
  assumes "editor_reachable d"
  shows "wf_ids (m_states (d_model d)) \<and> shape d \<and> (d_selectedState d = None \<or> d_selectedTransition d = None)"
proof -
  have "editor_inv d" using assms
  proof induction
    case start
    show ?case by (simp add: editor_inv_def new_StateDiagram_def wf_ids_def instance_ok_def shape_def new_StateMachineModel_def)
  next
    case (step d d')
    then show ?case by (blast intro: editor_step_inv)
  qed
  then show ?thesis by (simp add: editor_inv_def)
qed

theorem editor_invariant_witness:
  "\<exists>d. editor_reachable d \<and> m_states (d_model d) = example_pair \<and> shape d"
proof -
  let ?m = "d_model (diagram_for ''a'' example_pair)"
  have wf: "wf_ids (m_states ?m)" "length (m_states ?m) < 6" by (simp_all add: wf_ids_def example_pair_def)
  have "ready 6 (new_StateDiagram\<lparr>d_model := ?m, d_subs := \<lambda>_. 0\<rparr>)"
    using wf by (simp add: ready_def instance_ok_def) (simp add: diagram_for_def new_StateDiagram_def)
  from ready_spec [OF this, of "\<lambda>_. 0"] obtain d where
    d: "set_stateMachine (\<lambda>_. 0) 6 ?m new_StateDiagram = Some d" "d_model d = ?m"
    by (auto simp: set_stateMachine_def)
  have r: "editor_reachable d"
    by (rule editor_reachable.step [OF editor_reachable.start editor_step.load [OF wf d(1)]])
  then show ?thesis using editor_invariant [OF r] d(2) by auto
qed

text \<open>
  While the diagram is in the mode for moving the view, no drop, removal or selection changes
  the document, the selection or the nodes.
\<close>

theorem moving_mode_is_read_only:
  assumes "d_startMoving d"
  shows "onDrop tm n rnd ty zi d = Some d \<and> removeNode tm n i d = Some d \<and> selectState i d = d \<and>
    onDropCircleStart tm n rnd ty d = Some (d\<lparr>d_circleStartSelected := False\<rparr>) \<and>
    onDragOver zi d = d \<and> onDragLeave zi d = d"
  using assms
  by (simp add: onDrop_def removeNode_def selectState_def onDropCircleStart_def onDragOver_def onDragLeave_def)

theorem moving_mode_is_read_only_witness:
  "removeNode (\<lambda>_. 0) 6 0 (startMove example_shown) = Some (startMove example_shown)"
  using moving_mode_is_read_only [of "startMove example_shown"] by (simp add: startMove_def)

text \<open>
  Dragging the view moves the view box by exactly the distance of the mouse, against its
  direction, and keeps its size; zooming in after zooming out restores the view box.
\<close>

theorem pan_and_zoom:
  assumes "d_startMoving d" and "d_viewBox d = (x, y, w, h)"
  shows "d_viewBox (onmousemove (mx + dx) (my + dy) (onmousedown mx my d)) = (x - dx, y - dy, w, h) \<and>
    d_viewBox (zoomIn (zoomOut d)) = d_viewBox d \<and> d_viewBox (zoomOut (zoomIn d)) = d_viewBox d"
  using assms by (simp add: onmousemove_def onmousedown_def zoomIn_def zoomOut_def zoom_def)

theorem pan_and_zoom_witness:
  "d_viewBox (onmousemove (5 + 3) (5 + 4) (onmousedown 5 5 (startMove new_StateDiagram))) = (- 3, - 4, 1, 1)"
  using pan_and_zoom [of "startMove new_StateDiagram" 0 0 1 1 5 3 5 4]
  by (simp add: startMove_def new_StateDiagram_def)

end
