(* ===== verification/Async_Builder.thy ===== *)
theory Async_Builder
  imports Js_Prelude
begin

text \<open>
  \<open>AsyncApiBuilder\<close> (components/asyncapi-editor/builders/asyncapibuilder.ts): the AsyncAPI document
  of an application from the links it publishes on and the links it consumes. \<open>None\<close> is a
  \<open>TypeError\<close>, or the \<open>SyntaxError\<close> of \<open>JSON.parse\<close>, which is the parameter \<open>parse\<close>.
\<close>

section \<open>Applications, links and messages\<close>

text \<open>The target of a link is an application, of which the code reads the id only.\<close>

record application_link =
  al_topicName :: string
  al_messageId :: js
  al_target :: "js option"
  al_startAnchor :: nat
  al_endAnchor :: nat

definition new_ApplicationLinkResult :: application_link where
  "new_ApplicationLinkResult = \<lparr>al_topicName = '''', al_messageId = Null, al_target = None,
     al_startAnchor = 0, al_endAnchor = 0\<rparr>"

record message_definition =
  md_id :: js
  md_name :: string
  md_description :: js
  md_version :: js
  md_createDateTime :: js
  md_updateDateTime :: js
  md_jsonSchema :: string

section \<open>The builder\<close>

definition buildInfo :: "js \<Rightarrow> js \<Rightarrow> js \<Rightarrow> js" where
  "buildInfo title version description =
     JObj (put_truthy ''description'' description (put_truthy ''version'' version
       (put_truthy ''title'' title [(''version'', JStr ''0.0.1'')])))"

definition find_message :: "js \<Rightarrow> message_definition list \<Rightarrow> message_definition option" where
  "find_message i msgs = js_filter0 (\<lambda>m. js_seq (md_id m) i) msgs"

fun buildMessages ::
    "(string \<Rightarrow> js res) \<Rightarrow> message_definition list \<Rightarrow> application_link list \<Rightarrow> (string \<times> js) list \<Rightarrow> (string \<times> js) list res" where
  "buildMessages parse msgs [] result = Some result"
| "buildMessages parse msgs (l # links) result =
     (if \<not> truthy (al_messageId l) then buildMessages parse msgs links result
      else case find_message (al_messageId l) msgs of
             None \<Rightarrow> buildMessages parse msgs links result
           | Some m \<Rightarrow>
               (if md_name m \<in> fst ` set result then buildMessages parse msgs links result
                else do {
                  payload \<leftarrow> parse (md_jsonSchema m);
                  buildMessages parse msgs links (AList.update (md_name m) (JObj [(''payload'', payload)]) result)
                }))"

definition ref_to :: "string \<Rightarrow> js" where
  "ref_to name = JObj [(''message'', JObj [(''$ref'', JStr (''#/components/messages/'' @ name))])]"

fun buildChannels ::
    "string \<Rightarrow> bool \<Rightarrow> message_definition list \<Rightarrow> application_link list \<Rightarrow> (string \<times> js) list \<Rightarrow> (string \<times> js) list res" where
  "buildChannels rootTopic isSubscribe msgs [] result = Some result"
| "buildChannels rootTopic isSubscribe msgs (l # links) result =
     (if \<not> truthy (al_messageId l) then buildChannels rootTopic isSubscribe msgs links result
      else case find_message (al_messageId l) msgs of
             None \<Rightarrow> TypeError
           | Some m \<Rightarrow>
               buildChannels rootTopic isSubscribe msgs links
                 (AList.update (rootTopic @ ''/'' @ al_topicName l)
                   (JObj [(if isSubscribe then ''subscribe'' else ''publish'', ref_to (md_name m))]) result))"

text \<open>The application is given by its title, version, description and links.\<close>

definition build_document ::
    "(string \<Rightarrow> js res) \<Rightarrow> string \<Rightarrow> js \<Rightarrow> js \<Rightarrow> js \<Rightarrow> application_link list \<Rightarrow> application_link list \<Rightarrow>
     message_definition list \<Rightarrow> js res" where
  "build_document parse rootTopic title version description links consumedLinks msgs = do {
     c1 \<leftarrow> buildChannels rootTopic False msgs links [];
     channels \<leftarrow> buildChannels rootTopic True msgs consumedLinks c1;
     m1 \<leftarrow> buildMessages parse msgs links [];
     messages \<leftarrow> buildMessages parse msgs consumedLinks m1;
     Some (JObj (put_if (messages \<noteq> []) ''components'' (JObj [(''messages'', JObj messages)])
       (put_if (channels \<noteq> []) ''channels'' (JObj channels)
         [(''asyncapi'', JStr ''2.2.0''), (''info'', buildInfo title version description)])))
   }"

section \<open>References resolve\<close>

definition names_of :: "message_definition list \<Rightarrow> application_link list \<Rightarrow> string set" where
  "names_of msgs links = {md_name m | l m. l \<in> set links \<and> truthy (al_messageId l) \<and> find_message (al_messageId l) msgs = Some m}"

definition channel_refs :: "(string \<times> js) list \<Rightarrow> string set \<Rightarrow> bool" where
  "channel_refs channels names \<longleftrightarrow> (\<forall>(t, c) \<in> set channels. \<exists>k n. c = JObj [(k, ref_to n)] \<and> n \<in> names)"

lemma names_of_Cons:
  "names_of msgs (l # links) = (if truthy (al_messageId l) then case find_message (al_messageId l) msgs of
     None \<Rightarrow> {} | Some m \<Rightarrow> {md_name m} else {}) \<union> names_of msgs links"
  by (auto simp: names_of_def split: option.splits)

lemma buildMessages_keys:
  "buildMessages parse msgs links result = Some r \<Longrightarrow> fst ` set r = fst ` set result \<union> names_of msgs links"
proof (induction parse msgs links result rule: buildMessages.induct)
  case (1 parse msgs result)
  then show ?case by (simp add: names_of_def)
next
  case (2 parse msgs l links result)
  show ?case
  proof (cases "truthy (al_messageId l)")
    case True
    then show ?thesis using 2
      by (auto simp: names_of_Cons dom_update split: option.splits if_splits Option.bind_splits)
  qed (use 2 in \<open>simp add: names_of_Cons\<close>)
qed

lemma update_set: "set (AList.update k v xs) \<subseteq> insert (k, v) (set xs)"
  by (induction xs) auto

lemma channel_refs_update:
  "channel_refs xs N \<Longrightarrow> n \<in> N \<Longrightarrow> channel_refs (AList.update t (JObj [(k, ref_to n)]) xs) N"
  unfolding channel_refs_def using update_set [of t "JObj [(k, ref_to n)]" xs] by blast

lemma buildChannels_refs:
  "buildChannels rt b msgs links result = Some r \<Longrightarrow> channel_refs result N \<Longrightarrow> names_of msgs links \<subseteq> N \<Longrightarrow> channel_refs r N"
proof (induction rt b msgs links result rule: buildChannels.induct)
  case (2 rt b msgs l links result)
  show ?case
  proof (cases "truthy (al_messageId l)")
    case True
    then obtain m where m: "find_message (al_messageId l) msgs = Some m" using 2 by (auto split: option.splits)
    let ?r = "AList.update (rt @ ''/'' @ al_topicName l) (JObj [(if b then ''subscribe'' else ''publish'', ref_to (md_name m))]) result"
    have "md_name m \<in> N" using "2.prems"(3) True m by (simp add: names_of_Cons)
    then have "channel_refs ?r N" using "2.prems"(2) channel_refs_update by blast
    then show ?thesis using 2 True m by (auto simp: names_of_Cons)
  next
    case False
    then show ?thesis using 2 by (simp add: names_of_Cons)
  qed
qed simp

text \<open>
  C23. A document that the builder returns is closed: every channel refers to a message that the
  document defines.
\<close>

theorem asyncapi_references_resolve:
  assumes "build_document parse rootTopic title version description links consumed msgs = Some (JObj doc)"
  shows "obj_lookup doc ''channels'' = Undef \<or>
    (\<exists>channels messages. obj_lookup doc ''channels'' = JObj channels \<and>
       obj_lookup doc ''components'' = JObj [(''messages'', JObj messages)] \<and>
       channel_refs channels (fst ` set messages))"
proof -
  obtain c1 channels m1 messages where
    c: "buildChannels rootTopic False msgs links [] = Some c1" "buildChannels rootTopic True msgs consumed c1 = Some channels"
    and m: "buildMessages parse msgs links [] = Some m1" "buildMessages parse msgs consumed m1 = Some messages"
    and d: "doc = put_if (messages \<noteq> []) ''components'' (JObj [(''messages'', JObj messages)])
       (put_if (channels \<noteq> []) ''channels'' (JObj channels)
         [(''asyncapi'', JStr ''2.2.0''), (''info'', buildInfo title version description)])"
    using assms by (auto simp: build_document_def split: Option.bind_splits)
  have keys: "fst ` set messages = names_of msgs links \<union> names_of msgs consumed"
    using buildMessages_keys [OF m(1)] buildMessages_keys [OF m(2)] by auto
  have "channel_refs c1 (fst ` set messages)"
    by (rule buildChannels_refs [OF c(1)]) (use keys in \<open>simp_all add: channel_refs_def\<close>)
  then have refs: "channel_refs channels (fst ` set messages)"
    by (rule buildChannels_refs [OF c(2)]) (use keys in simp)
  show ?thesis
  proof (cases "channels = []")
    case True
    then show ?thesis using d by simp
  next
    case False
    then have "messages \<noteq> []" using refs by (cases channels) (auto simp: channel_refs_def)
    then show ?thesis using d False refs by simp
  qed
qed

definition example_msg :: message_definition where
  "example_msg = \<lparr>md_id = JStr ''1'', md_name = ''order'', md_description = JStr '''', md_version = JNum 0,
     md_createDateTime = Null, md_updateDateTime = Null, md_jsonSchema = ''{}''\<rparr>"

definition example_link :: application_link where
  "example_link = new_ApplicationLinkResult\<lparr>al_topicName := ''t'', al_messageId := JStr ''1''\<rparr>"

definition example_document :: js where
  "example_document = the (build_document (\<lambda>_. Some (JObj [])) ''root'' (JStr ''app'') Undef Undef [example_link] [] [example_msg])"

theorem asyncapi_references_resolve_witness:
  "\<exists>doc channels messages. example_document = JObj doc \<and> obj_lookup doc ''channels'' = JObj channels \<and>
     obj_lookup doc ''components'' = JObj [(''messages'', JObj messages)] \<and> channel_refs channels (fst ` set messages)"
proof -
  have "build_document (\<lambda>_. Some (JObj [])) ''root'' (JStr ''app'') Undef Undef [example_link] [] [example_msg] = Some example_document"
    by (simp add: example_document_def build_document_def example_link_def new_ApplicationLinkResult_def example_msg_def find_message_def)
  moreover obtain doc where doc: "example_document = JObj doc" "obj_lookup doc ''channels'' \<noteq> Undef"
    by (simp add: example_document_def build_document_def example_link_def new_ApplicationLinkResult_def example_msg_def find_message_def)
  ultimately show ?thesis using asyncapi_references_resolve [of "\<lambda>_. Some (JObj [])" "''root''" "JStr ''app''" Undef Undef "[example_link]" "[]" "[example_msg]" doc] by auto
qed

text \<open>The links that carry a message on a topic, and the channel object that one of them makes\<close>

definition on_topic :: "string \<Rightarrow> application_link list \<Rightarrow> application_link list" where
  "on_topic topic links = filter (\<lambda>l. truthy (al_messageId l) \<and> al_topicName l = topic) links"

definition channel_for :: "bool \<Rightarrow> message_definition list \<Rightarrow> application_link \<Rightarrow> js" where
  "channel_for isSubscribe msgs l =
     JObj [(if isSubscribe then ''subscribe'' else ''publish'', ref_to (md_name (the (find_message (al_messageId l) msgs))))]"

lemma buildChannels_lookup:
  "buildChannels rt b msgs links result = Some r \<Longrightarrow>
   map_of r (rt @ ''/'' @ topic) = (if on_topic topic links = [] then map_of result (rt @ ''/'' @ topic)
     else Some (channel_for b msgs (last (on_topic topic links))))"
proof (induction rt b msgs links result rule: buildChannels.induct)
  case (2 rt b msgs l links result)
  show ?case
  proof (cases "truthy (al_messageId l)")
    case True
    then obtain m where m: "find_message (al_messageId l) msgs = Some m" using 2 by (auto split: option.splits)
    then have "buildChannels rt b msgs links (AList.update (rt @ ''/'' @ al_topicName l) (channel_for b msgs l) result) = Some r"
      using "2.prems" True by (simp add: channel_for_def)
    then show ?thesis using "2.IH"(2) [OF _ m] True by (auto simp: on_topic_def channel_for_def m update_conv')
  next
    case False
    then show ?thesis using 2 by (simp add: on_topic_def)
  qed
qed (simp add: on_topic_def)

text \<open>
  C24. In a document that the builder returns, a topic that the application consumes has the
  subscription of the last link on it and nothing else: a publication on the same topic is replaced.
  A topic it only publishes on has the publication of the last link, and other topics have no channel.
\<close>

theorem channel_of_topic:
  assumes "build_document parse rootTopic title version description links consumed msgs = Some (JObj doc)"
  shows "(case obj_lookup doc ''channels'' of JObj channels \<Rightarrow> map_of channels (rootTopic @ ''/'' @ topic) | _ \<Rightarrow> None) =
    (if on_topic topic consumed \<noteq> [] then Some (channel_for True msgs (last (on_topic topic consumed)))
     else if on_topic topic links \<noteq> [] then Some (channel_for False msgs (last (on_topic topic links)))
     else None)"
proof -
  obtain c1 channels messages where
    c: "buildChannels rootTopic False msgs links [] = Some c1" "buildChannels rootTopic True msgs consumed c1 = Some channels"
    and d: "doc = put_if (messages \<noteq> []) ''components'' (JObj [(''messages'', JObj messages)])
       (put_if (channels \<noteq> []) ''channels'' (JObj channels)
         [(''asyncapi'', JStr ''2.2.0''), (''info'', buildInfo title version description)])"
    using assms by (auto simp: build_document_def split: Option.bind_splits)
  have "(case obj_lookup doc ''channels'' of JObj channels \<Rightarrow> map_of channels (rootTopic @ ''/'' @ topic) | _ \<Rightarrow> None) =
      map_of channels (rootTopic @ ''/'' @ topic)" using d by (cases "channels = []") auto
  then show ?thesis using buildChannels_lookup [OF c(1), of topic] buildChannels_lookup [OF c(2), of topic] by simp
qed

definition example_loop :: js where
  "example_loop = the (build_document (\<lambda>_. Some (JObj [])) ''root'' (JStr ''app'') Undef Undef [example_link] [example_link] [example_msg])"

theorem channel_of_topic_witness:
  "\<exists>doc. example_loop = JObj doc \<and> (case obj_lookup doc ''channels'' of JObj channels \<Rightarrow> map_of channels ''root/t'' | _ \<Rightarrow> None) =
     Some (JObj [(''subscribe'', ref_to ''order'')])"
proof -
  have l: "build_document (\<lambda>_. Some (JObj [])) ''root'' (JStr ''app'') Undef Undef [example_link] [example_link] [example_msg] = Some example_loop"
    by (simp add: example_loop_def build_document_def example_link_def new_ApplicationLinkResult_def example_msg_def find_message_def)
  obtain doc where doc: "example_loop = JObj doc"
    by (simp add: example_loop_def build_document_def example_link_def new_ApplicationLinkResult_def example_msg_def find_message_def)
  have k: "''root'' @ ''/'' @ ''t'' = ''root/t''" by simp
  have "(case obj_lookup doc ''channels'' of JObj channels \<Rightarrow> map_of channels ''root/t'' | _ \<Rightarrow> None) = Some (JObj [(''subscribe'', ref_to ''order'')])"
    unfolding channel_of_topic [OF l [unfolded doc], of "''t''", unfolded k]
    by (simp add: on_topic_def channel_for_def example_link_def new_ApplicationLinkResult_def example_msg_def find_message_def)
  then show ?thesis using doc by blast
qed

end
