(* ===== verification/Async_Editor.thy ===== *)
theory Async_Editor
  imports Async_Builder Guid
begin

text \<open>
  The application editor (components/asyncapi-editor/asyncapi-editor.component.ts). Links share
  their anchors with the elements they are attached to, and applications are shared between the
  input array and the elements, so the objects live in heaps and refer to each other by address.
  Objects are only ever added to a heap. \<open>None\<close> is a \<open>TypeError\<close>.
\<close>

section \<open>Objects\<close>

record application =
  ap_id :: js
  ap_clientId :: js
  ap_title :: js
  ap_description :: js
  ap_version :: js
  ap_isRoot :: bool
  ap_posX :: rat
  ap_posY :: rat
  ap_links :: "nat list"

definition new_ApplicationResult :: application where
  "new_ApplicationResult = \<lparr>ap_id = JStr '''', ap_clientId = Null, ap_title = JStr '''', ap_description = JStr '''', ap_version = JNum 0,
     ap_isRoot = False, ap_posX = 0, ap_posY = 0, ap_links = []\<rparr>"

record ae_anchor =
  aa_x :: rat
  aa_y :: rat
  aa_direction :: "nat option"
  aa_isSelected :: bool
  aa_isEditable :: bool

definition new_Anchor :: "rat \<Rightarrow> rat \<Rightarrow> nat option \<Rightarrow> ae_anchor" where
  "new_Anchor x y d = \<lparr>aa_x = x, aa_y = y, aa_direction = d, aa_isSelected = False, aa_isEditable = True\<rparr>"

record ae_zone =
  az_x :: rat
  az_y :: rat
  az_width :: rat
  az_height :: rat
  az_anchor :: nat

record ae_element =
  ee_zones :: "ae_zone list"
  ee_isSelected :: bool
  ee_dragOffset :: "(rat \<times> rat) option"
  ee_app :: nat
  ee_width :: rat
  ee_height :: rat

record ae_link =
  lk_id :: string
  lk_start :: nat
  lk_end :: nat
  lk_isSelected :: bool
  lk_startElement :: "nat option"
  lk_endElement :: "nat option"
  lk_applicationLink :: nat

text \<open>\<open>AnchorDirections\<close>\<close>

definition dir_Left :: nat where "dir_Left = 0"
definition dir_Top :: nat where "dir_Top = 1"
definition dir_Right :: nat where "dir_Right = 2"
definition dir_Bottom :: nat where "dir_Bottom = 4"

record editor =
  ae_apps :: "application list"
  ae_alinks :: "application_link list"
  ae_anchors :: "ae_anchor list"
  ae_elts :: "ae_element list"
  ae_lks :: "ae_link list"
  ae_applications :: "nat list"
  ae_elements :: "nat list"
  ae_links :: "nat list"
  ae_startMoving :: bool
  ae_isMoving :: bool
  ae_selAnchorLink :: "(nat \<times> nat \<times> bool \<times> rat \<times> rat) option"
  ae_selAnchorElement :: "(nat \<times> nat) option"
  ae_selLink :: "nat option"
  ae_selElement :: "nat option"
  ae_previousPoint :: "rat \<times> rat"
  ae_previousMouse :: "rat \<times> rat"
  ae_viewBox :: "rat \<times> rat \<times> rat \<times> rat"
  ae_emitted :: "(rat \<times> rat \<times> rat \<times> rat) list"

definition opt_zoom :: rat where "opt_zoom = 20"
definition applicationWidth :: rat where "applicationWidth = 200"
definition applicationHeight :: rat where "applicationHeight = 80"

definition new_Editor :: editor where
  "new_Editor = \<lparr>ae_apps = [], ae_alinks = [], ae_anchors = [], ae_elts = [], ae_lks = [], ae_applications = [],
     ae_elements = [], ae_links = [], ae_startMoving = False, ae_isMoving = False, ae_selAnchorLink = None,
     ae_selAnchorElement = None, ae_selLink = None, ae_selElement = None, ae_previousPoint = (0, 0),
     ae_previousMouse = (0, 0), ae_viewBox = (0, 0, 1, 1), ae_emitted = []\<rparr>"

section \<open>Links\<close>

definition selectionZone :: "editor \<Rightarrow> ae_link \<Rightarrow> rat \<times> rat \<times> rat \<times> rat" where
  "selectionZone s l =
     (let a = ae_anchors s ! lk_start l; b = ae_anchors s ! lk_end l;
          w = aa_x a - aa_x b; h = aa_y a - aa_y b
      in (if aa_x a < aa_x b then aa_x a else aa_x b, if aa_y a < aa_y b then aa_y a else aa_y b,
          if w < 0 then - w else w, if h < 0 then - h else h))"

definition isClosed :: "ae_link \<Rightarrow> bool" where
  "isClosed l \<longleftrightarrow> lk_startElement l \<noteq> None \<and> lk_endElement l \<noteq> None"

section \<open>Elements\<close>

definition side_anchors :: "rat \<Rightarrow> rat \<Rightarrow> rat \<Rightarrow> rat \<Rightarrow> ae_anchor list" where
  "side_anchors posX posY w h =
     [new_Anchor posX (posY + h / 2) (Some dir_Left), new_Anchor (posX + w / 2) posY (Some dir_Top),
      new_Anchor (posX + w) (posY + h / 2) (Some dir_Right), new_Anchor (posX + w / 2) (posY + h) (Some dir_Bottom)]"

definition zone_at :: "ae_anchor \<Rightarrow> nat \<Rightarrow> ae_zone" where
  "zone_at a i = \<lparr>az_x = aa_x a - 25, az_y = aa_y a - 25, az_width = 50, az_height = 50, az_anchor = i\<rparr>"

text \<open>\<open>new Element(application, width, height)\<close>, whose constructor calls \<open>init\<close>\<close>

definition new_Element :: "nat \<Rightarrow> rat \<Rightarrow> rat \<Rightarrow> editor \<Rightarrow> nat \<times> editor" where
  "new_Element a w h s =
     (let anchors = side_anchors (ap_posX (ae_apps s ! a)) (ap_posY (ae_apps s ! a)) w h;
          base = length (ae_anchors s);
          e = \<lparr>ee_zones = map2 zone_at anchors [base, base + 1, base + 2, base + 3], ee_isSelected = False,
               ee_dragOffset = None, ee_app = a, ee_width = w, ee_height = h\<rparr>
      in (length (ae_elts s), s\<lparr>ae_anchors := ae_anchors s @ anchors, ae_elts := ae_elts s @ [e]\<rparr>))"

definition intersect :: "editor \<Rightarrow> ae_element \<Rightarrow> nat \<Rightarrow> nat option" where
  "intersect s e i =
     (let a = ae_anchors s ! i
      in case filter (\<lambda>z. az_x z \<le> aa_x a \<and> aa_x a \<le> az_x z + az_width z \<and>
                          az_y z \<le> aa_y a \<and> aa_y a \<le> az_y z + az_height z) (ee_zones e) of
           [z] \<Rightarrow> Some (az_anchor z) | _ \<Rightarrow> None)"

definition getAnchor :: "nat \<Rightarrow> ae_element \<Rightarrow> nat" where
  "getAnchor position e =
     az_anchor (ee_zones e ! (if position = dir_Left then 0 else if position = dir_Top then 1
                              else if position = dir_Right then 2 else 3))"

definition move_anchor :: "nat \<Rightarrow> rat \<Rightarrow> rat \<Rightarrow> editor \<Rightarrow> editor" where
  "move_anchor i x y s = s\<lparr>ae_anchors := (ae_anchors s)[i := (ae_anchors s ! i)\<lparr>aa_x := x, aa_y := y\<rparr>]\<rparr>"

text \<open>\<open>update\<close>: anchors and zones are moved to the sides of the application's box.\<close>

fun update_zones :: "ae_anchor list \<Rightarrow> ae_zone list \<Rightarrow> editor \<Rightarrow> ae_zone list \<times> editor" where
  "update_zones (a # as) (z # zs) s =
     (let s1 = move_anchor (az_anchor z) (aa_x a) (aa_y a) s;
          (zs', s2) = update_zones as zs s1
      in (z\<lparr>az_x := aa_x a - 25, az_y := aa_y a - 25\<rparr> # zs', s2))"
| "update_zones _ zs s = (zs, s)"

definition element_update :: "nat \<Rightarrow> editor \<Rightarrow> editor" where
  "element_update i s =
     (let e = ae_elts s ! i; app = ae_apps s ! ee_app e;
          (zs, s1) = update_zones (side_anchors (ap_posX app) (ap_posY app) (ee_width e) (ee_height e)) (ee_zones e) s
      in s1\<lparr>ae_elts := (ae_elts s1)[i := e\<lparr>ee_zones := zs\<rparr>]\<rparr>)"

section \<open>Loading applications\<close>

definition elt_id :: "editor \<Rightarrow> nat \<Rightarrow> js" where
  "elt_id s i = ap_id (ae_apps s ! ee_app (ae_elts s ! i))"

definition find_element :: "js \<Rightarrow> editor \<Rightarrow> nat option" where
  "find_element k s = js_filter0 (\<lambda>i. js_seq (elt_id s i) k) (ae_elements s)"

fun init_elements :: "nat list \<Rightarrow> editor \<Rightarrow> editor" where
  "init_elements [] s = s"
| "init_elements (a # as) s =
     (let (i, s1) = new_Element a applicationWidth applicationHeight s
      in init_elements as (s1\<lparr>ae_elements := ae_elements s1 @ [i]\<rparr>))"

definition push_link :: "ae_link \<Rightarrow> editor \<Rightarrow> editor" where
  "push_link l s = s\<lparr>ae_lks := ae_lks s @ [l], ae_links := ae_links s @ [length (ae_lks s)]\<rparr>"

text \<open>The links of one application; the \<open>k\<close>-th link of the editor gets the \<open>k\<close>-th identifier.\<close>

fun init_links :: "(nat \<Rightarrow> string) \<Rightarrow> nat \<Rightarrow> nat list \<Rightarrow> editor \<Rightarrow> editor res" where
  "init_links guid a [] s = Some s"
| "init_links guid a (l # ls) s =
     (let al = ae_alinks s ! l
      in case al_target al of
           None \<Rightarrow> init_links guid a ls s
         | Some t \<Rightarrow> do {
             f \<leftarrow> find_element (ap_id (ae_apps s ! a)) s;
             e \<leftarrow> find_element t s;
             init_links guid a ls (push_link
               \<lparr>lk_id = guid (length (ae_links s)), lk_start = getAnchor (al_startAnchor al) (ae_elts s ! f),
                lk_end = getAnchor (al_endAnchor al) (ae_elts s ! e), lk_isSelected = False,
                lk_startElement = None, lk_endElement = None, lk_applicationLink = l\<rparr> s)
           })"

fun init_all_links :: "(nat \<Rightarrow> string) \<Rightarrow> nat list \<Rightarrow> editor \<Rightarrow> editor res" where
  "init_all_links guid [] s = Some s"
| "init_all_links guid (a # as) s =
     Option.bind (init_links guid a (ap_links (ae_apps s ! a)) s) (init_all_links guid as)"

definition init_ae :: "(nat \<Rightarrow> string) \<Rightarrow> editor \<Rightarrow> editor res" where
  "init_ae guid s =
     (if ae_applications s = [] then Some s
      else init_all_links guid (ae_applications s)
             (init_elements (ae_applications s) (s\<lparr>ae_elements := [], ae_links := []\<rparr>)))"

text \<open>The setter of the input \<open>applications\<close>: the array holds the addresses of applications of the heap.\<close>

definition set_applications :: "(nat \<Rightarrow> string) \<Rightarrow> nat list \<Rightarrow> editor \<Rightarrow> editor res" where
  "set_applications guid v s = init_ae guid (s\<lparr>ae_applications := v\<rparr>)"

section \<open>Adding and removing\<close>

definition set_editable :: "nat list \<Rightarrow> editor \<Rightarrow> editor" where
  "set_editable is s =
     s\<lparr>ae_anchors := fold (\<lambda>i as. as[i := (as ! i)\<lparr>aa_isEditable := True\<rparr>]) is (ae_anchors s)\<rparr>"

text \<open>\<open>xs.indexOf(xs.filter(p)[0])\<close> is the position of the first match, or -1.\<close>

definition app_index :: "js \<Rightarrow> editor \<Rightarrow> int" where
  "app_index k s = js_findIndex (\<lambda>a. js_seq (ap_id (ae_apps s ! a)) k) (ae_applications s)"

definition at_element :: "editor \<Rightarrow> js \<Rightarrow> nat option \<Rightarrow> bool" where
  "at_element s k e = (case e of None \<Rightarrow> False | Some i \<Rightarrow> js_seq (elt_id s i) k)"

definition removeElement :: "nat \<Rightarrow> editor \<Rightarrow> editor" where
  "removeElement i s =
     (let k = elt_id s (ae_elements s ! i);
          lks = map (\<lambda>l. ae_lks s ! l) (ae_links s);
          s1 = s\<lparr>ae_applications := js_splice (app_index k s) 1 (ae_applications s)\<rparr>;
          s2 = set_editable (map lk_start (filter (\<lambda>l. at_element s k (lk_startElement l)) lks)) s1;
          s3 = set_editable (map lk_end (filter (\<lambda>l. at_element s k (lk_endElement l)) lks)) s2
      in s3\<lparr>ae_elements := js_splice (int i) 1 (ae_elements s3)\<rparr>)"

definition set_app_links :: "nat \<Rightarrow> nat list \<Rightarrow> editor \<Rightarrow> editor" where
  "set_app_links a ls s = s\<lparr>ae_apps := (ae_apps s)[a := (ae_apps s ! a)\<lparr>ap_links := ls\<rparr>]\<rparr>"

definition remove_link :: "nat \<Rightarrow> editor \<Rightarrow> editor" where
  "remove_link l s =
     (let lk = ae_lks s ! l;
          s1 = (case lk_startElement lk of
                  None \<Rightarrow> s
                | Some e \<Rightarrow>
                    (let a = ee_app (ae_elts s ! e); links = ap_links (ae_apps s ! a)
                     in set_app_links a (js_splice (js_findIndex (\<lambda>x. x = lk_applicationLink lk) links) 1 links) s))
      in s1\<lparr>ae_links := js_splice (js_findIndex (\<lambda>x. x = l) (ae_links s1)) 1 (ae_links s1)\<rparr>)"

definition remove_selected :: "editor \<Rightarrow> editor" where
  "remove_selected s =
     (case ae_selLink s of
        Some l \<Rightarrow> remove_link l s
      | None \<Rightarrow>
          (case ae_selElement s of
             None \<Rightarrow> s
           | Some e \<Rightarrow>
               s\<lparr>ae_applications := js_splice (app_index (elt_id s e) s) 1 (ae_applications s),
                 ae_elements := js_splice (js_findIndex (\<lambda>x. x = e) (ae_elements s)) 1 (ae_elements s)\<rparr>))"

text \<open>\<open>ctm\<close> is the transformation from client coordinates to those of the drawing.\<close>

definition onDrop_ae :: "(rat \<times> rat \<Rightarrow> rat \<times> rat) \<Rightarrow> (nat \<Rightarrow> rat) \<Rightarrow> rat \<times> rat \<Rightarrow> string \<Rightarrow> editor \<Rightarrow> editor" where
  "onDrop_ae ctm rnd client ty s =
     (case ctm client of (x, y) \<Rightarrow>
        if ty = ''application'' then
          (let a = length (ae_apps s);
               app = new_ApplicationResult\<lparr>ap_id := JStr (newGUID rnd), ap_title := JStr ''title'', ap_posX := x, ap_posY := y\<rparr>;
               s1 = s\<lparr>ae_apps := ae_apps s @ [app], ae_applications := ae_applications s @ [a]\<rparr>;
               (i, s2) = new_Element a applicationWidth applicationHeight s1
           in s2\<lparr>ae_elements := ae_elements s2 @ [i]\<rparr>)
        else if ty = ''link'' then
          (let b = length (ae_anchors s)
           in push_link \<lparr>lk_id = newGUID rnd, lk_start = b, lk_end = b + 1, lk_isSelected = False,
                         lk_startElement = None, lk_endElement = None, lk_applicationLink = length (ae_alinks s)\<rparr>
                (s\<lparr>ae_anchors := ae_anchors s @ [new_Anchor x y None, new_Anchor (x + 10) (y + 100) None],
                   ae_alinks := ae_alinks s @ [new_ApplicationLinkResult]\<rparr>))
        else s)"

definition consumedLinks :: "nat \<Rightarrow> editor \<Rightarrow> application_link list" where
  "consumedLinks e s =
     filter (\<lambda>l. case al_target l of None \<Rightarrow> False | Some t \<Rightarrow> js_seq t (elt_id s e))
       (map (\<lambda>l. ae_alinks s ! lk_applicationLink (ae_lks s ! l)) (ae_links s))"

text \<open>\<open>viewAsyncApi\<close> with the builder that the opened panel calls.\<close>

definition viewAsyncApi :: "(string \<Rightarrow> js res) \<Rightarrow> string \<Rightarrow> message_definition list \<Rightarrow> editor \<Rightarrow> js res option" where
  "viewAsyncApi parse rootTopic msgs s =
     map_option (\<lambda>e. let app = ae_apps s ! ee_app (ae_elts s ! e)
                     in build_document parse rootTopic (ap_title app) (ap_version app) (ap_description app)
                          (map (\<lambda>l. ae_alinks s ! l) (ap_links app)) (consumedLinks e s) msgs) (ae_selElement s)"

section \<open>Selecting\<close>

definition flag_link :: "nat \<Rightarrow> bool \<Rightarrow> editor \<Rightarrow> editor" where
  "flag_link l b s = s\<lparr>ae_lks := (ae_lks s)[l := (ae_lks s ! l)\<lparr>lk_isSelected := b\<rparr>]\<rparr>"

definition flag_element :: "nat \<Rightarrow> bool \<Rightarrow> editor \<Rightarrow> editor" where
  "flag_element e b s = s\<lparr>ae_elts := (ae_elts s)[e := (ae_elts s ! e)\<lparr>ee_isSelected := b\<rparr>]\<rparr>"

definition flag_anchor :: "nat \<Rightarrow> bool \<Rightarrow> editor \<Rightarrow> editor" where
  "flag_anchor i b s = s\<lparr>ae_anchors := (ae_anchors s)[i := (ae_anchors s ! i)\<lparr>aa_isSelected := b\<rparr>]\<rparr>"

definition when_some :: "('a \<Rightarrow> 'b \<Rightarrow> 'b) \<Rightarrow> 'a option \<Rightarrow> 'b \<Rightarrow> 'b" where
  "when_some f x s = (case x of None \<Rightarrow> s | Some y \<Rightarrow> f y s)"

definition unselectElement :: "editor \<Rightarrow> editor" where
  "unselectElement s = (when_some (\<lambda>e. flag_element e False) (ae_selElement s) s)\<lparr>ae_selElement := None\<rparr>"

definition unselectLink :: "editor \<Rightarrow> editor" where
  "unselectLink s = (when_some (\<lambda>l. flag_link l False) (ae_selLink s) s)\<lparr>ae_selLink := None\<rparr>"

text \<open>The element of the page that an event comes from, and its parent.\<close>

record dom =
  dm_classes :: "string list"
  dm_attrs :: "(string \<times> string) list"

type_synonym target = "dom \<times> dom option"

definition closest :: "string \<Rightarrow> target \<Rightarrow> dom option" where
  "closest c t =
     (if c \<in> set (dm_classes (fst t)) then Some (fst t)
      else case snd t of None \<Rightarrow> None | Some p \<Rightarrow> if c \<in> set (dm_classes p) then Some p else None)"

definition getAnchorLink :: "target \<Rightarrow> dom option" where
  "getAnchorLink t = closest ''anchor'' t"

definition getElement :: "target \<Rightarrow> dom option" where
  "getElement t = closest ''content'' t"

definition getAttribute :: "string \<Rightarrow> dom \<Rightarrow> js" where
  "getAttribute k d = (case map_of (dm_attrs d) k of None \<Rightarrow> Null | Some v \<Rightarrow> JStr v)"

definition find_link :: "js \<Rightarrow> editor \<Rightarrow> nat option" where
  "find_link k s = js_filter0 (\<lambda>l. js_seq (JStr (lk_id (ae_lks s ! l))) k) (ae_links s)"

definition selectLink :: "target \<Rightarrow> editor \<Rightarrow> editor res" where
  "selectLink t s =
     (let s1 = when_some (\<lambda>l. flag_link l False) (ae_selLink s) s;
          linkAnchor = getAnchorLink t
      in if ''linkSelection'' \<notin> set (dm_classes (fst t)) \<and> linkAnchor = None then Some (s1\<lparr>ae_selLink := None\<rparr>)
         else do {
           i \<leftarrow> (if truthy (getAttribute ''linkId'' (fst t)) then Some (getAttribute ''linkId'' (fst t))
                else map_option (getAttribute ''linkId'') linkAnchor);
           l \<leftarrow> find_link i s1;
           Some (flag_link l True (s1\<lparr>ae_selLink := Some l\<rparr>))
         })"

definition selectElement :: "target \<Rightarrow> editor \<Rightarrow> editor res" where
  "selectElement t s =
     (let s1 = when_some (\<lambda>e. flag_element e False) (ae_selElement s) s
      in case getElement t of
           None \<Rightarrow> Some (s1\<lparr>ae_selElement := None\<rparr>)
         | Some d \<Rightarrow> do {
             e \<leftarrow> find_element (getAttribute ''elementId'' d) s1;
             let app = ae_apps s1 ! ee_app (ae_elts s1 ! e);
             let off = (fst (ae_previousPoint s1) - ap_posX app, snd (ae_previousPoint s1) - ap_posY app);
             Some (s1\<lparr>ae_selElement := Some e,
                      ae_elts := (ae_elts s1)[e := (ae_elts s1 ! e)\<lparr>ee_dragOffset := Some off, ee_isSelected := True\<rparr>]\<rparr>)
           })"

definition startMovingAnchor :: "target \<Rightarrow> editor \<Rightarrow> editor res" where
  "startMovingAnchor t s =
     (case getAnchorLink t of
        None \<Rightarrow> Some s
      | Some d \<Rightarrow> do {
          l \<leftarrow> find_link (getAttribute ''linkId'' d) s;
          let isStart = (''start'' \<in> set (dm_classes d));
          let i = (if isStart then lk_start (ae_lks s ! l) else lk_end (ae_lks s ! l));
          let a = ae_anchors s ! i;
          Some (s\<lparr>ae_selAnchorLink := Some (l, i, isStart, fst (ae_previousPoint s) - aa_x a, snd (ae_previousPoint s) - aa_y a)\<rparr>)
        })"

section \<open>Dragging\<close>

definition moveSelectedAnchorLink :: "rat \<times> rat \<Rightarrow> editor \<Rightarrow> editor" where
  "moveSelectedAnchorLink cursor s =
     (case ae_selAnchorLink s of
        None \<Rightarrow> s
      | Some (l, i, isStart, dx, dy) \<Rightarrow>
          (let s1 = move_anchor i (fst cursor - dx) (snd cursor - dy) s
           in case filter (\<lambda>e. intersect s1 (ae_elts s1 ! e) i \<noteq> None) (ae_elements s1) of
                [e] \<Rightarrow> (case intersect s1 (ae_elts s1 ! e) i of
                          Some j \<Rightarrow> flag_anchor j True (s1\<lparr>ae_selAnchorElement := Some (e, j)\<rparr>)
                        | None \<Rightarrow> s1)
              | _ \<Rightarrow> (case ae_selAnchorElement s1 of
                        None \<Rightarrow> s1
                      | Some (e, j) \<Rightarrow> flag_anchor j False (s1\<lparr>ae_selAnchorElement := None\<rparr>))))"

definition moveSelectedApplication :: "rat \<times> rat \<Rightarrow> editor \<Rightarrow> editor" where
  "moveSelectedApplication cursor s =
     (case ae_selElement s of
        None \<Rightarrow> s
      | Some e \<Rightarrow>
          (case ee_dragOffset (ae_elts s ! e) of
             None \<Rightarrow> s
           | Some (dx, dy) \<Rightarrow>
               (let a = ee_app (ae_elts s ! e)
                in element_update e
                     (s\<lparr>ae_apps := (ae_apps s)[a := (ae_apps s ! a)\<lparr>ap_posX := fst cursor - dx, ap_posY := snd cursor - dy\<rparr>]\<rparr>))))"

text \<open>The direction is recorded only if it is truthy, so never when it is 0.\<close>

definition connectLinkAnchor :: "editor \<Rightarrow> editor" where
  "connectLinkAnchor s =
     (case (ae_selAnchorLink s, ae_selAnchorElement s) of
        (Some (l, i, isStart, dx, dy), Some (e, j)) \<Rightarrow>
          (let s0 = s\<lparr>ae_anchors := (ae_anchors s)[j := (ae_anchors s ! j)\<lparr>aa_isEditable := False\<rparr>]\<rparr>;
               lk = ae_lks s0 ! l; al = lk_applicationLink lk;
               dir = aa_direction (ae_anchors s0 ! j);
               record_dir = (\<lambda>f x. case dir of Some d \<Rightarrow> if d \<noteq> 0 then f d x else x | None \<Rightarrow> x);
               (lk1, al1) =
                 (if isStart
                  then (lk\<lparr>lk_start := j, lk_startElement := Some e\<rparr>,
                        record_dir (\<lambda>d x. x\<lparr>al_startAnchor := d\<rparr>) (ae_alinks s0 ! al))
                  else (lk\<lparr>lk_end := j, lk_endElement := Some e\<rparr>,
                        (record_dir (\<lambda>d x. x\<lparr>al_endAnchor := d\<rparr>) (ae_alinks s0 ! al))\<lparr>al_target := Some (elt_id s0 e)\<rparr>));
               s1 = s0\<lparr>ae_lks := (ae_lks s0)[l := lk1], ae_alinks := (ae_alinks s0)[al := al1]\<rparr>
           in case lk_startElement lk1 of
                Some f \<Rightarrow> if isClosed lk1
                          then set_app_links (ee_app (ae_elts s1 ! f))
                                 (ap_links (ae_apps s1 ! ee_app (ae_elts s1 ! f)) @ [al]) s1
                          else s1
              | None \<Rightarrow> s1)
      | _ \<Rightarrow> s)"

section \<open>Mouse and view\<close>

definition setViewBox :: "rat \<times> rat \<times> rat \<times> rat \<Rightarrow> editor \<Rightarrow> editor" where
  "setViewBox v s = s\<lparr>ae_viewBox := v, ae_emitted := ae_emitted s @ [v]\<rparr>"

definition zoom_ae :: "rat \<Rightarrow> editor \<Rightarrow> editor" where
  "zoom_ae delta s = (case ae_viewBox s of (x, y, w, h) \<Rightarrow> setViewBox (x, y, w + delta, h + delta) s)"

definition zoomIn_ae :: "editor \<Rightarrow> editor" where
  "zoomIn_ae s = zoom_ae (- opt_zoom) s"

definition zoomOut_ae :: "editor \<Rightarrow> editor" where
  "zoomOut_ae s = zoom_ae opt_zoom s"

definition startMove_ae :: "editor \<Rightarrow> editor" where
  "startMove_ae s = s\<lparr>ae_startMoving := True\<rparr>"

definition startEdit_ae :: "editor \<Rightarrow> editor" where
  "startEdit_ae s = s\<lparr>ae_startMoving := False\<rparr>"

definition isSelected_ae :: "editor \<Rightarrow> bool" where
  "isSelected_ae s \<longleftrightarrow> ae_selLink s \<noteq> None \<or> ae_selElement s \<noteq> None"

text \<open>\<open>ngAfterViewInit\<close>, given the size of the container\<close>

definition ngAfterViewInit_ae :: "rat \<Rightarrow> rat \<Rightarrow> editor \<Rightarrow> editor" where
  "ngAfterViewInit_ae w h s = setViewBox (0, 0, w, h) s"

definition clear_flags :: "editor \<Rightarrow> editor" where
  "clear_flags s = fold (\<lambda>l. flag_link l False) (ae_links s) (fold (\<lambda>e. flag_element e False) (ae_elements s) s)"

definition onmousedown_ae :: "(rat \<times> rat \<Rightarrow> rat \<times> rat) \<Rightarrow> rat \<times> rat \<Rightarrow> target \<Rightarrow> editor \<Rightarrow> editor res" where
  "onmousedown_ae ctm client t s =
     (let s1 = clear_flags (s\<lparr>ae_isMoving := True, ae_previousPoint := ctm client\<rparr>)
      in if \<not> ae_startMoving s1
         then do { s2 \<leftarrow> selectLink t s1; s3 \<leftarrow> startMovingAnchor t s2; selectElement t s3 }
         else case ae_viewBox s1 of (x, y, w, h) \<Rightarrow>
                Some (s1\<lparr>ae_previousMouse := (fst client + x, snd client + y)\<rparr>))"

definition onmousemove_ae :: "(rat \<times> rat \<Rightarrow> rat \<times> rat) \<Rightarrow> rat \<times> rat \<Rightarrow> editor \<Rightarrow> editor" where
  "onmousemove_ae ctm client s =
     (if \<not> ae_isMoving s then s
      else if \<not> ae_startMoving s
      then moveSelectedApplication (ctm client)
             (moveSelectedAnchorLink (ctm client) (s\<lparr>ae_previousPoint := client\<rparr>))
      else case (ae_viewBox s, ae_previousMouse s) of ((x, y, w, h), (px, py)) \<Rightarrow>
             setViewBox (- (fst client - px), - (snd client - py), w, h) s)"

definition onmouseup_ae :: "editor \<Rightarrow> editor" where
  "onmouseup_ae s =
     (if \<not> ae_isMoving s then s
      else let s1 = (connectLinkAnchor s)\<lparr>ae_isMoving := False, ae_selAnchorLink := None\<rparr>
           in (when_some (\<lambda>(e, j). flag_anchor j False) (ae_selAnchorElement s1) s1)\<lparr>ae_selAnchorElement := None\<rparr>)"

end
