(* ===== verification/Async_Props.thy ===== *)
theory Async_Props
  imports Async_Editor
begin

text \<open>
  The invariant of the application editor and one lemma per operation that says it is kept. Frame
  relations between states carry the proofs: \<open>evolves\<close> (objects keep their shape), \<open>stays\<close> (they
  keep their place) and \<open>static\<close> (only flags, selections and the view differ).
\<close>

section \<open>The shape of the heaps\<close>

text \<open>
  What no event changes of an object: the directions of the anchors, and the application, size and
  anchors of an element.
\<close>

definition anchors_of :: "ae_element \<Rightarrow> nat list" where
  "anchors_of e = map az_anchor (ee_zones e)"

definition elt_shape :: "ae_element \<Rightarrow> nat \<times> rat \<times> rat \<times> (nat \<times> rat \<times> rat) list" where
  "elt_shape e = (ee_app e, ee_width e, ee_height e, map (\<lambda>z. (az_anchor z, az_width z, az_height z)) (ee_zones e))"

type_synonym shape = "nat \<times> nat \<times> nat option list \<times> (nat \<times> rat \<times> rat \<times> (nat \<times> rat \<times> rat) list) list"

definition shape :: "editor \<Rightarrow> shape" where
  "shape s = (length (ae_apps s), length (ae_alinks s), map aa_direction (ae_anchors s), map elt_shape (ae_elts s))"

definition directions :: "nat option list" where
  "directions = map Some [dir_Left, dir_Top, dir_Right, dir_Bottom]"

definition elt_ok :: "editor \<Rightarrow> ae_element \<Rightarrow> bool" where
  "elt_ok s e \<longleftrightarrow> ee_app e < length (ae_apps s) \<and> (\<forall>i \<in> set (anchors_of e). i < length (ae_anchors s)) \<and>
     map (\<lambda>i. aa_direction (ae_anchors s ! i)) (anchors_of e) = directions \<and>
     map (\<lambda>z. (az_width z, az_height z)) (ee_zones e) = replicate 4 (50, 50)"

definition attached :: "editor \<Rightarrow> nat option \<Rightarrow> nat \<Rightarrow> bool" where
  "attached s x i \<longleftrightarrow> (case x of None \<Rightarrow> True
     | Some e \<Rightarrow> e < length (ae_elts s) \<and> i \<in> set (anchors_of (ae_elts s ! e)))"

definition link_ok :: "editor \<Rightarrow> ae_link \<Rightarrow> bool" where
  "link_ok s l \<longleftrightarrow> lk_start l < length (ae_anchors s) \<and> lk_end l < length (ae_anchors s) \<and>
     lk_applicationLink l < length (ae_alinks s) \<and>
     attached s (lk_startElement l) (lk_start l) \<and> attached s (lk_endElement l) (lk_end l)"

definition heap_ok :: "editor \<Rightarrow> bool" where
  "heap_ok s \<longleftrightarrow> (\<forall>e \<in> set (ae_elts s). elt_ok s e) \<and> distinct (concat (map anchors_of (ae_elts s))) \<and>
     (\<forall>l \<in> set (ae_lks s). link_ok s l) \<and>
     (\<forall>a \<in> set (ae_apps s). \<forall>l \<in> set (ap_links a). l < length (ae_alinks s))"

text \<open>The drop zones of an element are centred on the sides of its application's box.\<close>

definition placed :: "editor \<Rightarrow> ae_element \<Rightarrow> bool" where
  "placed s e \<longleftrightarrow> map (\<lambda>z. (az_x z, az_y z)) (ee_zones e) =
     map (\<lambda>a. (aa_x a - 25, aa_y a - 25))
       (side_anchors (ap_posX (ae_apps s ! ee_app e)) (ap_posY (ae_apps s ! ee_app e)) (ee_width e) (ee_height e))"

definition app_at :: "editor \<Rightarrow> nat \<Rightarrow> nat" where
  "app_at s e = ee_app (ae_elts s ! e)"

definition view_ok :: "editor \<Rightarrow> bool" where
  "view_ok s \<longleftrightarrow> (\<forall>e \<in> set (ae_elements s). e < length (ae_elts s) \<and> placed s (ae_elts s ! e)) \<and>
     distinct (map (app_at s) (ae_elements s)) \<and>
     (\<forall>l \<in> set (ae_links s). l < length (ae_lks s)) \<and> (\<forall>a \<in> set (ae_applications s). a < length (ae_apps s))"

text \<open>A selected element that is no longer shown shares no application with one that is.\<close>

definition loose :: "editor \<Rightarrow> nat \<Rightarrow> bool" where
  "loose s e \<longleftrightarrow> e \<in> set (ae_elements s) \<or> app_at s e \<notin> app_at s ` set (ae_elements s)"

definition sel_elt_ok :: "editor \<Rightarrow> nat option \<Rightarrow> bool" where
  "sel_elt_ok s x \<longleftrightarrow> (\<forall>e. x = Some e \<longrightarrow> e < length (ae_elts s) \<and> loose s e)"

definition sel_link_ok :: "editor \<Rightarrow> nat option \<Rightarrow> bool" where
  "sel_link_ok s x \<longleftrightarrow> (\<forall>l. x = Some l \<longrightarrow> l < length (ae_lks s))"

definition sel_anchor_ok :: "editor \<Rightarrow> (nat \<times> nat \<times> bool \<times> rat \<times> rat) option \<Rightarrow> bool" where
  "sel_anchor_ok s x \<longleftrightarrow> (\<forall>l i b p q. x = Some (l, i, b, p, q) \<longrightarrow> l < length (ae_lks s) \<and> i < length (ae_anchors s))"

definition sel_target_ok :: "editor \<Rightarrow> (nat \<times> nat) option \<Rightarrow> bool" where
  "sel_target_ok s x \<longleftrightarrow> (\<forall>e j. x = Some (e, j) \<longrightarrow> attached s (Some e) j)"

definition selection_ok :: "editor \<Rightarrow> bool" where
  "selection_ok s \<longleftrightarrow> sel_elt_ok s (ae_selElement s) \<and> sel_link_ok s (ae_selLink s) \<and>
     sel_anchor_ok s (ae_selAnchorLink s) \<and> sel_target_ok s (ae_selAnchorElement s)"

definition ae_ok :: "editor \<Rightarrow> bool" where
  "ae_ok s \<longleftrightarrow> heap_ok s \<and> view_ok s \<and> selection_ok s"

section \<open>What the invariant depends on\<close>

definition link_core :: "ae_link \<Rightarrow> nat \<times> nat \<times> nat option \<times> nat option \<times> nat" where
  "link_core l = (lk_start l, lk_end l, lk_startElement l, lk_endElement l, lk_applicationLink l)"

definition core :: "editor \<Rightarrow> shape \<times> (nat \<times> nat \<times> nat option \<times> nat option \<times> nat) list \<times> nat list list" where
  "core s = (shape s, map link_core (ae_lks s), map ap_links (ae_apps s))"

definition places :: "editor \<Rightarrow> (rat \<times> rat) list \<times> (rat \<times> rat) list list" where
  "places s = (map (\<lambda>a. (ap_posX a, ap_posY a)) (ae_apps s), map (\<lambda>e. map (\<lambda>z. (az_x z, az_y z)) (ee_zones e)) (ae_elts s))"

lemma map_eq_nth: "map f xs = map g ys \<Longrightarrow> i < length xs \<Longrightarrow> f (xs ! i) = g (ys ! i)"
  by (metis length_map nth_map)

lemma anchors_of_shape: "elt_shape e = elt_shape e' \<Longrightarrow> anchors_of e = anchors_of e'"
proof -
  assume "elt_shape e = elt_shape e'"
  then have "map fst (map (\<lambda>z. (az_anchor z, az_width z, az_height z)) (ee_zones e)) =
      map fst (map (\<lambda>z. (az_anchor z, az_width z, az_height z)) (ee_zones e'))"
    by (simp only: elt_shape_def prod.inject)
  then show ?thesis by (simp add: anchors_of_def comp_def)
qed

lemma sizes_of_shape:
  "elt_shape e = elt_shape e' \<Longrightarrow> map (\<lambda>z. (az_width z, az_height z)) (ee_zones e) = map (\<lambda>z. (az_width z, az_height z)) (ee_zones e')"
proof -
  assume "elt_shape e = elt_shape e'"
  then have "map snd (map (\<lambda>z. (az_anchor z, az_width z, az_height z)) (ee_zones e)) =
      map snd (map (\<lambda>z. (az_anchor z, az_width z, az_height z)) (ee_zones e'))"
    by (simp only: elt_shape_def prod.inject)
  then show ?thesis by (simp add: comp_def)
qed

lemma app_of_shape: "elt_shape e = elt_shape e' \<Longrightarrow> ee_app e = ee_app e' \<and> ee_width e = ee_width e' \<and> ee_height e = ee_height e'"
  by (simp add: elt_shape_def)

text \<open>\<open>evolves s s'\<close>: what exists in \<open>s\<close> exists in \<open>s'\<close> with the same shape.\<close>

definition evolves :: "editor \<Rightarrow> editor \<Rightarrow> bool" where
  "evolves s s' \<longleftrightarrow> length (ae_apps s) \<le> length (ae_apps s') \<and> length (ae_alinks s) \<le> length (ae_alinks s') \<and>
     length (ae_anchors s) \<le> length (ae_anchors s') \<and> length (ae_elts s) \<le> length (ae_elts s') \<and>
     (\<forall>i < length (ae_anchors s). aa_direction (ae_anchors s' ! i) = aa_direction (ae_anchors s ! i)) \<and>
     (\<forall>e < length (ae_elts s). elt_shape (ae_elts s' ! e) = elt_shape (ae_elts s ! e))"

lemma shape_lengths:
  assumes "shape s' = shape s"
  shows "length (ae_apps s') = length (ae_apps s)" and "length (ae_alinks s') = length (ae_alinks s)"
    and "length (ae_anchors s') = length (ae_anchors s)" and "length (ae_elts s') = length (ae_elts s)"
  using assms by (auto simp: shape_def dest: map_eq_imp_length_eq)

lemma evolves_shape: "shape s' = shape s \<Longrightarrow> evolves s s'"
proof -
  assume sh: "shape s' = shape s"
  have "map aa_direction (ae_anchors s') = map aa_direction (ae_anchors s)" "map elt_shape (ae_elts s') = map elt_shape (ae_elts s)"
    using sh by (simp_all add: shape_def)
  from this [THEN map_eq_nth] show ?thesis by (simp add: evolves_def shape_lengths [OF sh])
qed

lemma elt_ok_evolves: "evolves s s' \<Longrightarrow> elt_ok s e \<Longrightarrow> elt_shape e' = elt_shape e \<Longrightarrow> elt_ok s' e'"
proof -
  assume g: "evolves s s'" and e: "elt_ok s e" and sh: "elt_shape e' = elt_shape e"
  have "map (\<lambda>i. aa_direction (ae_anchors s' ! i)) (anchors_of e) = map (\<lambda>i. aa_direction (ae_anchors s ! i)) (anchors_of e)"
    using g e by (intro map_cong) (simp_all add: evolves_def elt_ok_def)
  then show ?thesis using g e anchors_of_shape [OF sh] sizes_of_shape [OF sh] app_of_shape [OF sh]
    unfolding elt_ok_def evolves_def by fastforce
qed

lemma attached_evolves: "evolves s s' \<Longrightarrow> attached s x i \<Longrightarrow> attached s' x i"
  unfolding attached_def evolves_def
  by (cases x) (use anchors_of_shape [of "ae_elts s' ! the x" "ae_elts s ! the x"] in auto)

lemma link_ok_evolves: "evolves s s' \<Longrightarrow> link_ok s l \<Longrightarrow> link_core l' = link_core l \<Longrightarrow> link_ok s' l'"
  using attached_evolves [of s s'] unfolding link_ok_def link_core_def evolves_def prod.inject
  by (metis order_less_le_trans)

lemma old_elts_ok:
  "evolves s s' \<Longrightarrow> \<forall>e \<in> set (ae_elts s). elt_ok s e \<Longrightarrow> i < length (ae_elts s) \<Longrightarrow> elt_ok s' (ae_elts s' ! i)"
  using elt_ok_evolves [of s s' "ae_elts s ! i" "ae_elts s' ! i"] by (auto simp: evolves_def)

lemma anchors_evolves:
  "evolves s s' \<Longrightarrow> length (ae_elts s') = length (ae_elts s) \<Longrightarrow> map anchors_of (ae_elts s') = map anchors_of (ae_elts s)"
proof (rule nth_equalityI)
  assume g: "evolves s s'" and n: "length (ae_elts s') = length (ae_elts s)"
  show "length (map anchors_of (ae_elts s')) = length (map anchors_of (ae_elts s))" using n by simp
  fix i assume "i < length (map anchors_of (ae_elts s'))"
  then have i: "i < length (ae_elts s)" using n by simp
  then have "anchors_of (ae_elts s' ! i) = anchors_of (ae_elts s ! i)"
    by (intro anchors_of_shape) (use g in \<open>simp add: evolves_def\<close>)
  then show "map anchors_of (ae_elts s') ! i = map anchors_of (ae_elts s) ! i" using i n by simp
qed

lemma heap_ok_core: 
  assumes "heap_ok s" and "core s' = core s"
  shows "heap_ok s'"
proof -
  have sh: "shape s' = shape s" and lk: "map link_core (ae_lks s') = map link_core (ae_lks s)"
    and ap: "map ap_links (ae_apps s') = map ap_links (ae_apps s)"
    using assms(2) by (auto simp: core_def)
  note g = evolves_shape [OF sh] and n = shape_lengths [OF sh]
  have elts: "\<forall>e \<in> set (ae_elts s'). elt_ok s' e"
    using old_elts_ok [OF g] assms(1) n by (auto simp: heap_ok_def in_set_conv_nth)
  moreover have "\<forall>l \<in> set (ae_lks s'). link_ok s' l"
  proof
    fix l assume "l \<in> set (ae_lks s')"
    then have "link_core l \<in> link_core ` set (ae_lks s)" using arg_cong [OF lk, of set] by auto
    then show "link_ok s' l" using link_ok_evolves [OF g] assms(1) by (auto simp: heap_ok_def)
  qed
  moreover have "\<forall>a \<in> set (ae_apps s'). \<forall>l \<in> set (ap_links a). l < length (ae_alinks s')"
  proof
    fix a assume "a \<in> set (ae_apps s')"
    then have "ap_links a \<in> ap_links ` set (ae_apps s)" using arg_cong [OF ap, of set] by auto
    then show "\<forall>l \<in> set (ap_links a). l < length (ae_alinks s')" using assms(1) n by (auto simp: heap_ok_def)
  qed
  ultimately show ?thesis using anchors_evolves [OF g n(4)] assms(1) unfolding heap_ok_def by simp
qed

text \<open>\<open>stays s s'\<close>: what exists in \<open>s\<close> has not moved in \<open>s'\<close>.\<close>

definition stays :: "editor \<Rightarrow> editor \<Rightarrow> bool" where
  "stays s s' \<longleftrightarrow> 
     (\<forall>a < length (ae_apps s). ap_posX (ae_apps s' ! a) = ap_posX (ae_apps s ! a) \<and> ap_posY (ae_apps s' ! a) = ap_posY (ae_apps s ! a)) \<and>
     (\<forall>e < length (ae_elts s). map (\<lambda>z. (az_x z, az_y z)) (ee_zones (ae_elts s' ! e)) = map (\<lambda>z. (az_x z, az_y z)) (ee_zones (ae_elts s ! e)))"

lemma stays_places: "places s' = places s \<Longrightarrow> stays s s'"
proof -
  assume "places s' = places s"
  then have p: "map (\<lambda>a. (ap_posX a, ap_posY a)) (ae_apps s) = map (\<lambda>a. (ap_posX a, ap_posY a)) (ae_apps s')"
    and z: "map (\<lambda>e. map (\<lambda>z. (az_x z, az_y z)) (ee_zones e)) (ae_elts s) = map (\<lambda>e. map (\<lambda>z. (az_x z, az_y z)) (ee_zones e)) (ae_elts s')"
    by (simp_all add: places_def)
  show ?thesis unfolding stays_def using map_eq_nth [OF p] map_eq_nth [OF z] by simp
qed

lemma evolves_app_at: "evolves s s' \<Longrightarrow> e < length (ae_elts s) \<Longrightarrow> app_at s' e = app_at s e"
  using app_of_shape [of "ae_elts s' ! e" "ae_elts s ! e"] by (simp add: app_at_def evolves_def)

lemma app_at_less: "heap_ok s \<Longrightarrow> e < length (ae_elts s) \<Longrightarrow> app_at s e < length (ae_apps s)"
  by (simp add: heap_ok_def elt_ok_def app_at_def)

lemma placed_stays:
  assumes "heap_ok s" and "evolves s s'" and "stays s s'" and "e < length (ae_elts s)" and "placed s (ae_elts s ! e)"
  shows "placed s' (ae_elts s' ! e)"
proof -
  have "elt_shape (ae_elts s' ! e) = elt_shape (ae_elts s ! e)" using assms(2, 4) by (simp add: evolves_def)
  note sh = app_of_shape [OF this]
  have "ee_app (ae_elts s ! e) < length (ae_apps s)" using app_at_less [OF assms(1, 4)] by (simp add: app_at_def)
  then show ?thesis using assms(3 - 5) sh by (simp add: placed_def stays_def)
qed

lemma view_ok_frame:
  assumes "heap_ok s" and "view_ok s" and g: "evolves s s'" and "stays s s'"
    and sub: "set (ae_elements s') \<subseteq> set (ae_elements s)" and "distinct (map (app_at s) (ae_elements s'))"
    and "\<forall>l \<in> set (ae_links s'). l < length (ae_lks s')" and "\<forall>a \<in> set (ae_applications s'). a < length (ae_apps s')"
  shows "view_ok s'"
proof -
  have e: "e < length (ae_elts s) \<and> placed s (ae_elts s ! e)" if "e \<in> set (ae_elements s')" for e
    using that sub assms(2) by (auto simp: view_ok_def)
  have "map (app_at s') (ae_elements s') = map (app_at s) (ae_elements s')"
    using e evolves_app_at [OF g] by simp
  moreover have "length (ae_elts s) \<le> length (ae_elts s')" using g by (simp add: evolves_def)
  moreover have "placed s' (ae_elts s' ! e)" if "e \<in> set (ae_elements s')" for e
    using placed_stays [OF assms(1) g assms(4)] e [OF that] by simp
  ultimately show ?thesis using assms(6 - 8) e unfolding view_ok_def by (metis order_less_le_trans)
qed

lemma sel_frame:
  assumes "evolves s s'" and "length (ae_lks s) \<le> length (ae_lks s')"
  shows "sel_link_ok s x \<Longrightarrow> sel_link_ok s' x" and "sel_anchor_ok s y \<Longrightarrow> sel_anchor_ok s' y"
    and "sel_target_ok s z \<Longrightarrow> sel_target_ok s' z"
    and "sel_elt_ok s w \<Longrightarrow> (\<And>e. w = Some e \<Longrightarrow> e < length (ae_elts s) \<Longrightarrow> loose s e \<Longrightarrow> loose s' e) \<Longrightarrow> sel_elt_ok s' w"
  using assms attached_evolves [OF assms(1)]
  by (auto simp: sel_link_ok_def sel_anchor_ok_def sel_target_ok_def sel_elt_ok_def evolves_def intro: order_less_le_trans)

text \<open>A state that differs in flags, selections and the view only.\<close>

definition static :: "editor \<Rightarrow> editor \<Rightarrow> bool" where
  "static s s' \<longleftrightarrow> core s' = core s \<and> places s' = places s \<and>
     ae_elements s' = ae_elements s \<and> ae_links s' = ae_links s \<and> ae_applications s' = ae_applications s"

lemma static_refl: "static s s"
  by (simp add: static_def)

lemma static_trans: "static s s' \<Longrightarrow> static s' s'' \<Longrightarrow> static s s''"
  by (simp add: static_def)

lemma static_evolves: "static s s' \<Longrightarrow> evolves s s'"
  by (simp add: static_def core_def evolves_shape)

lemma static_lks: "static s s' \<Longrightarrow> length (ae_lks s') = length (ae_lks s)"
  by (auto simp: static_def core_def dest: map_eq_imp_length_eq)

lemma static_heap_view:
  assumes "static s s'" and "heap_ok s" and "view_ok s"
  shows "heap_ok s'" and "view_ok s'"
proof -
  show "heap_ok s'" using assms heap_ok_core by (auto simp: static_def)
  have n: "length (ae_apps s') = length (ae_apps s)"
    using assms(1) by (auto simp: static_def core_def dest: shape_lengths)
  show "view_ok s'"
    by (rule view_ok_frame [OF assms(2, 3) static_evolves [OF assms(1)]])
      (use assms static_lks [OF assms(1)] n in \<open>auto simp: static_def view_ok_def intro: stays_places\<close>)
qed

lemma loose_static:
  assumes st: "static s s'" and "view_ok s" and "e < length (ae_elts s)"
  shows "loose s' e = loose s e"
proof -
  have "app_at s' ` set (ae_elements s) = app_at s ` set (ae_elements s)"
    by (rule image_cong) (use assms evolves_app_at [OF static_evolves [OF st]] in \<open>auto simp: view_ok_def\<close>)
  moreover have "app_at s' e = app_at s e" using evolves_app_at [OF static_evolves [OF st]] assms(3) by simp
  ultimately show ?thesis using st by (simp add: loose_def static_def)
qed

lemma static_selection:
  assumes "static s s'" and "view_ok s"
  shows "sel_link_ok s x \<Longrightarrow> sel_link_ok s' x" and "sel_anchor_ok s y \<Longrightarrow> sel_anchor_ok s' y"
    and "sel_target_ok s z \<Longrightarrow> sel_target_ok s' z" and "sel_elt_ok s w \<Longrightarrow> sel_elt_ok s' w"
  using sel_frame [OF static_evolves [OF assms(1)]] static_lks [OF assms(1)] loose_static [OF assms] by simp_all

section \<open>Events that change flags and selections\<close>

named_theorems static_intros \<open>operations that leave a state static\<close>

lemma map_update_same: "f y = f (xs ! i) \<Longrightarrow> map f (xs[i := y]) = map f xs"
  by (cases "i < length xs") (simp_all add: map_update list_update_same_conv list_update_beyond)

lemma static_anchors [static_intros]:
  "map aa_direction as = map aa_direction (ae_anchors s) \<Longrightarrow> static s (s\<lparr>ae_anchors := as\<rparr>)"
  by (simp add: static_def core_def places_def shape_def)

lemma static_flag_link [static_intros]: "static s (flag_link l b s)"
  by (simp add: static_def core_def places_def shape_def flag_link_def map_update_same link_core_def)

lemma static_flag_element [static_intros]: "static s (flag_element e b s)"
  by (simp add: static_def core_def places_def shape_def flag_element_def map_update_same elt_shape_def)

lemma static_flag_anchor [static_intros]: "static s (flag_anchor i b s)"
  unfolding flag_anchor_def by (rule static_anchors) (simp add: map_update_same)

lemma static_move_anchor [static_intros]: "static s (move_anchor i x y s)"
  unfolding move_anchor_def by (rule static_anchors) (simp add: map_update_same)

lemma static_when_some [static_intros]: "(\<And>x t. static t (f x t)) \<Longrightarrow> static s (when_some f y s)"
  by (simp add: when_some_def static_refl split: option.split)

lemma static_fold: "(\<And>x t. static t (f x t)) \<Longrightarrow> static s (fold f xs s)"
proof (induction xs arbitrary: s)
  case (Cons x xs)
  then show ?case using static_trans [of s "f x s"] by simp
qed (simp add: static_refl)

lemma static_set_editable [static_intros]: "static s (set_editable is s)"
proof -
  have "map aa_direction (fold (\<lambda>i as. as[i := (as ! i)\<lparr>aa_isEditable := True\<rparr>]) is as) = map aa_direction as" for as :: "ae_anchor list"
    by (induction "is" arbitrary: as) (simp_all add: map_update_same)
  then show ?thesis unfolding set_editable_def by (intro static_anchors) simp
qed

lemma static_selections [static_intros]:
  "static s (s\<lparr>ae_selElement := a\<rparr>)" "static s (s\<lparr>ae_selLink := b\<rparr>)" "static s (s\<lparr>ae_selAnchorLink := c\<rparr>)"
  "static s (s\<lparr>ae_selAnchorElement := d\<rparr>)" "static s (s\<lparr>ae_isMoving := m\<rparr>)" "static s (s\<lparr>ae_previousPoint := p\<rparr>)"
  "static s (s\<lparr>ae_previousMouse := q\<rparr>)" "static s (s\<lparr>ae_viewBox := v, ae_emitted := w\<rparr>)" "static s (s\<lparr>ae_startMoving := x\<rparr>)"
  by (simp_all add: static_def core_def places_def shape_def)

text \<open>The selection and the mode of a state, which the operations on flags leave alone.\<close>

definition picks :: "editor \<Rightarrow> nat option \<times> nat option \<times> (nat \<times> nat \<times> bool \<times> rat \<times> rat) option \<times> (nat \<times> nat) option" where
  "picks s = (ae_selElement s, ae_selLink s, ae_selAnchorLink s, ae_selAnchorElement s)"

lemma picks_flags [simp]:
  "picks (flag_link l b s) = picks s" "picks (flag_element e b s) = picks s" "picks (flag_anchor i b s) = picks s"
  "picks (move_anchor i x y s) = picks s" "picks (set_editable is s) = picks s"
  by (simp_all add: picks_def flag_link_def flag_element_def flag_anchor_def move_anchor_def set_editable_def)

lemma picks_when_some: "(\<And>x t. picks (f x t) = picks t) \<Longrightarrow> picks (when_some f y s) = picks s"
  by (simp add: when_some_def split: option.split)

lemma picks_fold: "(\<And>x t. picks (f x t) = picks t) \<Longrightarrow> picks (fold f xs s) = picks s"
  by (induction xs arbitrary: s) simp_all

lemma selection_ok_picks:
  assumes "static s s'" and "ae_ok s" and "picks s' = picks s"
  shows "ae_ok s'"
  using assms static_heap_view [OF assms(1)] static_selection [OF assms(1)]
  by (simp add: ae_ok_def selection_ok_def picks_def)

lemma clear_flags_static: "static s (clear_flags s)" "picks (clear_flags s) = picks s"
  unfolding clear_flags_def
  by (blast intro: static_trans [OF static_fold static_fold] static_intros)
    (simp add: picks_fold)

lemma find_link_in: "find_link k s = Some l \<Longrightarrow> l \<in> set (ae_links s)"
  by (auto simp: find_link_def find_Some_iff)

lemma find_element_in: "find_element k s = Some e \<Longrightarrow> e \<in> set (ae_elements s)"
  by (auto simp: find_element_def find_Some_iff)

lemma unselect_ok: "ae_ok s \<Longrightarrow> ae_ok (unselectElement s)" "ae_ok s \<Longrightarrow> ae_ok (unselectLink s)"
proof -
  assume ok: "ae_ok s"
  have st: "static s (unselectElement s)" "static s (unselectLink s)"
    unfolding unselectElement_def unselectLink_def
    by (rule static_trans [OF static_when_some static_selections(1)] static_trans [OF static_when_some static_selections(2)], rule static_intros)+
  show "ae_ok (unselectElement s)"
    using ok static_heap_view [OF st(1)] static_selection [OF st(1)]
    by (auto simp: ae_ok_def selection_ok_def unselectElement_def when_some_def sel_elt_ok_def flag_element_def split: option.splits)
  show "ae_ok (unselectLink s)"
    using ok static_heap_view [OF st(2)] static_selection [OF st(2)]
    by (auto simp: ae_ok_def selection_ok_def unselectLink_def when_some_def sel_link_ok_def flag_link_def split: option.splits)
qed

text \<open>The three parts of a press of the mouse\<close>

lemma selectLink_ok:
  assumes "selectLink t s = Some s'"
  shows "static s s'" and "ae_selLink s' = None \<or> (\<exists>l. ae_selLink s' = Some l \<and> l \<in> set (ae_links s))"
    and "(ae_selElement s', ae_selAnchorLink s', ae_selAnchorElement s') = 
         (ae_selElement s, ae_selAnchorLink s, ae_selAnchorElement s)"
proof -
  let ?s1 = "when_some (\<lambda>l. flag_link l False) (ae_selLink s) s"
  have st: "static s ?s1" by (rule static_when_some) (rule static_intros)
  have p: "picks ?s1 = picks s" by (rule picks_when_some) simp
  from assms consider "s' = ?s1\<lparr>ae_selLink := None\<rparr>"
    | l k where "find_link k ?s1 = Some l" "s' = flag_link l True (?s1\<lparr>ae_selLink := Some l\<rparr>)"
    by (auto simp: selectLink_def Let_def split: if_splits Option.bind_splits)
  then have "static s s' \<and> (ae_selLink s' = None \<or> (\<exists>l. ae_selLink s' = Some l \<and> l \<in> set (ae_links s))) \<and>
     (ae_selElement s', ae_selAnchorLink s', ae_selAnchorElement s') = 
         (ae_selElement s, ae_selAnchorLink s, ae_selAnchorElement s)"
  proof cases
    case 1
    then show ?thesis using static_trans [OF st static_selections(2)] p by (simp add: picks_def)
  next
    case 2
    have "l \<in> set (ae_links s)" using find_link_in [OF 2(1)] st by (simp add: static_def)
    moreover have "static s s'" unfolding 2(2)
      by (rule static_trans [OF st static_trans [OF static_selections(2) static_flag_link]])
    moreover have "picks s' = picks (?s1\<lparr>ae_selLink := Some l\<rparr>)" unfolding 2(2) by simp
    ultimately show ?thesis using p by (simp add: picks_def)
  qed
  then show "static s s'" and "ae_selLink s' = None \<or> (\<exists>l. ae_selLink s' = Some l \<and> l \<in> set (ae_links s))"
    and "(ae_selElement s', ae_selAnchorLink s', ae_selAnchorElement s') = 
         (ae_selElement s, ae_selAnchorLink s, ae_selAnchorElement s)" by blast+
qed

lemma startMovingAnchor_ok:
  assumes "startMovingAnchor t s = Some s'" and "heap_ok s" and "view_ok s" and "sel_anchor_ok s (ae_selAnchorLink s)"
  shows "static s s'" and "sel_anchor_ok s (ae_selAnchorLink s')"
    and "(ae_selElement s', ae_selLink s', ae_selAnchorElement s') =
         (ae_selElement s, ae_selLink s, ae_selAnchorElement s)"
proof -
  have lk: "l < length (ae_lks s) \<and> lk_start (ae_lks s ! l) < length (ae_anchors s) \<and> lk_end (ae_lks s ! l) < length (ae_anchors s)"
    if "find_link k s = Some l" for k l
    using find_link_in [OF that] assms(2, 3) by (simp add: view_ok_def heap_ok_def link_ok_def)
  from assms(1) show "static s s'"
    by (auto simp: startMovingAnchor_def Let_def static_refl static_selections split: option.splits Option.bind_splits)
  from assms(1, 4) lk show "sel_anchor_ok s (ae_selAnchorLink s')"
    by (auto simp: startMovingAnchor_def sel_anchor_ok_def Let_def split: option.splits Option.bind_splits)
  from assms(1) show "(ae_selElement s', ae_selLink s', ae_selAnchorElement s') =
         (ae_selElement s, ae_selLink s, ae_selAnchorElement s)"
    by (auto simp: startMovingAnchor_def Let_def split: option.splits Option.bind_splits)
qed

lemma selectElement_ok:
  assumes "selectElement t s = Some s'"
  shows "static s s'" and "ae_selElement s' = None \<or> (\<exists>e. ae_selElement s' = Some e \<and> e \<in> set (ae_elements s))"
    and "(ae_selLink s', ae_selAnchorLink s', ae_selAnchorElement s') = 
         (ae_selLink s, ae_selAnchorLink s, ae_selAnchorElement s)"
proof -
  let ?s1 = "when_some (\<lambda>e. flag_element e False) (ae_selElement s) s"
  have st: "static s ?s1" by (rule static_when_some) (rule static_intros)
  have p: "picks ?s1 = picks s" by (rule picks_when_some) simp
  from assms consider "s' = ?s1\<lparr>ae_selElement := None\<rparr>"
    | e k off where "find_element k ?s1 = Some e" 
        "s' = ?s1\<lparr>ae_selElement := Some e, ae_elts := (ae_elts ?s1)[e := (ae_elts ?s1 ! e)\<lparr>ee_dragOffset := Some off, ee_isSelected := True\<rparr>]\<rparr>"
    by (auto simp: selectElement_def Let_def split: option.splits Option.bind_splits)
  then have "static s s' \<and> (ae_selElement s' = None \<or> (\<exists>e. ae_selElement s' = Some e \<and> e \<in> set (ae_elements s))) \<and>
     (ae_selLink s', ae_selAnchorLink s', ae_selAnchorElement s') = 
         (ae_selLink s, ae_selAnchorLink s, ae_selAnchorElement s)"
  proof cases
    case 1
    then show ?thesis using static_trans [OF st static_selections(1)] p by (simp add: picks_def)
  next
    case 2
    have "e \<in> set (ae_elements s)" using find_element_in [OF 2(1)] st by (simp add: static_def)
    moreover have "static ?s1 s'" unfolding 2(2)
      by (simp add: static_def core_def places_def shape_def map_update_same elt_shape_def)
    ultimately show ?thesis using p static_trans [OF st] by (simp add: picks_def 2(2))
  qed
  then show "static s s'" and "ae_selElement s' = None \<or> (\<exists>e. ae_selElement s' = Some e \<and> e \<in> set (ae_elements s))"
    and "(ae_selLink s', ae_selAnchorLink s', ae_selAnchorElement s') = 
         (ae_selLink s, ae_selAnchorLink s, ae_selAnchorElement s)" by blast+
qed

lemma onmousedown_ok:
  assumes ok: "ae_ok s" and r: "onmousedown_ae ctm client t s = Some s'"
  shows "ae_ok s'"
proof -
  let ?s1 = "clear_flags (s\<lparr>ae_isMoving := True, ae_previousPoint := ctm client\<rparr>)"
  have st: "static s ?s1"
    by (rule static_trans [OF _ clear_flags_static(1)]) (rule static_trans [OF static_selections(5) static_selections(6)])
  have p1: "picks ?s1 = picks s" unfolding clear_flags_static(2) by (simp add: picks_def)
  have ok1: "ae_ok ?s1" by (rule selection_ok_picks [OF st ok p1])
  show ?thesis
  proof (cases "ae_startMoving ?s1")
    case True
    then have "\<exists>q. s' = ?s1\<lparr>ae_previousMouse := q\<rparr>"
      using r by (auto simp: onmousedown_ae_def Let_def split: prod.splits)
    then show ?thesis using selection_ok_picks [OF static_selections(7) ok1] by (auto simp: picks_def)
  next
    case False
    then obtain s2 s3 where s2: "selectLink t ?s1 = Some s2" and s3: "startMovingAnchor t s2 = Some s3" and s4: "selectElement t s3 = Some s'"
      using r by (auto simp: onmousedown_ae_def Let_def split: Option.bind_splits)
    note l = selectLink_ok [OF s2]
    have hv1: "heap_ok ?s1" "view_ok ?s1" and sel1: "selection_ok ?s1" using ok1 by (auto simp: ae_ok_def)
    have hv2: "heap_ok s2" "view_ok s2" using static_heap_view [OF l(1)] hv1 by auto
    have a2: "sel_anchor_ok s2 (ae_selAnchorLink s2)"
      using static_selection(2) [OF l(1) hv1(2)] sel1 l(3) by (simp add: selection_ok_def)
    note a = startMovingAnchor_ok [OF s3 hv2 a2] and e = selectElement_ok [OF s4]
    have st14: "static ?s1 s'" and st24: "static s2 s'"
      using static_trans [OF l(1) static_trans [OF a(1) e(1)]] static_trans [OF a(1) e(1)] by auto
    have hv4: "heap_ok s'" "view_ok s'" using static_heap_view [OF st14] hv1 by auto
    have same: "ae_links s' = ae_links ?s1" "ae_elements s' = ae_elements s3"
      using st14 e(1) by (simp_all add: static_def)
    have "sel_elt_ok s' (ae_selElement s')"
      using e(2) hv4(2) same by (auto simp: sel_elt_ok_def loose_def view_ok_def)
    moreover have "sel_link_ok s' (ae_selLink s')"
      using l(2) a(3) e(3) hv4(2) same by (auto simp: sel_link_ok_def view_ok_def)
    moreover have "sel_anchor_ok s' (ae_selAnchorLink s')"
      using static_selection(2) [OF st24 hv2(2) a(2)] e(3) by simp
    moreover have "sel_target_ok s' (ae_selAnchorElement s')"
      using static_selection(3) [OF st14 hv1(2)] sel1 l(3) a(3) e(3) by (simp add: selection_ok_def)
    ultimately show ?thesis using hv4 by (simp add: ae_ok_def selection_ok_def)
  qed
qed

section \<open>Removing\<close>

lemma remove_frame:
  assumes ok: "ae_ok s" and "heap_ok s'" and g: "evolves s s'" and "stays s s'" and n: "length (ae_lks s) \<le> length (ae_lks s')"
    and sub: "set (ae_elements s') \<subseteq> set (ae_elements s)" and "distinct (map (app_at s) (ae_elements s'))"
    and links: "set (ae_links s') \<subseteq> set (ae_links s)" and apps: "set (ae_applications s') \<subseteq> set (ae_applications s)"
    and "picks s' = picks s"
  shows "ae_ok s'"
proof -
  have hv: "heap_ok s" "view_ok s" and sel: "selection_ok s" using ok by (auto simp: ae_ok_def)
  have "view_ok s'"
    by (rule view_ok_frame [OF hv g assms(4) sub assms(7)])
      (use hv(2) links apps n g in \<open>auto simp: view_ok_def evolves_def intro: order_less_le_trans\<close>)
  moreover have "loose s' e" if "e < length (ae_elts s)" "loose s e" for e
  proof -
    have "inj_on (app_at s) (set (ae_elements s))" using hv(2) by (simp add: view_ok_def distinct_map)
    then have "e \<in> set (ae_elements s') \<or> app_at s e \<notin> app_at s ` set (ae_elements s')"
      using that(2) sub by (auto simp: loose_def inj_on_def)
    moreover have "app_at s' ` set (ae_elements s') = app_at s ` set (ae_elements s')"
      by (rule image_cong) (use sub hv(2) evolves_app_at [OF g] in \<open>auto simp: view_ok_def\<close>)
    ultimately show ?thesis using evolves_app_at [OF g that(1)] by (simp add: loose_def)
  qed
  ultimately show ?thesis using sel assms(2, 10) sel_frame [OF g n]
    by (simp add: ae_ok_def selection_ok_def picks_def)
qed

lemma shrink_ok:
  assumes "ae_ok s"
  shows "ae_ok (s\<lparr>ae_applications := js_splice a n (ae_applications s)\<rparr>)" (is "ae_ok ?t")
    and "ae_ok (s\<lparr>ae_elements := js_splice b m (ae_elements s)\<rparr>)" (is "ae_ok ?u")
    and "ae_ok (s\<lparr>ae_links := js_splice c k (ae_links s)\<rparr>)" (is "ae_ok ?v")
proof -
  have c: "core ?t = core s" "core ?u = core s" "core ?v = core s" "places ?t = places s" "places ?u = places s" "places ?v = places s"
    by (simp_all add: core_def shape_def places_def)
  have hv: "heap_ok s" "distinct (map (app_at s) (ae_elements s))" using assms by (simp_all add: ae_ok_def view_ok_def)
  have g: "evolves s ?t" "evolves s ?u" "evolves s ?v" using c(1 - 3) by (simp_all add: core_def evolves_shape)
  have h: "heap_ok ?t" "heap_ok ?u" "heap_ok ?v" using heap_ok_core [OF hv(1)] c by blast+
  show "ae_ok ?t"
    by (rule remove_frame [OF assms h(1) g(1) stays_places [OF c(4)]])
      (use hv(2) in \<open>auto simp: picks_def dest: subsetD [OF set_js_splice_subset]\<close>)
  show "ae_ok ?u"
    by (rule remove_frame [OF assms h(2) g(2) stays_places [OF c(5)]])
      (use hv(2) in \<open>auto simp: picks_def distinct_map_js_splice dest: subsetD [OF set_js_splice_subset]\<close>)
  show "ae_ok ?v"
    by (rule remove_frame [OF assms h(3) g(3) stays_places [OF c(6)]])
      (use hv(2) in \<open>auto simp: picks_def dest: subsetD [OF set_js_splice_subset]\<close>)
qed

lemma set_editable_ok: "ae_ok s \<Longrightarrow> ae_ok (set_editable is s)"
  by (rule selection_ok_picks [OF static_set_editable]) simp_all

lemma removeElement_ok: "ae_ok s \<Longrightarrow> ae_ok (removeElement i s)"
  unfolding removeElement_def Let_def by (intro shrink_ok set_editable_ok)

lemma app_links_less: "heap_ok s \<Longrightarrow> a < length (ae_apps s) \<Longrightarrow> l \<in> set (ap_links (ae_apps s ! a)) \<Longrightarrow> l < length (ae_alinks s)"
  using nth_mem [of a "ae_apps s"] unfolding heap_ok_def by metis

lemma set_app_links_ok:
  assumes ok: "ae_ok s" and ls: "\<forall>l \<in> set ls. l < length (ae_alinks s)"
  shows "ae_ok (set_app_links a ls s)"
proof -
  let ?t = "set_app_links a ls s"
  have sh: "shape ?t = shape s" and p: "places ?t = places s"
    by (simp_all add: set_app_links_def shape_def places_def map_update_same)
  note g = evolves_shape [OF sh]
  have h: "heap_ok s" and v: "view_ok s" using ok by (auto simp: ae_ok_def)
  have fields: "ae_elts ?t = ae_elts s" "ae_lks ?t = ae_lks s" "ae_alinks ?t = ae_alinks s"
    and vis: "ae_elements ?t = ae_elements s" "ae_links ?t = ae_links s" "ae_applications ?t = ae_applications s"
    by (simp_all add: set_app_links_def)
  have "\<forall>x \<in> set (ae_apps ?t). \<forall>l \<in> set (ap_links x). l < length (ae_alinks s)"
    using h ls by (auto simp: set_app_links_def heap_ok_def dest!: subsetD [OF set_update_subset_insert])
  moreover have "elt_ok ?t e" if "e \<in> set (ae_elts s)" for e
    using elt_ok_evolves [OF g] that h by (auto simp: heap_ok_def)
  moreover have "link_ok ?t l" if "l \<in> set (ae_lks s)" for l
    using link_ok_evolves [OF g] that h by (auto simp: heap_ok_def)
  ultimately have "heap_ok ?t" using h by (simp add: heap_ok_def fields)
  then show ?thesis
    by (rule remove_frame [OF ok _ g stays_places [OF p]])
      (use v in \<open>auto simp: vis fields view_ok_def picks_def set_app_links_def\<close>)
qed

lemma remove_selected_ok:
  assumes ok: "ae_ok s"
  shows "ae_ok (remove_selected s)"
proof (cases "ae_selLink s")
  case None
  then show ?thesis using shrink_ok(2) [OF shrink_ok(1) [OF ok]] ok by (simp add: remove_selected_def split: option.split)
next
  case (Some l)
  define al where "al = lk_applicationLink (ae_lks s ! l)"
  have "ae_ok (case lk_startElement (ae_lks s ! l) of None \<Rightarrow> s | Some e \<Rightarrow>
     (let a = ee_app (ae_elts s ! e); links = ap_links (ae_apps s ! a)
      in set_app_links a (js_splice (js_findIndex (\<lambda>x. x = al) links) 1 links) s))" (is "ae_ok ?s1")
  proof (cases "lk_startElement (ae_lks s ! l)")
    case (Some e)
    have h: "heap_ok s" "selection_ok s" using ok by (auto simp: ae_ok_def)
    then have "link_ok s (ae_lks s ! l)" using \<open>ae_selLink s = Some l\<close> by (simp add: heap_ok_def selection_ok_def sel_link_ok_def)
    then have "e < length (ae_elts s)" using Some by (simp add: link_ok_def attached_def)
    then have "ee_app (ae_elts s ! e) < length (ae_apps s)" using app_at_less [OF h(1)] by (simp add: app_at_def)
    then have "\<forall>x \<in> set (ap_links (ae_apps s ! ee_app (ae_elts s ! e))). x < length (ae_alinks s)"
      using app_links_less [OF h(1)] by blast
    then show ?thesis using Some set_app_links_ok [OF ok] set_js_splice_subset by (fastforce simp: Let_def)
  qed (use ok in simp)
  moreover have "remove_selected s = ?s1\<lparr>ae_links := js_splice (js_findIndex (\<lambda>x. x = l) (ae_links ?s1)) 1 (ae_links ?s1)\<rparr>"
    by (simp only: remove_selected_def remove_link_def Some option.case Let_def al_def)
  ultimately show ?thesis by (simp only: shrink_ok)
qed

section \<open>Dragging and connecting\<close>

lemma intersect_in: "intersect s e i = Some j \<Longrightarrow> j \<in> set (anchors_of e)"
proof -
  assume a: "intersect s e i = Some j"
  then obtain z where "filter (\<lambda>z. az_x z \<le> aa_x (ae_anchors s ! i) \<and> aa_x (ae_anchors s ! i) \<le> az_x z + az_width z \<and>
      az_y z \<le> aa_y (ae_anchors s ! i) \<and> aa_y (ae_anchors s ! i) \<le> az_y z + az_height z) (ee_zones e) = [z]" and "j = az_anchor z"
    by (auto simp: intersect_def Let_def split: list.splits)
  then have "z \<in> set (ee_zones e)" by (metis (no_types, lifting) filter_is_subset list.set_intros(1) subset_iff)
  then show ?thesis using \<open>j = az_anchor z\<close> by (simp add: anchors_of_def)
qed

lemma moveSelectedAnchorLink_ok:
  assumes ok: "ae_ok s"
  shows "ae_ok (moveSelectedAnchorLink c s)"
proof (cases "ae_selAnchorLink s")
  case (Some x)
  obtain l i b dx dy where x: "x = (l, i, b, dx, dy)" by (cases x)
  define s1 where "s1 = move_anchor i (fst c - dx) (snd c - dy) s"
  have ok1: "ae_ok s1" unfolding s1_def by (rule selection_ok_picks [OF static_move_anchor ok]) simp
  then have sel1: "selection_ok s1" and v1: "view_ok s1" by (auto simp: ae_ok_def)
  have target: "ae_ok (flag_anchor j b (s1\<lparr>ae_selAnchorElement := t\<rparr>))" if "sel_target_ok s1 t" for j b t
  proof -
    have st: "static s1 (s1\<lparr>ae_selAnchorElement := t\<rparr>)" by (rule static_selections)
    have "ae_ok (s1\<lparr>ae_selAnchorElement := t\<rparr>)"
      using ok1 sel1 static_heap_view [OF st] static_selection [OF st v1] that
      by (simp add: ae_ok_def selection_ok_def)
    then show ?thesis by (rule selection_ok_picks [OF static_flag_anchor]) simp
  qed
  have r: "moveSelectedAnchorLink c s =
     (case filter (\<lambda>e. intersect s1 (ae_elts s1 ! e) i \<noteq> None) (ae_elements s1) of
        [e] \<Rightarrow> (case intersect s1 (ae_elts s1 ! e) i of
                  Some j \<Rightarrow> flag_anchor j True (s1\<lparr>ae_selAnchorElement := Some (e, j)\<rparr>) | None \<Rightarrow> s1)
      | _ \<Rightarrow> (case ae_selAnchorElement s1 of None \<Rightarrow> s1
                | Some (e, j) \<Rightarrow> flag_anchor j False (s1\<lparr>ae_selAnchorElement := None\<rparr>)))"
    by (simp only: moveSelectedAnchorLink_def Some x option.case prod.case Let_def s1_def)
  have none: "ae_ok (case ae_selAnchorElement s1 of None \<Rightarrow> s1
                | Some (e, j) \<Rightarrow> flag_anchor j False (s1\<lparr>ae_selAnchorElement := None\<rparr>))"
    using ok1 target by (auto simp: sel_target_ok_def split: option.split)
  show ?thesis
  proof (cases "\<exists>e. filter (\<lambda>e. intersect s1 (ae_elts s1 ! e) i \<noteq> None) (ae_elements s1) = [e]")
    case True
    then obtain e where e: "filter (\<lambda>e. intersect s1 (ae_elts s1 ! e) i \<noteq> None) (ae_elements s1) = [e]" by blast
    then have "e \<in> set (ae_elements s1)" by (metis (no_types, lifting) filter_is_subset list.set_intros(1) subset_iff)
    then have "e < length (ae_elts s1)" using v1 by (simp add: view_ok_def)
    then have "sel_target_ok s1 (Some (e, j))" if "intersect s1 (ae_elts s1 ! e) i = Some j" for j
      using intersect_in [OF that] by (simp add: sel_target_ok_def attached_def)
    then show ?thesis unfolding r e using ok1 target by (simp split: option.split)
  next
    case False
    then have "moveSelectedAnchorLink c s = (case ae_selAnchorElement s1 of None \<Rightarrow> s1
                | Some (e, j) \<Rightarrow> flag_anchor j False (s1\<lparr>ae_selAnchorElement := None\<rparr>))"
      unfolding r by (auto split: list.split)
    then show ?thesis using none by simp
  qed
qed (use ok in \<open>simp add: moveSelectedAnchorLink_def\<close>)

text \<open>\<open>Element.update\<close>\<close>

lemma update_zones_spec:
  assumes "update_zones as zs s = (zs', s')" and "length as = length zs"
  shows "static s s'" and "picks s' = picks s" and "ae_elts s' = ae_elts s" and "ae_apps s' = ae_apps s"
    and "map (\<lambda>z. (az_anchor z, az_width z, az_height z)) zs' = map (\<lambda>z. (az_anchor z, az_width z, az_height z)) zs"
    and "map (\<lambda>z. (az_x z, az_y z)) zs' = map (\<lambda>a. (aa_x a - 25, aa_y a - 25)) as"
proof -
  have "static s s' \<and> picks s' = picks s \<and> ae_elts s' = ae_elts s \<and> ae_apps s' = ae_apps s \<and> 
    map (\<lambda>z. (az_anchor z, az_width z, az_height z)) zs' = map (\<lambda>z. (az_anchor z, az_width z, az_height z)) zs \<and>
    map (\<lambda>z. (az_x z, az_y z)) zs' = map (\<lambda>a. (aa_x a - 25, aa_y a - 25)) as"
    using assms
  proof (induction as zs s arbitrary: zs' s' rule: update_zones.induct)
    case (1 a as z zs s)
    obtain zs1 s1 where u: "update_zones as zs (move_anchor (az_anchor z) (aa_x a) (aa_y a) s) = (zs1, s1)" by fastforce
    have e: "zs' = z\<lparr>az_x := aa_x a - 25, az_y := aa_y a - 25\<rparr> # zs1" "s' = s1" using "1.prems"(1) u by auto
    have "length as = length zs" using "1.prems"(2) by simp
    note ih = "1.IH" [OF refl u this]
    have "ae_elts (move_anchor (az_anchor z) (aa_x a) (aa_y a) s) = ae_elts s" "ae_apps (move_anchor (az_anchor z) (aa_x a) (aa_y a) s) = ae_apps s"
      by (simp_all add: move_anchor_def)
    then show ?case using ih static_trans [OF static_move_anchor, of "az_anchor z" "aa_x a" "aa_y a" s s1] by (simp add: e)
  qed (auto simp: static_refl)
  then show "static s s'" and "picks s' = picks s" and "ae_elts s' = ae_elts s" and "ae_apps s' = ae_apps s"
    and "map (\<lambda>z. (az_anchor z, az_width z, az_height z)) zs' = map (\<lambda>z. (az_anchor z, az_width z, az_height z)) zs"
    and "map (\<lambda>z. (az_x z, az_y z)) zs' = map (\<lambda>a. (aa_x a - 25, aa_y a - 25)) as" by blast+
qed

definition spot :: "editor \<Rightarrow> nat \<Rightarrow> rat \<times> rat" where
  "spot s i = (aa_x (ae_anchors s ! i), aa_y (ae_anchors s ! i))"

lemma update_zones_anchors:
  assumes "update_zones as zs s = (zs', s')" and "length as = length zs" and "distinct (map az_anchor zs)"
    and "\<forall>z \<in> set zs. az_anchor z < length (ae_anchors s)"
  shows "map (\<lambda>z. spot s' (az_anchor z)) zs = map (\<lambda>a. (aa_x a, aa_y a)) as \<and> (\<forall>i. i \<notin> az_anchor ` set zs \<longrightarrow> spot s' i = spot s i)"
  using assms
proof (induction as zs s arbitrary: zs' s' rule: update_zones.induct)
  case (1 a as z zs s)
  let ?s1 = "move_anchor (az_anchor z) (aa_x a) (aa_y a) s"
  obtain zs1 where u: "update_zones as zs ?s1 = (zs1, s')" using "1.prems"(1) by (auto split: prod.splits)
  have ih: "map (\<lambda>z. spot s' (az_anchor z)) zs = map (\<lambda>a. (aa_x a, aa_y a)) as" "\<forall>i. i \<notin> az_anchor ` set zs \<longrightarrow> spot s' i = spot ?s1 i"
    using "1.IH" [OF refl u] "1.prems"(2 - 4) by (simp_all add: move_anchor_def)
  have "spot ?s1 (az_anchor z) = (aa_x a, aa_y a)" "\<forall>i. i \<noteq> az_anchor z \<longrightarrow> spot ?s1 i = spot s i"
    using "1.prems"(4) by (simp_all add: spot_def move_anchor_def)
  then show ?case using ih "1.prems"(3) by auto
qed auto

lemma zones_length: "heap_ok s \<Longrightarrow> e < length (ae_elts s) \<Longrightarrow> length (ee_zones (ae_elts s ! e)) = 4"
  by (metis (no_types, lifting) elt_ok_def heap_ok_def length_map length_replicate nth_mem)

text \<open>The selected application follows the mouse.\<close>

lemma element_update_ok:
  assumes h: "heap_ok s" and e: "e < length (ae_elts s)"
  shows "core (element_update e s) = core s" and "picks (element_update e s) = picks s"
    and "placed (element_update e s) (ae_elts (element_update e s) ! e)"
    and "\<And>f. f \<noteq> e \<Longrightarrow> ae_elts (element_update e s) ! f = ae_elts s ! f"
    and "ae_apps (element_update e s) = ae_apps s"
    and "ae_elements (element_update e s) = ae_elements s" and "ae_links (element_update e s) = ae_links s" 
    and "ae_applications (element_update e s) = ae_applications s"
proof -
  let ?e = "ae_elts s ! e" 
  let ?sides = "side_anchors (ap_posX (ae_apps s ! ee_app ?e)) (ap_posY (ae_apps s ! ee_app ?e)) (ee_width ?e) (ee_height ?e)"
  obtain zs s1 where u: "update_zones ?sides (ee_zones ?e) s = (zs, s1)" by fastforce
  have len: "length ?sides = length (ee_zones ?e)" using zones_length [OF h e] by (simp add: side_anchors_def)
  note z = update_zones_spec [OF u len]
  have r: "element_update e s = s1\<lparr>ae_elts := (ae_elts s)[e := ?e\<lparr>ee_zones := zs\<rparr>]\<rparr>"
    using u z(3) by (simp add: element_update_def Let_def)
  have "elt_shape (?e\<lparr>ee_zones := zs\<rparr>) = elt_shape ?e" using z(5) by (simp add: elt_shape_def)
  then show "core (element_update e s) = core s"
    using z(1, 3) by (simp add: r static_def core_def shape_def map_update_same)
  show "picks (element_update e s) = picks s" using z(2) by (simp add: r picks_def)
  show "placed (element_update e s) (ae_elts (element_update e s) ! e)"
    using z(4, 6) e by (simp add: r placed_def)
  show "\<And>f. f \<noteq> e \<Longrightarrow> ae_elts (element_update e s) ! f = ae_elts s ! f" by (simp add: r)
  show "ae_apps (element_update e s) = ae_apps s" using z(4) by (simp add: r)
  show "ae_elements (element_update e s) = ae_elements s" and "ae_links (element_update e s) = ae_links s" 
    and "ae_applications (element_update e s) = ae_applications s" using z(1) by (simp_all add: r static_def)
qed

definition move_app :: "nat \<Rightarrow> rat \<Rightarrow> rat \<Rightarrow> editor \<Rightarrow> editor" where
  "move_app a x y s = s\<lparr>ae_apps := (ae_apps s)[a := (ae_apps s ! a)\<lparr>ap_posX := x, ap_posY := y\<rparr>]\<rparr>"

lemma moveSelectedApplication_ok:
  assumes ok: "ae_ok s"
  shows "ae_ok (moveSelectedApplication c s)"
proof (cases "\<exists>e dx dy. ae_selElement s = Some e \<and> ee_dragOffset (ae_elts s ! e) = Some (dx, dy)")
  case True
  then obtain e dx dy where sel: "ae_selElement s = Some e" "ee_dragOffset (ae_elts s ! e) = Some (dx, dy)" by blast
  define s0 where "s0 = move_app (app_at s e) (fst c - dx) (snd c - dy) s"
  have h: "heap_ok s" and v: "view_ok s" and "selection_ok s" using ok by (auto simp: ae_ok_def)
  then have e: "e < length (ae_elts s)" "loose s e" using sel by (auto simp: selection_ok_def sel_elt_ok_def)
  have r: "moveSelectedApplication c s = element_update e s0"
    using sel by (simp add: moveSelectedApplication_def s0_def app_at_def move_app_def Let_def)
  have c0: "core s0 = core s" "picks s0 = picks s" "ae_elts s0 = ae_elts s"
    by (simp_all add: s0_def move_app_def core_def shape_def map_update_same picks_def)
  have v0: "ae_elements s0 = ae_elements s" "ae_links s0 = ae_links s" "ae_applications s0 = ae_applications s" "ae_lks s0 = ae_lks s"
    by (simp_all add: s0_def move_app_def)
  have h0: "heap_ok s0" using heap_ok_core [OF h c0(1)] .
  let ?t = "element_update e s0"
  note u = element_update_ok [OF h0, of e, unfolded c0(3), OF e(1)]
  have ct: "core ?t = core s" using u(1) c0(1) by simp
  then have g: "evolves s ?t" by (simp add: core_def evolves_shape)
  have ht: "heap_ok ?t" using heap_ok_core [OF h ct] .
  have n: "length (ae_lks ?t) = length (ae_lks s)" "length (ae_elts ?t) = length (ae_elts s)" "length (ae_apps ?t) = length (ae_apps s)"
    using ct by (auto simp: core_def dest: map_eq_imp_length_eq shape_lengths)
  have placed: "placed ?t (ae_elts ?t ! f)" if f: "f \<in> set (ae_elements s)" for f
  proof (cases "f = e")
    case False
    have "inj_on (app_at s) (set (ae_elements s))" using v by (simp add: view_ok_def distinct_map)
    then have "app_at s f \<noteq> app_at s e" if "e \<in> set (ae_elements s)" using inj_onD f False that by metis
    then have "app_at s f \<noteq> app_at s e" using e(2) imageI [OF f, of "app_at s"] unfolding loose_def by metis
    then have "ae_apps ?t ! ee_app (ae_elts s ! f) = ae_apps s ! ee_app (ae_elts s ! f)"
      unfolding u(5) by (simp add: s0_def move_app_def app_at_def)
    then show ?thesis using v f u(4) [OF False] by (simp add: view_ok_def placed_def)
  qed (use u(3) in simp)
  have app: "app_at ?t f = app_at s f" if "f < length (ae_elts s)" for f using evolves_app_at [OF g that] .
  have m: "map (app_at ?t) (ae_elements s) = map (app_at s) (ae_elements s)" using app v by (auto simp: view_ok_def)
  have "distinct (map (app_at ?t) (ae_elements s))" unfolding m using v by (simp add: view_ok_def)
  then have vt: "view_ok ?t" using v placed n u(6 - 8) v0 by (simp add: view_ok_def)
  have "app_at ?t ` set (ae_elements s) = app_at s ` set (ae_elements s)"
    by (rule image_cong) (use app v in \<open>auto simp: view_ok_def\<close>)
  then have "loose ?t f = loose s f" if "f < length (ae_elts s)" for f
    using app [OF that] u(6) v0 by (simp add: loose_def)
  then show ?thesis using r ht vt sel_frame [OF g] n \<open>selection_ok s\<close> u(2) c0(2)
    by (simp add: ae_ok_def selection_ok_def picks_def)
next
  case False
  then have "moveSelectedApplication c s = s" by (auto simp: moveSelectedApplication_def split: option.splits)
  then show ?thesis using ok by simp
qed

lemma replace_link_ok:
  assumes ok: "ae_ok s" and lk: "link_ok s lk"
  shows "ae_ok (s\<lparr>ae_lks := (ae_lks s)[l := lk], ae_alinks := (ae_alinks s)[k := al]\<rparr>)" (is "ae_ok ?t")
proof -
  have sh: "shape ?t = shape s" "places ?t = places s" by (simp_all add: shape_def places_def)
  note g = evolves_shape [OF sh(1)]
  have h: "heap_ok s" and v: "view_ok s" using ok by (auto simp: ae_ok_def)
  have "elt_ok ?t e" if "e \<in> set (ae_elts s)" for e using elt_ok_evolves [OF g] that h by (auto simp: heap_ok_def)
  moreover have "link_ok ?t x" if "x \<in> set ((ae_lks s)[l := lk])" for x
  proof -
    have "link_ok s x" using subsetD [OF set_update_subset_insert that] h lk by (auto simp: heap_ok_def)
    then show ?thesis by (rule link_ok_evolves [OF g]) simp
  qed
  ultimately have "heap_ok ?t" using h by (simp add: heap_ok_def)
  then show ?thesis
    by (rule remove_frame [OF ok _ g stays_places [OF sh(2)]]) (use v in \<open>auto simp: view_ok_def picks_def\<close>)
qed

text \<open>Connecting an end of a link, given the link, the end, the element and its anchor\<close>

definition joined :: "bool \<Rightarrow> nat \<Rightarrow> nat \<Rightarrow> ae_link \<Rightarrow> ae_link" where
  "joined isStart e j lk = (if isStart then lk\<lparr>lk_start := j, lk_startElement := Some e\<rparr> else lk\<lparr>lk_end := j, lk_endElement := Some e\<rparr>)"

definition joined_al :: "bool \<Rightarrow> nat option \<Rightarrow> js \<Rightarrow> application_link \<Rightarrow> application_link" where
  "joined_al isStart dir k al =
     (if isStart then al\<lparr>al_startAnchor := (case dir of Some d \<Rightarrow> if d \<noteq> 0 then d else al_startAnchor al | None \<Rightarrow> al_startAnchor al)\<rparr>
      else al\<lparr>al_endAnchor := (case dir of Some d \<Rightarrow> if d \<noteq> 0 then d else al_endAnchor al | None \<Rightarrow> al_endAnchor al), al_target := Some k\<rparr>)"

definition locked :: "nat \<Rightarrow> editor \<Rightarrow> editor" where
  "locked j s = s\<lparr>ae_anchors := (ae_anchors s)[j := (ae_anchors s ! j)\<lparr>aa_isEditable := False\<rparr>]\<rparr>"

definition join :: "nat \<Rightarrow> bool \<Rightarrow> nat \<Rightarrow> nat \<Rightarrow> editor \<Rightarrow> editor" where
  "join l isStart e j s =
     (let lk = ae_lks s ! l; al = lk_applicationLink lk
      in s\<lparr>ae_lks := (ae_lks s)[l := joined isStart e j lk],
           ae_alinks := (ae_alinks s)[al := joined_al isStart (aa_direction (ae_anchors s ! j)) (elt_id s e) (ae_alinks s ! al)]\<rparr>)"

lemma connectLinkAnchor_eq:
  assumes "ae_selAnchorLink s = Some (l, i, isStart, dx, dy)" and "ae_selAnchorElement s = Some (e, j)"
  shows "connectLinkAnchor s =
    (let t = join l isStart e j (locked j s); lk = joined isStart e j (ae_lks s ! l)
     in if isClosed lk
        then let a = app_at s (the (lk_startElement lk)) in set_app_links a (ap_links (ae_apps s ! a) @ [lk_applicationLink lk]) t
        else t)"
  using assms
  by (auto simp: connectLinkAnchor_def Let_def join_def joined_def joined_al_def locked_def app_at_def isClosed_def elt_id_def split: option.splits)

lemma connectLinkAnchor_ok:
  assumes ok: "ae_ok s"
  shows "ae_ok (connectLinkAnchor s)"
proof (cases "ae_selAnchorLink s = None \<or> ae_selAnchorElement s = None")
  case True
  then have "connectLinkAnchor s = s" by (auto simp: connectLinkAnchor_def split: option.splits)
  then show ?thesis using ok by simp
next
  case False
  then obtain l i b dx dy e j where sel: "ae_selAnchorLink s = Some (l, i, b, dx, dy)" "ae_selAnchorElement s = Some (e, j)"
    by (metis not_None_eq prod_cases5 surj_pair)
  let ?s0 = "locked j s" and ?lk = "joined b e j (ae_lks s ! l)"
  have h: "heap_ok s" and "selection_ok s" using ok by (auto simp: ae_ok_def)
  then have l: "l < length (ae_lks s)" and e: "e < length (ae_elts s)" "j \<in> set (anchors_of (ae_elts s ! e))"
    using sel by (auto simp: selection_ok_def sel_anchor_ok_def sel_target_ok_def attached_def)
  have j: "j < length (ae_anchors s)" using h e by (auto simp: heap_ok_def elt_ok_def)
  have st: "static s ?s0" unfolding locked_def by (rule static_anchors) (simp add: map_update_same)
  have ok0: "ae_ok ?s0" by (rule selection_ok_picks [OF st ok]) (simp add: locked_def picks_def)
  have "link_ok s (ae_lks s ! l)" using h l by (simp add: heap_ok_def)
  then have lk: "link_ok s ?lk" using e j by (cases b) (simp_all add: joined_def link_ok_def attached_def split: option.splits)
  then have "link_ok ?s0 ?lk" by (rule link_ok_evolves [OF static_evolves [OF st]]) simp
  then have ok1: "ae_ok (join l b e j ?s0)"
    unfolding join_def Let_def using replace_link_ok [OF ok0] by (simp add: locked_def)
  show ?thesis
  proof (cases "isClosed ?lk")
    case True
    then obtain f where f: "lk_startElement ?lk = Some f" by (auto simp: isClosed_def)
    then have "f < length (ae_elts s)" using lk by (simp add: link_ok_def attached_def)
    then have "app_at s f < length (ae_apps s)" by (rule app_at_less [OF h])
    then have "\<forall>x \<in> set (ap_links (ae_apps s ! app_at s f) @ [lk_applicationLink ?lk]). x < length (ae_alinks (join l b e j ?s0))"
      using h lk nth_mem [of "app_at s f" "ae_apps s"] by (auto simp: heap_ok_def link_ok_def join_def Let_def locked_def)
    from set_app_links_ok [OF ok1 this] show ?thesis
      unfolding connectLinkAnchor_eq [OF sel] Let_def using True f by simp
  next
    case False
    then show ?thesis unfolding connectLinkAnchor_eq [OF sel] Let_def using ok1 by simp
  qed
qed

lemma deselect_ok:
  assumes "ae_ok s"
  shows "ae_ok (s\<lparr>ae_isMoving := m, ae_selAnchorLink := None\<rparr>)" and "ae_ok (s\<lparr>ae_selAnchorElement := None\<rparr>)"
proof -
  have st: "static s (s\<lparr>ae_isMoving := m, ae_selAnchorLink := None\<rparr>)" "static s (s\<lparr>ae_selAnchorElement := None\<rparr>)"
    by (simp_all add: static_def core_def places_def shape_def)
  show "ae_ok (s\<lparr>ae_isMoving := m, ae_selAnchorLink := None\<rparr>)" "ae_ok (s\<lparr>ae_selAnchorElement := None\<rparr>)"
    using assms static_heap_view [OF st(1)] static_heap_view [OF st(2)] static_selection [OF st(1)] static_selection [OF st(2)]
    by (auto simp: ae_ok_def selection_ok_def sel_anchor_ok_def sel_target_ok_def)
qed

lemma onmouseup_ok: "ae_ok s \<Longrightarrow> ae_ok (onmouseup_ae s)"
proof -
  assume ok: "ae_ok s"
  let ?s1 = "(connectLinkAnchor s)\<lparr>ae_isMoving := False, ae_selAnchorLink := None\<rparr>"
  have ok1: "ae_ok ?s1" by (rule deselect_ok [OF connectLinkAnchor_ok [OF ok]])
  have "ae_ok (when_some (\<lambda>(e, j). flag_anchor j False) (ae_selAnchorElement ?s1) ?s1)"
    by (rule selection_ok_picks [OF static_when_some ok1 picks_when_some]) (auto split: prod.splits intro: static_flag_anchor)
  from deselect_ok(2) [OF this] show ?thesis using ok by (simp add: onmouseup_ae_def Let_def)
qed

lemma onmousemove_ok:
  assumes ok: "ae_ok s"
  shows "ae_ok (onmousemove_ae ctm client s)"
proof -
  have "ae_ok (s\<lparr>ae_previousPoint := client\<rparr>)" by (rule selection_ok_picks [OF static_selections(6) ok]) (simp add: picks_def)
  moreover have "ae_ok (setViewBox v s)" for v
    unfolding setViewBox_def by (rule selection_ok_picks [OF static_selections(8) ok]) (simp add: picks_def)
  ultimately show ?thesis using ok moveSelectedApplication_ok moveSelectedAnchorLink_ok
    by (auto simp: onmousemove_ae_def split: prod.split)
qed

section \<open>New objects\<close>

lemma anchors_less: "heap_ok s \<Longrightarrow> e \<in> set (ae_elts s) \<Longrightarrow> i \<in> set (anchors_of e) \<Longrightarrow> i < length (ae_anchors s)"
  by (auto simp: heap_ok_def elt_ok_def)

lemma new_elt_ok:
  assumes "a < length (ae_apps s)" and "new_Element a w h s = (i, t)"
  shows "elt_ok t (ae_elts t ! i)" and "placed t (ae_elts t ! i)" and "i = length (ae_elts s)" and "ee_app (ae_elts t ! i) = a"
    and "anchors_of (ae_elts t ! i) = [length (ae_anchors s), length (ae_anchors s) + 1, length (ae_anchors s) + 2, length (ae_anchors s) + 3]"
  using assms
  by (auto simp: new_Element_def Let_def elt_ok_def placed_def anchors_of_def side_anchors_def zone_at_def new_Anchor_def directions_def
      nth_append numeral_eq_Suc)

lemma new_elt_state:
  assumes "new_Element a w h s = (i, t)"
  shows "\<exists>as. length as = 4 \<and> t = s\<lparr>ae_anchors := ae_anchors s @ as, ae_elts := ae_elts s @ [ae_elts t ! i]\<rparr>"
  using assms
  by (intro exI [of _ "side_anchors (ap_posX (ae_apps s ! a)) (ap_posY (ae_apps s ! a)) w h"])
    (auto simp: new_Element_def Let_def side_anchors_def)

lemma new_Element_ok:
  assumes ok: "ae_ok s" and a: "a < length (ae_apps s)" "a \<notin> app_at s ` set (ae_elements s)"
    and sel: "\<forall>e. ae_selElement s = Some e \<longrightarrow> app_at s e \<noteq> a" and r: "new_Element a w h s = (i, t)"
  shows "ae_ok (t\<lparr>ae_elements := ae_elements t @ [i]\<rparr>)" (is "ae_ok ?u")
proof -
  note n = new_elt_ok [OF a(1) r]
  obtain as where t: "length as = 4" "t = s\<lparr>ae_anchors := ae_anchors s @ as, ae_elts := ae_elts s @ [ae_elts t ! i]\<rparr>" using new_elt_state [OF r] by blast
  let ?e = "ae_elts t ! i"
  have hp: "heap_ok s" and v: "view_ok s" and sl: "selection_ok s" using ok by (auto simp: ae_ok_def)
  have u: "ae_elts ?u = ae_elts s @ [?e]" "ae_anchors ?u = ae_anchors s @ as" "ae_lks ?u = ae_lks s" "ae_apps ?u = ae_apps s"
    "ae_alinks ?u = ae_alinks s" "ae_elements ?u = ae_elements s @ [i]" "ae_links ?u = ae_links s" "ae_applications ?u = ae_applications s"
    "picks ?u = picks s"
    by (subst t(2), simp add: picks_def)+
  have g: "evolves s ?u" and st: "stays s ?u" unfolding evolves_def stays_def u by (auto simp: nth_append)
  have e: "elt_ok ?u ?e" "placed ?u ?e" using n(1, 2) by (simp_all add: elt_ok_def placed_def)
  have "elt_ok ?u x" if "x \<in> set (ae_elts s)" for x using elt_ok_evolves [OF g] that hp by (auto simp: heap_ok_def)
  moreover have "link_ok ?u x" if "x \<in> set (ae_lks s)" for x using link_ok_evolves [OF g] that hp by (auto simp: heap_ok_def)
  moreover have "distinct (concat (map anchors_of (ae_elts s @ [?e])))"
    using hp anchors_less [OF hp] n(5) by (fastforce simp: heap_ok_def)
  ultimately have hu: "heap_ok ?u" using hp e unfolding heap_ok_def u by auto
  have app: "app_at ?u x = app_at s x" if "x < length (ae_elts s)" for x using evolves_app_at [OF g that] .
  have appi: "app_at ?u i = a" using n(3, 4) u(1) by (simp add: app_at_def nth_append)
  have m: "map (app_at ?u) (ae_elements s) = map (app_at s) (ae_elements s)" using app v by (auto simp: view_ok_def)
  have img: "app_at ?u ` set (ae_elements s) = app_at s ` set (ae_elements s)" using arg_cong [OF m, of set] by simp
  have "distinct (map (app_at ?u) (ae_elements s @ [i]))"
    unfolding map_append m using v a(2) appi by (simp add: view_ok_def)
  moreover have "placed ?u (ae_elts ?u ! x)" if "x \<in> set (ae_elements s)" for x
    using placed_stays [OF hp g st] that v by (auto simp: view_ok_def)
  moreover have "placed ?u (ae_elts ?u ! i)" using e(2) u(1) n(3) by (simp add: nth_append)
  ultimately have vu: "view_ok ?u" using v n(3) unfolding view_ok_def u by auto
  have "loose ?u x" if "ae_selElement s = Some x" "x < length (ae_elts s)" "loose s x" for x
    using that sel app [OF that(2)] img appi u(6) by (simp add: loose_def)
  then show ?thesis using hu vu sl u(3, 9) sel_frame [OF g] by (simp add: ae_ok_def selection_ok_def picks_def)
qed

lemma extend_ok:
  assumes ok: "ae_ok s"
    and x: "ae_apps t = ae_apps s @ apps" "ae_alinks t = ae_alinks s @ als" "ae_anchors t = ae_anchors s @ as" "ae_lks t = ae_lks s @ lks"
      "ae_elts t = ae_elts s" "ae_elements t = ae_elements s" "ae_links t = ae_links s @ ks" "picks t = picks s"
    and lks: "\<forall>l \<in> set lks. link_ok t l" and ks: "\<forall>k \<in> set ks. k < length (ae_lks t)"
    and apps: "\<forall>a \<in> set apps. \<forall>l \<in> set (ap_links a). l < length (ae_alinks t)" and v': "\<forall>a \<in> set (ae_applications t). a < length (ae_apps t)"
  shows "ae_ok t"
proof -
  have g: "evolves s t" and st: "stays s t" unfolding evolves_def stays_def x by (auto simp: nth_append)
  have hp: "heap_ok s" and v: "view_ok s" and sl: "selection_ok s" using ok by (auto simp: ae_ok_def)
  have "elt_ok t e" if "e \<in> set (ae_elts s)" for e using elt_ok_evolves [OF g] that hp by (auto simp: heap_ok_def)
  moreover have "link_ok t l" if "l \<in> set (ae_lks s)" for l using link_ok_evolves [OF g] that hp by (auto simp: heap_ok_def)
  moreover have "\<forall>a \<in> set (ae_apps s). \<forall>l \<in> set (ap_links a). l < length (ae_alinks t)"
    using hp unfolding heap_ok_def x by fastforce
  ultimately have "heap_ok t" using hp lks apps unfolding heap_ok_def x by auto
  moreover have "view_ok t"
    by (rule view_ok_frame [OF hp v g st]) (use v ks v' x in \<open>auto simp: view_ok_def\<close>)
  moreover have "loose t e = loose s e" for e by (simp add: loose_def x app_at_def)
  ultimately show ?thesis using sl sel_frame [OF g] x(4, 8) by (simp add: ae_ok_def selection_ok_def picks_def)
qed

lemma onDrop_ok:
  assumes ok: "ae_ok s"
  shows "ae_ok (onDrop_ae ctm rnd client ty s)"
proof -
  obtain x y where xy: "ctm client = (x, y)" by fastforce
  have hp: "heap_ok s" and v: "view_ok s" and sl: "selection_ok s" using ok by (auto simp: ae_ok_def)
  consider "ty = ''application''" | "ty = ''link''" | "ty \<noteq> ''application''" "ty \<noteq> ''link''" by blast
  then show ?thesis
  proof cases
    case 1
    define app where "app = new_ApplicationResult\<lparr>ap_id := JStr (newGUID rnd), ap_title := JStr ''title'', ap_posX := x, ap_posY := y\<rparr>"
    define s1 where "s1 = s\<lparr>ae_apps := ae_apps s @ [app], ae_applications := ae_applications s @ [length (ae_apps s)]\<rparr>"
    obtain i t where r: "new_Element (length (ae_apps s)) applicationWidth applicationHeight s1 = (i, t)" by fastforce
    have ok1: "ae_ok s1" unfolding s1_def
      by (rule extend_ok [OF ok, of _ "[app]" "[]" "[]" "[]" "[]"])
        (use v in \<open>auto simp: app_def new_ApplicationResult_def picks_def view_ok_def\<close>)
    have "ae_ok (t\<lparr>ae_elements := ae_elements t @ [i]\<rparr>)"
    proof (rule new_Element_ok [OF ok1 _ _ _ r])
      have fresh: "length (ae_apps s) \<noteq> app_at s1 e" if "e < length (ae_elts s)" for e
        using app_at_less [OF hp that] by (simp add: app_at_def s1_def)
      have same: "ae_elements s1 = ae_elements s" "ae_selElement s1 = ae_selElement s" by (simp_all add: s1_def)
      have "\<forall>e \<in> set (ae_elements s). length (ae_apps s) \<noteq> app_at s1 e" using v fresh by (simp add: view_ok_def)
      then show "length (ae_apps s) \<notin> app_at s1 ` set (ae_elements s1)" unfolding same by blast
      show "\<forall>e. ae_selElement s1 = Some e \<longrightarrow> app_at s1 e \<noteq> length (ae_apps s)"
        using sl fresh unfolding same selection_ok_def sel_elt_ok_def by metis
    qed (simp add: s1_def)
    moreover have "onDrop_ae ctm rnd client ty s = t\<lparr>ae_elements := ae_elements t @ [i]\<rparr>"
      unfolding onDrop_ae_def xy prod.case 1 using r by (simp add: app_def s1_def)
    ultimately show ?thesis by simp
  next
    case 2
    then have "onDrop_ae ctm rnd client ty s = push_link \<lparr>lk_id = newGUID rnd, lk_start = length (ae_anchors s), lk_end = length (ae_anchors s) + 1,
        lk_isSelected = False, lk_startElement = None, lk_endElement = None, lk_applicationLink = length (ae_alinks s)\<rparr>
      (s\<lparr>ae_anchors := ae_anchors s @ [new_Anchor x y None, new_Anchor (x + 10) (y + 100) None],
         ae_alinks := ae_alinks s @ [new_ApplicationLinkResult]\<rparr>)" by (simp add: onDrop_ae_def xy Let_def)
    also have "ae_ok \<dots>"
      by (rule extend_ok [OF ok, of _ "[]"]) (use v in \<open>auto simp: push_link_def picks_def view_ok_def link_ok_def attached_def\<close>)
    finally show ?thesis .
  qed (use ok xy in \<open>simp add: onDrop_ae_def\<close>)
qed

lemma init_elements_ok:
  assumes "ae_ok s" and "distinct as" and "set as \<inter> app_at s ` set (ae_elements s) = {}" and "\<forall>a \<in> set as. a < length (ae_apps s)"
    and "ae_selElement s = None"
  shows "ae_ok (init_elements as s)" and "ae_apps (init_elements as s) = ae_apps s"
    and "ae_applications (init_elements as s) = ae_applications s" and "ae_alinks (init_elements as s) = ae_alinks s"
proof -
  have "ae_ok (init_elements as s) \<and> ae_apps (init_elements as s) = ae_apps s \<and>
    ae_applications (init_elements as s) = ae_applications s \<and> ae_alinks (init_elements as s) = ae_alinks s"
    using assms
  proof (induction as arbitrary: s)
    case (Cons a as)
    obtain i t where r: "new_Element a applicationWidth applicationHeight s = (i, t)" by fastforce
    let ?u = "t\<lparr>ae_elements := ae_elements t @ [i]\<rparr>"
    obtain bs where t: "t = s\<lparr>ae_anchors := ae_anchors s @ bs, ae_elts := ae_elts s @ [ae_elts t ! i]\<rparr>"
      using new_elt_state [OF r] by blast
    have u: "ae_apps ?u = ae_apps s" "ae_applications ?u = ae_applications s" "ae_alinks ?u = ae_alinks s" "ae_elements ?u = ae_elements s @ [i]"
      "ae_selElement ?u = None" "ae_elts ?u = ae_elts s @ [ae_elts t ! i]"
      using Cons.prems(5) by (subst t, simp)+
    have n: "i = length (ae_elts s)" "ee_app (ae_elts t ! i) = a" using new_elt_ok [OF _ r] Cons.prems(4) by auto
    have ok: "ae_ok ?u" by (rule new_Element_ok [OF Cons.prems(1) _ _ _ r]) (use Cons.prems in auto)
    have "app_at ?u e = app_at s e" if "e \<in> set (ae_elements s)" for e
      using Cons.prems(1) that by (simp add: app_at_def u nth_append ae_ok_def view_ok_def)
    then have "app_at ?u ` set (ae_elements s) = app_at s ` set (ae_elements s)" by (rule image_cong [OF refl])
    moreover have "app_at ?u i = a" using n by (simp add: app_at_def u)
    ultimately have "set as \<inter> app_at ?u ` set (ae_elements ?u) = {}" using Cons.prems(2, 3) unfolding u by auto
    from Cons.IH [OF ok _ this] Cons.prems u show ?case by (simp add: r)
  qed simp
  then show "ae_ok (init_elements as s)" and "ae_apps (init_elements as s) = ae_apps s"
    and "ae_applications (init_elements as s) = ae_applications s" and "ae_alinks (init_elements as s) = ae_alinks s" by blast+
qed

lemma getAnchor_in: "elt_ok s e \<Longrightarrow> getAnchor d e \<in> set (anchors_of e)"
proof -
  assume "elt_ok s e"
  then have "length (ee_zones e) = 4" unfolding elt_ok_def by (metis length_map length_replicate)
  then show ?thesis by (simp add: getAnchor_def anchors_of_def)
qed

lemma find_element_anchor:
  assumes ok: "ae_ok s" and f: "find_element k s = Some e"
  shows "getAnchor d (ae_elts s ! e) < length (ae_anchors s)"
proof -
  have "e < length (ae_elts s)" using find_element_in [OF f] ok by (simp add: ae_ok_def view_ok_def)
  then have "elt_ok s (ae_elts s ! e)" "ae_elts s ! e \<in> set (ae_elts s)" using ok by (simp_all add: ae_ok_def heap_ok_def)
  then show ?thesis using getAnchor_in anchors_less ok by (auto simp: ae_ok_def)
qed

lemma init_links_ok:
  assumes "init_links guid a ls s = Some t" and "ae_ok s" and "\<forall>l \<in> set ls. l < length (ae_alinks s)"
  shows "ae_ok t \<and> ae_apps t = ae_apps s \<and> ae_alinks t = ae_alinks s"
  using assms
proof (induction guid a ls s rule: init_links.induct)
  case (2 guid a l ls s)
  show ?case
  proof (cases "al_target (ae_alinks s ! l)")
    case None
    then show ?thesis using 2 by simp
  next
    case (Some k)
    then obtain f e where f: "find_element (ap_id (ae_apps s ! a)) s = Some f" and e: "find_element k s = Some e"
      using "2.prems"(1) by (auto simp: Let_def split: Option.bind_splits)
    let ?u = "push_link \<lparr>lk_id = guid (length (ae_links s)), lk_start = getAnchor (al_startAnchor (ae_alinks s ! l)) (ae_elts s ! f),
        lk_end = getAnchor (al_endAnchor (ae_alinks s ! l)) (ae_elts s ! e), lk_isSelected = False,
        lk_startElement = None, lk_endElement = None, lk_applicationLink = l\<rparr> s"
    have "ae_ok ?u"
      by (rule extend_ok [OF "2.prems"(2), of _ "[]" "[]" "[]"])
        (use "2.prems"(2, 3) find_element_anchor [OF "2.prems"(2) f] find_element_anchor [OF "2.prems"(2) e] in
          \<open>auto simp: push_link_def picks_def link_ok_def attached_def ae_ok_def view_ok_def\<close>)
    moreover have "init_links guid a ls ?u = Some t" using "2.prems"(1) Some f e by (simp add: Let_def)
    ultimately show ?thesis using "2.IH"(2) [OF refl Some f e] "2.prems"(3) by (simp add: push_link_def)
  qed
qed simp

lemma init_all_links_ok:
  assumes "init_all_links guid as s = Some t" and "ae_ok s" and "\<forall>a \<in> set as. a < length (ae_apps s)"
  shows "ae_ok t"
  using assms
proof (induction guid as s rule: init_all_links.induct)
  case (2 guid a as s)
  then obtain u where u: "init_links guid a (ap_links (ae_apps s ! a)) s = Some u" "init_all_links guid as u = Some t"
    by (auto split: Option.bind_splits)
  have "\<forall>l \<in> set (ap_links (ae_apps s ! a)). l < length (ae_alinks s)"
    using "2.prems"(2, 3) app_links_less [of s a] by (simp add: ae_ok_def)
  note i = init_links_ok [OF u(1) "2.prems"(2) this]
  show ?case by (rule "2.IH" [OF u]) (use i "2.prems"(3) in auto)
qed simp

text \<open>
  The page sets the input with applications that the store has loaded: new objects, and the array
  lists some of the applications of the heap.
\<close>

definition load_applications ::
    "(nat \<Rightarrow> string) \<Rightarrow> application list \<Rightarrow> application_link list \<Rightarrow> nat list \<Rightarrow> editor \<Rightarrow> editor res" where
  "load_applications guid apps als v s =
     set_applications guid v (s\<lparr>ae_apps := ae_apps s @ apps, ae_alinks := ae_alinks s @ als\<rparr>)"

lemma load_applications_ok:
  assumes ok: "ae_ok s" and sel: "ae_selElement s = None" and r: "load_applications guid apps als v s = Some t"
    and v: "distinct v" "\<forall>a \<in> set v. a < length (ae_apps s) + length apps"
    and apps: "\<forall>a \<in> set apps. \<forall>l \<in> set (ap_links a). l < length (ae_alinks s) + length als"
  shows "ae_ok t"
proof -
  let ?s0 = "s\<lparr>ae_apps := ae_apps s @ apps, ae_alinks := ae_alinks s @ als, ae_applications := v\<rparr>"
  let ?s1 = "?s0\<lparr>ae_elements := [], ae_links := []\<rparr>"
  have ok0: "ae_ok ?s0"
    by (rule extend_ok [OF ok, of _ apps als "[]" "[]" "[]"]) (use v apps in \<open>auto simp: picks_def\<close>)
  show ?thesis
  proof (cases "v = []")
    case True
    then show ?thesis using ok0 r by (simp add: load_applications_def set_applications_def init_ae_def)
  next
    case False
    have h: "heap_ok ?s1" using heap_ok_core [of ?s0 ?s1] ok0 by (simp add: ae_ok_def core_def shape_def)
    have ok1: "ae_ok ?s1"
      by (rule remove_frame [OF ok0 h evolves_shape stays_places]) (simp_all add: shape_def places_def picks_def)
    have ok2: "ae_ok (init_elements v ?s1)" "ae_apps (init_elements v ?s1) = ae_apps ?s1"
      by (rule init_elements_ok [OF ok1]; use v sel in simp)+
    show ?thesis
      by (rule init_all_links_ok [of guid v "init_elements v ?s1"])
        (use r False ok2 v in \<open>simp_all add: load_applications_def set_applications_def init_ae_def\<close>)
  qed
qed

end
