(* ===== verification/Async_Panels.thy ===== *)
theory Async_Panels
  imports Async_Props
begin

text \<open>
  The panels of the application editor (components/asyncapi-editor/components): the form of the
  selected application and the panel in which its client is chosen, the form of the selected link and
  the panel in which its message is chosen. A panel refers to the edited object by its address in the
  heaps of the editor; the values that the store's selectors emit are arguments.
\<close>

section \<open>The form of an application\<close>

record app_panel =
  xp_app :: "nat option"
  xp_title :: js
  xp_description :: js
  xp_version :: js
  xp_titleSubs :: nat
  xp_descriptionSubs :: nat

definition new_ApplicationEditor :: app_panel where
  "new_ApplicationEditor = \<lparr>xp_app = None, xp_title = Null, xp_description = Null, xp_version = Null, xp_titleSubs = 0, xp_descriptionSubs = 0\<rparr>"

definition edit_app :: "nat option \<Rightarrow> (application \<Rightarrow> application) \<Rightarrow> editor \<Rightarrow> editor" where
  "edit_app i f s = (case i of None \<Rightarrow> s | Some i \<Rightarrow> if i < length (ae_apps s) then s\<lparr>ae_apps := (ae_apps s)[i := f (ae_apps s ! i)]\<rparr> else s)"

text \<open>\<open>setValue\<close> of a control, by the user or by the code, calls the subscribed handlers.\<close>

definition xp_set_title :: "js \<Rightarrow> app_panel \<Rightarrow> editor \<Rightarrow> app_panel \<times> editor" where
  "xp_set_title v p s = (p\<lparr>xp_title := v\<rparr>, (edit_app (xp_app p) (\<lambda>a. a\<lparr>ap_title := v\<rparr>) ^^ xp_titleSubs p) s)"

definition xp_set_description :: "js \<Rightarrow> app_panel \<Rightarrow> editor \<Rightarrow> app_panel \<times> editor" where
  "xp_set_description v p s = (p\<lparr>xp_description := v\<rparr>, (edit_app (xp_app p) (\<lambda>a. a\<lparr>ap_description := v\<rparr>) ^^ xp_descriptionSubs p) s)"

text \<open>The setter of \<open>element\<close> with \<open>init\<close>, which subscribes before it fills the form\<close>

definition xp_open :: "nat option \<Rightarrow> app_panel \<Rightarrow> editor \<Rightarrow> app_panel \<times> editor" where
  "xp_open i p s =
     (case i of
        None \<Rightarrow> (p\<lparr>xp_app := None\<rparr>, s)
      | Some j \<Rightarrow>
          (let a = ae_apps s ! j;
               p0 = p\<lparr>xp_app := Some j, xp_titleSubs := xp_titleSubs p + 1, xp_descriptionSubs := xp_descriptionSubs p + 1\<rparr>;
               (p1, s1) = xp_set_title (ap_title a) p0 s;
               (p2, s2) = xp_set_description (ap_description a) p1 s1
           in (p2\<lparr>xp_version := ap_version a\<rparr>, s2)))"

definition xp_ngOnDestroy :: "app_panel \<Rightarrow> app_panel" where
  "xp_ngOnDestroy p = p\<lparr>xp_titleSubs := xp_titleSubs p - 1, xp_descriptionSubs := xp_descriptionSubs p - 1\<rparr>"

definition getClient :: "app_panel \<Rightarrow> editor \<Rightarrow> js" where
  "getClient p s = (case xp_app p of None \<Rightarrow> Undef | Some i \<Rightarrow> ap_clientId (ae_apps s ! i))"

text \<open>The handler of the answer of the choosing panel\<close>

definition client_chosen :: "js \<Rightarrow> app_panel \<Rightarrow> editor \<Rightarrow> editor res" where
  "client_chosen e p s =
     (if \<not> truthy e \<or> xp_app p = None then Some s
      else do {
        c \<leftarrow> js_get e ''clientId'';
        Some (edit_app (xp_app p) (\<lambda>a. a\<lparr>ap_clientId := (if truthy c then c else Null)\<rparr>) s)
      })"

record choose_client =
  cc_clientId :: js
  cc_selectedClient :: js
  cc_clients :: "js list"

definition new_ChooseClient :: "js \<Rightarrow> choose_client" where
  "new_ChooseClient clientId = \<lparr>cc_clientId = clientId,
     cc_selectedClient = JObj [(''id'', JStr ''''), (''vpn'', JStr ''''), (''clientId'', JStr ''''), (''createDateTime'', Null),
       (''purposes'', JArr []), (''sessions'', JArr [])], cc_clients = []\<rparr>"

text \<open>\<open>xs.filter((c) => c.k === v)[0]\<close>\<close>

definition js_first_with :: "string \<Rightarrow> js \<Rightarrow> js list \<Rightarrow> js res" where
  "js_first_with k v xs =
     map_option (\<lambda>ks. case filter (\<lambda>(x, i). js_seq i v) (zip xs ks) of [] \<Rightarrow> Undef | (x, i) # _ \<Rightarrow> x)
       (those (map (\<lambda>x. js_get x k) xs))"

definition clients_loaded :: "js list \<Rightarrow> choose_client \<Rightarrow> choose_client res" where
  "clients_loaded cs p =
     (if truthy (cc_clientId p)
      then map_option (\<lambda>c. p\<lparr>cc_clients := cs, cc_selectedClient := c\<rparr>) (js_first_with ''clientId'' (cc_clientId p) cs)
      else Some (p\<lparr>cc_clients := cs\<rparr>))"

definition getPurpose :: "js \<Rightarrow> string" where
  "getPurpose v = (if v = JNum 1 then ''Subscribe'' else if v = JNum 2 then ''Publish'' else '''')"

definition selectClient :: "js \<Rightarrow> choose_client \<Rightarrow> choose_client" where
  "selectClient c p = p\<lparr>cc_selectedClient := c\<rparr>"

definition cc_save :: "choose_client \<Rightarrow> js" where
  "cc_save p = cc_selectedClient p"

section \<open>The form of a link\<close>

record link_panel =
  lp_link :: "nat option"
  lp_topic :: string
  lp_message :: "message_definition option"
  lp_messageDefs :: "message_definition list"
  lp_subs :: nat

definition new_LinkEditor :: link_panel where
  "new_LinkEditor = \<lparr>lp_link = None, lp_topic = '''', lp_message = None, lp_messageDefs = [], lp_subs = 0\<rparr>"

definition edit_link :: "nat option \<Rightarrow> (application_link \<Rightarrow> application_link) \<Rightarrow> editor \<Rightarrow> editor" where
  "edit_link i f s = (case i of None \<Rightarrow> s | Some i \<Rightarrow> if i < length (ae_alinks s) then s\<lparr>ae_alinks := (ae_alinks s)[i := f (ae_alinks s ! i)]\<rparr> else s)"

definition lp_set_topic :: "string \<Rightarrow> link_panel \<Rightarrow> editor \<Rightarrow> link_panel \<times> editor" where
  "lp_set_topic v p s = (p\<lparr>lp_topic := v\<rparr>, (edit_link (lp_link p) (\<lambda>l. l\<lparr>al_topicName := v\<rparr>) ^^ lp_subs p) s)"

text \<open>The setter of \<open>link\<close>; it also asks the store for the latest messages.\<close>

definition lp_open :: "nat option \<Rightarrow> link_panel \<Rightarrow> editor \<Rightarrow> link_panel \<times> editor" where
  "lp_open i p s =
     (let p0 = p\<lparr>lp_link := i\<rparr>
      in case i of None \<Rightarrow> (p0, s) | Some j \<Rightarrow> lp_set_topic (al_topicName (ae_alinks s ! j)) p0 s)"

definition link_messageId :: "link_panel \<Rightarrow> editor \<Rightarrow> js" where
  "link_messageId p s = (case lp_link p of None \<Rightarrow> Undef | Some i \<Rightarrow> al_messageId (ae_alinks s ! i))"

definition message_of :: "js \<Rightarrow> message_definition list \<Rightarrow> message_definition option" where
  "message_of k ms = js_filter0 (\<lambda>m. js_seq (md_id m) k) ms"

text \<open>The subscription to the messages of the store\<close>

definition messages_emitted :: "message_definition list \<Rightarrow> link_panel \<Rightarrow> editor \<Rightarrow> link_panel" where
  "messages_emitted ms p s = p\<lparr>lp_messageDefs := ms, lp_message := message_of (link_messageId p s) ms\<rparr>"

text \<open>\<open>ngOnInit\<close>, with the messages that the store holds at that time\<close>

definition lp_ngOnInit :: "message_definition list \<Rightarrow> link_panel \<Rightarrow> editor \<Rightarrow> link_panel" where
  "lp_ngOnInit ms p s = (messages_emitted ms p s)\<lparr>lp_subs := lp_subs p + 1\<rparr>"

definition getMessage :: "link_panel \<Rightarrow> string" where
  "getMessage p = (case lp_message p of None \<Rightarrow> '''' | Some m \<Rightarrow> md_name m)"

text \<open>The handler of the answer of the choosing panel, \<open>None\<close> when it has no message\<close>

definition message_chosen :: "message_definition option \<Rightarrow> link_panel \<Rightarrow> editor \<Rightarrow> link_panel \<times> editor" where
  "message_chosen e p s =
     (case e of
        None \<Rightarrow> (p, s)
      | Some m \<Rightarrow>
          (if lp_link p = None then (p, s)
           else if \<not> truthy (md_id m) then (p, edit_link (lp_link p) (\<lambda>l. l\<lparr>al_messageId := Null\<rparr>) s)
           else let s' = edit_link (lp_link p) (\<lambda>l. l\<lparr>al_messageId := md_id m\<rparr>) s
                in (p\<lparr>lp_message := message_of (link_messageId p s') (lp_messageDefs p)\<rparr>, s')))"

record choose_message =
  cm_messageId :: js
  cm_selected :: "message_definition option"
  cm_messages :: "message_definition list"

definition new_MessageDefinitionResult :: message_definition where
  "new_MessageDefinitionResult = \<lparr>md_id = JStr '''', md_name = '''', md_description = JStr '''', md_version = JNum 0,
     md_createDateTime = Null, md_updateDateTime = Null, md_jsonSchema = ''''\<rparr>"

definition new_ChooseMessage :: "js \<Rightarrow> choose_message" where
  "new_ChooseMessage k = \<lparr>cm_messageId = k, cm_selected = Some new_MessageDefinitionResult, cm_messages = []\<rparr>"

definition cm_loaded :: "message_definition list \<Rightarrow> choose_message \<Rightarrow> choose_message" where
  "cm_loaded ms p =
     (if truthy (cm_messageId p) then p\<lparr>cm_messages := ms, cm_selected := message_of (cm_messageId p) ms\<rparr> else p\<lparr>cm_messages := ms\<rparr>)"

definition cm_select :: "message_definition \<Rightarrow> choose_message \<Rightarrow> choose_message" where
  "cm_select m p = p\<lparr>cm_selected := Some m\<rparr>"

definition cm_save :: "choose_message \<Rightarrow> message_definition option" where
  "cm_save p = cm_selected p"

section \<open>The panels keep the invariant of the editor\<close>

lemma edit_app_ok:
  assumes "\<And>a. ap_links (f a) = ap_links a \<and> ap_posX (f a) = ap_posX a \<and> ap_posY (f a) = ap_posY a" and "ae_ok s"
  shows "ae_ok (edit_app i f s)"
proof -
  have m: "map g ((ae_apps s)[j := f (ae_apps s ! j)]) = map g (ae_apps s)" if "\<And>a. g (f a) = g a" for g :: "application \<Rightarrow> 'b" and j
    by (cases "j < length (ae_apps s)") (simp_all add: map_update that list_update_same_conv list_update_beyond)
  have "static s (edit_app i f s)"
    using assms(1) m [of ap_links] m [of "\<lambda>a. (ap_posX a, ap_posY a)"]
    by (auto simp: edit_app_def static_def core_def places_def shape_def split: option.split)
  then show ?thesis using assms(2) by (rule selection_ok_picks) (simp add: edit_app_def picks_def split: option.split)
qed

lemma edit_link_ok: "ae_ok s \<Longrightarrow> ae_ok (edit_link i f s)"
  by (rule selection_ok_picks [where s = s])
    (auto simp: edit_link_def static_def core_def places_def shape_def picks_def split: option.split)

lemma pow_ok: "(\<And>t. ae_ok t \<Longrightarrow> ae_ok (g t)) \<Longrightarrow> ae_ok s \<Longrightarrow> ae_ok ((g ^^ n) s)"
  by (induction n) simp_all

lemma panel_ok:
  assumes "ae_ok s"
  shows "ae_ok (snd (xp_set_title v p s))" and "ae_ok (snd (xp_set_description v p s))" and "ae_ok (snd (xp_open i p s))"
    and "client_chosen e p s = Some t \<Longrightarrow> ae_ok t"
    and "ae_ok (snd (lp_set_topic x q s))" and "ae_ok (snd (lp_open i q s))" and "ae_ok (snd (message_chosen m q s))"
proof -
  have t: "ae_ok (snd (xp_set_title v p s))" if "ae_ok s" for v p s
    unfolding xp_set_title_def snd_conv by (intro pow_ok edit_app_ok that) simp_all
  have d: "ae_ok (snd (xp_set_description v p s))" if "ae_ok s" for v p s
    unfolding xp_set_description_def snd_conv by (intro pow_ok edit_app_ok that) simp_all
  have l: "ae_ok (snd (lp_set_topic x q s))" if "ae_ok s" for x q s
    unfolding lp_set_topic_def snd_conv by (intro pow_ok edit_link_ok that)
  show "ae_ok (snd (xp_set_title v p s))" "ae_ok (snd (xp_set_description v p s))" "ae_ok (snd (lp_set_topic x q s))"
    using assms t d l by auto
  show "ae_ok (snd (xp_open i p s))"
  proof (cases i)
    case (Some j)
    then show ?thesis using d [OF t [OF assms]] by (simp add: xp_open_def case_prod_beta Let_def)
  qed (use assms in \<open>simp add: xp_open_def\<close>)
  show "client_chosen e p s = Some t \<Longrightarrow> ae_ok t"
    using assms by (auto simp: client_chosen_def split: if_splits Option.bind_splits intro!: edit_app_ok)
  show "ae_ok (snd (lp_open i q s))" using assms l by (cases i) (simp_all add: lp_open_def)
  show "ae_ok (snd (message_chosen m q s))" using assms edit_link_ok by (simp add: message_chosen_def Let_def split: option.split)
qed

section \<open>Choosing a message\<close>

lemma message_of_member: "distinct (map md_id ms) \<Longrightarrow> m \<in> set ms \<Longrightarrow> md_id m = JStr k \<Longrightarrow> message_of (JStr k) ms = Some m"
proof (induction ms)
  case (Cons a ms)
  then have "md_id a \<noteq> JStr k" if "a \<noteq> m" using that by (metis distinct.simps(2) image_eqI list.set_map list.simps(9) set_ConsD)
  then show ?case using Cons by (cases "a = m") (auto simp: message_of_def)
qed simp

text \<open>
  A message that is chosen for a link is stored in the link and shown in the form. If the choosing
  panel is saved without a choice, the link loses its message, but the form still shows the old one.
\<close>

theorem message_choice:
  assumes "lp_link p = Some i" and "i < length (ae_alinks s)" and "distinct (map md_id (lp_messageDefs p))"
  shows "(m \<in> set (lp_messageDefs p) \<longrightarrow> md_id m = JStr k \<longrightarrow> k \<noteq> '''' \<longrightarrow>
      (\<exists>p' s'. message_chosen (Some m) p s = (p', s') \<and> link_messageId p' s' = md_id m \<and> getMessage p' = md_name m)) \<and>
    (\<exists>s'. message_chosen (cm_save (cm_loaded ms (new_ChooseMessage Null))) p s = (p, s') \<and> link_messageId p s' = Null)"
  using assms message_of_member [OF assms(3)]
  by (auto simp: message_chosen_def edit_link_def link_messageId_def getMessage_def cm_save_def cm_loaded_def new_ChooseMessage_def
      new_MessageDefinitionResult_def Let_def)

end
