(* ===== verification/Async_Session.thy ===== *)
theory Async_Session
  imports Async_Panels
begin

text \<open>
  The application editor at work: the invariant over all sequences of events, what dragging an
  application does to the links attached to it, what connecting and removing a link does to the
  saved applications, and what a reload draws.
\<close>

section \<open>All sequences of events\<close>

text \<open>
  The events of the editor and of its panels. The page sets new applications only while no application is selected;
  their array has no object twice and their links are among those loaded.
\<close>

inductive ae_step :: "editor \<Rightarrow> editor \<Rightarrow> bool" where
  load: "ae_selElement s = None \<Longrightarrow> distinct v \<Longrightarrow> \<forall>a \<in> set v. a < length (ae_apps s) + length apps \<Longrightarrow>
    \<forall>a \<in> set apps. \<forall>l \<in> set (ap_links a). l < length (ae_alinks s) + length als \<Longrightarrow>
    load_applications guid apps als v s = Some t \<Longrightarrow> ae_step s t"
| after_view_init: "ae_step s (ngAfterViewInit_ae w h s)"
| drop: "ae_step s (onDrop_ae ctm rnd client ty s)"
| press: "onmousedown_ae ctm client x s = Some t \<Longrightarrow> ae_step s t"
| move: "ae_step s (onmousemove_ae ctm client s)"
| release: "ae_step s (onmouseup_ae s)"
| remove_element: "i < length (ae_elements s) \<Longrightarrow> ae_step s (removeElement i s)"
| remove_selection: "ae_step s (remove_selected s)"
| unselect_element: "ae_step s (unselectElement s)"
| unselect_link: "ae_step s (unselectLink s)"
| zoom_in: "ae_step s (zoomIn_ae s)"
| zoom_out: "ae_step s (zoomOut_ae s)"
| start_move: "ae_step s (startMove_ae s)"
| start_edit: "ae_step s (startEdit_ae s)"
| edit_title: "ae_step s (snd (xp_set_title v p s))"
| edit_description: "ae_step s (snd (xp_set_description v p s))"
| open_application: "ae_step s (snd (xp_open i p s))"
| choose_client: "client_chosen e p s = Some t \<Longrightarrow> ae_step s t"
| edit_topic: "ae_step s (snd (lp_set_topic x q s))"
| open_link: "ae_step s (snd (lp_open i q s))"
| choose_message: "ae_step s (snd (message_chosen m q s))"

inductive ae_reachable :: "editor \<Rightarrow> bool" where
  start: "ae_reachable new_Editor"
| event: "ae_reachable s \<Longrightarrow> ae_step s t \<Longrightarrow> ae_reachable t"

lemma setViewBox_ok: "ae_ok s \<Longrightarrow> ae_ok (setViewBox v s)"
  unfolding setViewBox_def by (rule selection_ok_picks [OF static_selections(8)]) (simp_all add: picks_def)

lemma startMoving_ok: "ae_ok s \<Longrightarrow> ae_ok (s\<lparr>ae_startMoving := b\<rparr>)"
  by (rule selection_ok_picks [OF static_selections(9)]) (simp_all add: picks_def)

lemma ae_step_ok: "ae_step s t \<Longrightarrow> ae_ok s \<Longrightarrow> ae_ok t"
proof (induction rule: ae_step.induct)
  case (load s v apps als guid t)
  then show ?case using load_applications_ok by blast
qed (auto simp: ngAfterViewInit_ae_def zoomIn_ae_def zoomOut_ae_def zoom_ae_def startMove_ae_def startEdit_ae_def split: prod.split
    intro: panel_ok setViewBox_ok startMoving_ok onDrop_ok onmousedown_ok onmousemove_ok onmouseup_ok removeElement_ok remove_selected_ok unselect_ok)

lemma reachable_ok: "ae_reachable s \<Longrightarrow> ae_ok s"
proof (induction rule: ae_reachable.induct)
  case start
  show ?case by (simp add: new_Editor_def ae_ok_def heap_ok_def view_ok_def selection_ok_def sel_elt_ok_def sel_link_ok_def
        sel_anchor_ok_def sel_target_ok_def)
next
  case (event s t)
  then show ?case using ae_step_ok by blast
qed

text \<open>A session that drops two applications and a link and connects the start of the link\<close>

definition grip :: "string list \<Rightarrow> string \<Rightarrow> string \<Rightarrow> target" where
  "grip classes attr val = (\<lparr>dm_classes = classes, dm_attrs = [(attr, val)]\<rparr>, None)"

definition example_id :: string where
  "example_id = newGUID (\<lambda>_. 0)"

definition example_dropped :: editor where
  "example_dropped = onDrop_ae id (\<lambda>_. 0) (300, 300) ''link'' (onDrop_ae id (\<lambda>_. 0) (0, 0) ''application'' new_Editor)"

definition example_over :: editor where
  "example_over = onmousemove_ae id (100, 0)
     (the (onmousedown_ae id (300, 300) (grip [''anchor'', ''start''] ''linkId'' example_id) example_dropped))"

definition example_joined :: editor where
  "example_joined = onmouseup_ae example_over"

definition example_held :: editor where
  "example_held = the (onmousedown_ae id (10, 10) (grip [''content''] ''elementId'' example_id) example_joined)"

lemma example_presses:
  "onmousedown_ae id (300, 300) (grip [''anchor'', ''start''] ''linkId'' example_id) example_dropped \<noteq> None"
  "onmousedown_ae id (10, 10) (grip [''content''] ''elementId'' example_id) example_joined \<noteq> None"
  by code_simp+

lemma example_reachable: "ae_reachable example_dropped" "ae_reachable example_over" "ae_reachable example_joined" "ae_reachable example_held"
proof -
  show d: "ae_reachable example_dropped"
    unfolding example_dropped_def by (rule event [OF event [OF ae_reachable.start ae_step.drop] ae_step.drop])
  obtain s where s: "onmousedown_ae id (300, 300) (grip [''anchor'', ''start''] ''linkId'' example_id) example_dropped = Some s"
    using example_presses(1) by blast
  from event [OF event [OF d ae_step.press [OF s]] ae_step.move] show ov: "ae_reachable example_over"
    unfolding example_over_def s option.sel .
  from event [OF ov ae_step.release] show j: "ae_reachable example_joined" unfolding example_joined_def .
  obtain t where t: "onmousedown_ae id (10, 10) (grip [''content''] ''elementId'' example_id) example_joined = Some t"
    using example_presses(2) by blast
  from event [OF j ae_step.press [OF t]] show "ae_reachable example_held" unfolding example_held_def t by simp
qed



section \<open>Dragging an application\<close>

definition sides :: "rat \<Rightarrow> rat \<Rightarrow> rat \<Rightarrow> rat \<Rightarrow> (rat \<times> rat) list" where
  "sides x y w h = [(x, y + h / 2), (x + w / 2, y), (x + w, y + h / 2), (x + w / 2, y + h)]"

lemma distinct_concat_nth:
  "distinct (concat xss) \<Longrightarrow> i < length xss \<Longrightarrow> j < length xss \<Longrightarrow> i \<noteq> j \<Longrightarrow> set (xss ! i) \<inter> set (xss ! j) = {}"
proof (induction xss arbitrary: i j)
  case (Cons xs xss)
  have "set xs \<inter> set (xss ! k) = {}" if "k < length xss" for k using Cons.prems(1) nth_mem [OF that] by fastforce
  then show ?case using Cons by (cases i; cases j) auto
qed simp

lemma element_update_anchors:
  assumes h: "heap_ok s" and e: "e < length (ae_elts s)"
  shows "map (spot (element_update e s)) (anchors_of (ae_elts s ! e)) =
      sides (ap_posX (ae_apps s ! app_at s e)) (ap_posY (ae_apps s ! app_at s e)) (ee_width (ae_elts s ! e)) (ee_height (ae_elts s ! e))"
    and "i \<notin> set (anchors_of (ae_elts s ! e)) \<Longrightarrow> spot (element_update e s) i = spot s i"
proof -
  let ?e = "ae_elts s ! e" 
  let ?sides = "side_anchors (ap_posX (ae_apps s ! ee_app ?e)) (ap_posY (ae_apps s ! ee_app ?e)) (ee_width ?e) (ee_height ?e)"
  obtain zs s1 where u: "update_zones ?sides (ee_zones ?e) s = (zs, s1)" by fastforce
  have len: "length ?sides = length (ee_zones ?e)" using zones_length [OF h e] by (simp add: side_anchors_def)
  have d: "distinct (map az_anchor (ee_zones ?e))"
    using h e by (auto simp: heap_ok_def distinct_concat_iff anchors_of_def)
  have a: "\<forall>z \<in> set (ee_zones ?e). az_anchor z < length (ae_anchors s)"
    using anchors_less [OF h nth_mem [OF e]] by (simp add: anchors_of_def)
  have "spot (element_update e s) j = spot s1 j" for j using u by (simp add: element_update_def spot_def Let_def)
  then show "map (spot (element_update e s)) (anchors_of ?e) =
      sides (ap_posX (ae_apps s ! app_at s e)) (ap_posY (ae_apps s ! app_at s e)) (ee_width ?e) (ee_height ?e)"
    and "i \<notin> set (anchors_of ?e) \<Longrightarrow> spot (element_update e s) i = spot s i"
    using update_zones_anchors [OF u len d a]
    by (simp_all add: anchors_of_def sides_def side_anchors_def new_Anchor_def app_at_def comp_def)
qed

lemma drag_moves:
  assumes "ae_reachable s" and "ae_selElement s = Some e" and "ee_dragOffset (ae_elts s ! e) = Some (dx, dy)"
    and "l \<in> set (ae_lks s)" and "(x, i) \<in> {(lk_startElement l, lk_start l), (lk_endElement l, lk_end l)}"
  shows "ap_posX (ae_apps (moveSelectedApplication c s) ! app_at s e) = fst c - dx \<and>
      ap_posY (ae_apps (moveSelectedApplication c s) ! app_at s e) = snd c - dy"
    and "x = Some e \<Longrightarrow> spot (moveSelectedApplication c s) i \<in>
      set (sides (fst c - dx) (snd c - dy) (ee_width (ae_elts s ! e)) (ee_height (ae_elts s ! e)))"
    and "x = Some f \<Longrightarrow> f \<noteq> e \<Longrightarrow> spot (moveSelectedApplication c s) i = spot s i"
proof -
  define s0 where "s0 = move_app (app_at s e) (fst c - dx) (snd c - dy) s"
  have ok: "ae_ok s" using reachable_ok [OF assms(1)] .
  then have h: "heap_ok s" and e: "e < length (ae_elts s)" using assms(2) by (auto simp: ae_ok_def selection_ok_def sel_elt_ok_def)
  have r: "moveSelectedApplication c s = element_update e s0"
    using assms(2, 3) by (simp add: moveSelectedApplication_def s0_def app_at_def move_app_def Let_def)
  have c0: "core s0 = core s" "ae_elts s0 = ae_elts s" "app_at s0 e = app_at s e" "ae_anchors s0 = ae_anchors s"
    by (simp_all add: s0_def move_app_def core_def shape_def map_update_same app_at_def)
  have h0: "heap_ok s0" using heap_ok_core [OF h c0(1)] .
  have a: "app_at s e < length (ae_apps s)" by (rule app_at_less [OF h e])
  note u = element_update_ok(5) [OF h0, of e, unfolded c0(2), OF e] element_update_anchors [OF h0, of e, unfolded c0(2), OF e]
  show "ap_posX (ae_apps (moveSelectedApplication c s) ! app_at s e) = fst c - dx \<and>
      ap_posY (ae_apps (moveSelectedApplication c s) ! app_at s e) = snd c - dy"
    unfolding r u(1) using a by (simp add: s0_def move_app_def)
  have att: "attached s x i" using h assms(4, 5) by (auto simp: heap_ok_def link_ok_def)
  have box: "map (spot (element_update e s0)) (anchors_of (ae_elts s ! e)) = sides (fst c - dx) (snd c - dy) (ee_width (ae_elts s ! e)) (ee_height (ae_elts s ! e))"
    using u(2) a unfolding c0(2, 3) by (simp add: s0_def move_app_def)
  show "spot (moveSelectedApplication c s) i \<in> set (sides (fst c - dx) (snd c - dy) (ee_width (ae_elts s ! e)) (ee_height (ae_elts s ! e)))"
    if "x = Some e" using att that unfolding r box [symmetric] by (simp add: attached_def)
  show "spot (moveSelectedApplication c s) i = spot s i" if "x = Some f" "f \<noteq> e"
  proof -
    have "f < length (ae_elts s)" "i \<in> set (anchors_of (ae_elts s ! f))" using att that by (auto simp: attached_def)
    moreover have "set (map anchors_of (ae_elts s) ! f) \<inter> set (map anchors_of (ae_elts s) ! e) = {}"
      by (rule distinct_concat_nth) (use h e that calculation in \<open>auto simp: heap_ok_def\<close>)
    ultimately have "i \<notin> set (anchors_of (ae_elts s ! e))" using e by auto
    then show ?thesis unfolding r by (subst u(3)) (simp_all add: spot_def c0)
  qed
qed

text \<open>
  C20. While the selected application is dragged, its box is at the mouse position less the drag
  offset, every end of a link attached to it lies on the middle of a side of the box, and the ends
  attached to other applications stay where they are.
\<close>

theorem dragged_application_carries_its_links:
  assumes "ae_reachable s" and "ae_selElement s = Some e" and "ee_dragOffset (ae_elts s ! e) = Some (dx, dy)"
    and "l \<in> set (ae_lks s)" and "(x, i) \<in> {(lk_startElement l, lk_start l), (lk_endElement l, lk_end l)}"
  shows "ap_posX (ae_apps (moveSelectedApplication c s) ! app_at s e) = fst c - dx \<and>
    ap_posY (ae_apps (moveSelectedApplication c s) ! app_at s e) = snd c - dy \<and>
    (x = Some e \<longrightarrow> spot (moveSelectedApplication c s) i \<in>
      set (sides (fst c - dx) (snd c - dy) (ee_width (ae_elts s ! e)) (ee_height (ae_elts s ! e)))) \<and>
    (x \<noteq> None \<longrightarrow> x \<noteq> Some e \<longrightarrow> spot (moveSelectedApplication c s) i = spot s i)"
  using drag_moves(1) [OF assms(1 - 5), of c] drag_moves(2) [OF assms(1 - 5), of c] drag_moves(3) [OF assms(1 - 5), of _ c] by auto

theorem dragged_application_carries_its_links_witness:
  "spot (moveSelectedApplication (20, 30) example_held) (lk_start (ae_lks example_held ! 0)) \<in> set (sides 10 20 200 80)"
proof -
  have "ae_selElement example_held = Some 0" "ee_dragOffset (ae_elts example_held ! 0) = Some (10, 10)"
    "ae_lks example_held ! 0 \<in> set (ae_lks example_held)" "lk_startElement (ae_lks example_held ! 0) = Some 0"
    "ee_width (ae_elts example_held ! 0) = 200" "ee_height (ae_elts example_held ! 0) = 80"
    by code_simp+
  then show ?thesis
    using dragged_application_carries_its_links [OF example_reachable(4), of 0 10 10 "ae_lks example_held ! 0" "Some 0"
        "lk_start (ae_lks example_held ! 0)" "(20, 30)"] by simp
qed

section \<open>Connecting a link\<close>

definition recorded_side :: "bool \<Rightarrow> application_link \<Rightarrow> nat" where
  "recorded_side isStart al = (if isStart then al_startAnchor al else al_endAnchor al)"

lemma side_of_anchor:
  assumes h: "heap_ok s" and e: "e < length (ae_elts s)" and j: "j \<in> set (anchors_of (ae_elts s ! e))"
  shows "\<exists>d \<in> {0, 1, 2, 4}. aa_direction (ae_anchors s ! j) = Some d \<and> (\<forall>p. getAnchor p (ae_elts s ! e) = j \<longleftrightarrow> (p = d \<or> d = 4 \<and> p \<notin> {0, 1, 2}))"
proof -
  have d: "distinct (anchors_of (ae_elts s ! e))" using h e by (auto simp: heap_ok_def distinct_concat_iff)
  have dirs: "map (\<lambda>i. aa_direction (ae_anchors s ! i)) (anchors_of (ae_elts s ! e)) = [Some 0, Some 1, Some 2, Some 4]"
    using h e by (simp add: heap_ok_def elt_ok_def directions_def dir_Left_def dir_Top_def dir_Right_def dir_Bottom_def)
  obtain z0 z1 z2 z3 where z: "ee_zones (ae_elts s ! e) = [z0, z1, z2, z3]"
    using zones_length [OF h e] by (auto simp: numeral_eq_Suc length_Suc_conv)
  have g: "getAnchor p (ae_elts s ! e) = (if p = 0 then az_anchor z0 else if p = 1 then az_anchor z1 else if p = 2 then az_anchor z2 else az_anchor z3)" for p
    by (simp add: z getAnchor_def dir_Left_def dir_Top_def dir_Right_def)
  have n: "az_anchor z0 \<noteq> az_anchor z1" "az_anchor z0 \<noteq> az_anchor z2" "az_anchor z0 \<noteq> az_anchor z3" "az_anchor z1 \<noteq> az_anchor z2"
    "az_anchor z1 \<noteq> az_anchor z3" "az_anchor z2 \<noteq> az_anchor z3" using d by (auto simp: z anchors_of_def)
  have a: "aa_direction (ae_anchors s ! az_anchor z0) = Some 0" "aa_direction (ae_anchors s ! az_anchor z1) = Some 1"
    "aa_direction (ae_anchors s ! az_anchor z2) = Some 2" "aa_direction (ae_anchors s ! az_anchor z3) = Some 4"
    using dirs by (simp_all add: z anchors_of_def)
  from j consider "j = az_anchor z0" | "j = az_anchor z1" | "j = az_anchor z2" | "j = az_anchor z3" by (auto simp: z anchors_of_def)
  then show ?thesis by cases (simp_all add: a g n n [symmetric])
qed

lemma onmouseup_state:
  assumes "ae_isMoving s"
  shows "ae_lks (onmouseup_ae s) = ae_lks (connectLinkAnchor s)" and "ae_alinks (onmouseup_ae s) = ae_alinks (connectLinkAnchor s)"
    and "ae_apps (onmouseup_ae s) = ae_apps (connectLinkAnchor s)"
  using assms by (auto simp: onmouseup_ae_def Let_def when_some_def flag_anchor_def split: option.split)

lemma connect_state:
  assumes "ae_selAnchorLink s = Some (l, i, b, dx, dy)" and "ae_selAnchorElement s = Some (e, j)" and "l < length (ae_lks s)"
    and "lk_applicationLink (ae_lks s ! l) < length (ae_alinks s)"
  shows "ae_lks (connectLinkAnchor s) ! l = joined b e j (ae_lks s ! l)"
    and "ae_alinks (connectLinkAnchor s) ! lk_applicationLink (ae_lks s ! l) =
      joined_al b (aa_direction (ae_anchors s ! j)) (elt_id s e) (ae_alinks s ! lk_applicationLink (ae_lks s ! l))"
    and "ae_apps (connectLinkAnchor s) = (if isClosed (joined b e j (ae_lks s ! l))
      then let a = app_at s (the (lk_startElement (joined b e j (ae_lks s ! l))))
           in (ae_apps s)[a := (ae_apps s ! a)\<lparr>ap_links := ap_links (ae_apps s ! a) @ [lk_applicationLink (ae_lks s ! l)]\<rparr>]
      else ae_apps s)"
proof -
  have "aa_direction ((ae_anchors s)[j := (ae_anchors s ! j)\<lparr>aa_isEditable := False\<rparr>] ! j) = aa_direction (ae_anchors s ! j)"
    by (cases "j < length (ae_anchors s)") (simp_all add: list_update_beyond)
  moreover have "lk_applicationLink (joined b e j (ae_lks s ! l)) = lk_applicationLink (ae_lks s ! l)" by (simp add: joined_def)
  ultimately show "ae_lks (connectLinkAnchor s) ! l = joined b e j (ae_lks s ! l)"
    and "ae_alinks (connectLinkAnchor s) ! lk_applicationLink (ae_lks s ! l) =
      joined_al b (aa_direction (ae_anchors s ! j)) (elt_id s e) (ae_alinks s ! lk_applicationLink (ae_lks s ! l))"
    and "ae_apps (connectLinkAnchor s) = (if isClosed (joined b e j (ae_lks s ! l))
      then let a = app_at s (the (lk_startElement (joined b e j (ae_lks s ! l))))
           in (ae_apps s)[a := (ae_apps s ! a)\<lparr>ap_links := ap_links (ae_apps s ! a) @ [lk_applicationLink (ae_lks s ! l)]\<rparr>]
      else ae_apps s)"
    using assms(3, 4) unfolding connectLinkAnchor_eq [OF assms(1, 2)]
    by (simp_all add: Let_def set_app_links_def join_def locked_def elt_id_def)
qed

text \<open>
  C21. Releasing an end of a link over a drop zone attaches it to the anchor of that zone. The side
  that is saved, and that a reload draws, is the side of that anchor if and only if it is not the
  left side or the left side was saved before: the left side has number 0, which the code takes for
  missing. When both ends are attached, the link is appended to the links of its start application.
\<close>

theorem release_saves_link:
  assumes "ae_reachable s" and "ae_isMoving s"
    and "ae_selAnchorLink s = Some (l, i, isStart, dx, dy)" and "ae_selAnchorElement s = Some (e, j)"
  defines "t \<equiv> onmouseup_ae s" and "k \<equiv> lk_applicationLink (ae_lks s ! l)"
  shows "(if isStart then (lk_startElement (ae_lks t ! l), lk_start (ae_lks t ! l)) else (lk_endElement (ae_lks t ! l), lk_end (ae_lks t ! l))) = (Some e, j) \<and>
    (getAnchor (recorded_side isStart (ae_alinks t ! k)) (ae_elts s ! e) = j \<longleftrightarrow>
      aa_direction (ae_anchors s ! j) \<noteq> Some dir_Left \<or> recorded_side isStart (ae_alinks s ! k) = dir_Left) \<and>
    (isClosed (ae_lks t ! l) \<longrightarrow>
      (\<exists>a. app_at s (the (lk_startElement (ae_lks t ! l))) = a \<and> ap_links (ae_apps t ! a) = ap_links (ae_apps s ! a) @ [k]))"
proof -
  have h: "heap_ok s" and sel: "selection_ok s" using reachable_ok [OF assms(1)] by (auto simp: ae_ok_def)
  have l: "l < length (ae_lks s)" and e: "e < length (ae_elts s)" and j: "j \<in> set (anchors_of (ae_elts s ! e))"
    using sel assms(3, 4) by (auto simp: selection_ok_def sel_anchor_ok_def sel_target_ok_def attached_def)
  have lok: "link_ok s (ae_lks s ! l)" using h l by (simp add: heap_ok_def)
  then have k: "k < length (ae_alinks s)" by (simp add: link_ok_def k_def)
  note c = connect_state [OF assms(3, 4) l k [unfolded k_def], folded k_def]
  note t = onmouseup_state [OF assms(2), folded t_def, unfolded c]
  have lk: "ae_lks t ! l = joined isStart e j (ae_lks s ! l)" and al: "ae_alinks t ! k = joined_al isStart (aa_direction (ae_anchors s ! j)) (elt_id s e) (ae_alinks s ! k)"
    using c onmouseup_state [OF assms(2), folded t_def] by simp_all
  obtain d where d: "d \<in> {0, 1, 2, 4}" "aa_direction (ae_anchors s ! j) = Some d"
    "\<forall>p. getAnchor p (ae_elts s ! e) = j \<longleftrightarrow> (p = d \<or> d = 4 \<and> p \<notin> {0, 1, 2})" using side_of_anchor [OF h e j] by blast
  have "getAnchor (recorded_side isStart (ae_alinks t ! k)) (ae_elts s ! e) = j \<longleftrightarrow>
      aa_direction (ae_anchors s ! j) \<noteq> Some dir_Left \<or> recorded_side isStart (ae_alinks s ! k) = dir_Left"
    unfolding al using d by (auto simp: recorded_side_def joined_al_def dir_Left_def)
  moreover have "ap_links (ae_apps t ! a) = ap_links (ae_apps s ! a) @ [k]"
    if "isClosed (ae_lks t ! l)" "a = app_at s (the (lk_startElement (ae_lks t ! l)))" for a
  proof -
    have "the (lk_startElement (ae_lks t ! l)) < length (ae_elts s)"
      using that(1) lok e unfolding lk by (auto simp: joined_def isClosed_def link_ok_def attached_def)
    then have "a < length (ae_apps s)" using app_at_less [OF h] that(2) by simp
    then show ?thesis using t(3) that unfolding lk by (simp add: Let_def)
  qed
  ultimately show ?thesis unfolding lk by (auto simp: joined_def)
qed

theorem release_saves_link_witness:
  "lk_startElement (ae_lks (onmouseup_ae example_over) ! 0) = Some 0 \<and> lk_start (ae_lks (onmouseup_ae example_over) ! 0) = 1 \<and>
   getAnchor (recorded_side True (ae_alinks (onmouseup_ae example_over) ! 0)) (ae_elts example_over ! 0) = 1"
proof -
  have "ae_isMoving example_over" "ae_selAnchorLink example_over = Some (0, 4, True, 0, 0)" "ae_selAnchorElement example_over = Some (0, 1)"
    "lk_applicationLink (ae_lks example_over ! 0) = 0" "aa_direction (ae_anchors example_over ! 1) = Some 1"
    by code_simp+
  then show ?thesis using release_saves_link [OF example_reachable(2), of 0 4 True 0 0 0 1] by (simp add: dir_Left_def)
qed

section \<open>Removing a link\<close>

text \<open>
  Removing the selected link takes it from the drawing. If its start is attached, one saved link
  of the start application goes too: the link itself if it was saved, otherwise, as for a link whose
  end was never attached, the last link saved there, which is another one. If its start is not
  attached, as for every link a reload has drawn, the saved links are unchanged.
\<close>

theorem removed_link_in_saved_links:
  assumes "ae_reachable s" and "ae_selLink s = Some l" and "l \<in> set (ae_links s)"
  defines "t \<equiv> remove_selected s" and "k \<equiv> lk_applicationLink (ae_lks s ! l)"
  shows "ae_links t = remove1 l (ae_links s) \<and>
    (case lk_startElement (ae_lks s ! l) of
       None \<Rightarrow> ae_apps t = ae_apps s
     | Some e \<Rightarrow> ap_links (ae_apps t ! app_at s e) =
         (if k \<in> set (ap_links (ae_apps s ! app_at s e)) then remove1 k (ap_links (ae_apps s ! app_at s e))
          else butlast (ap_links (ae_apps s ! app_at s e))))"
proof -
  have rf: "js_splice (js_findIndex (\<lambda>y. y = x) xs) (Suc 0) xs = (if x \<in> set xs then remove1 x xs else butlast xs)" for x and xs :: "nat list"
  proof -
    have "remove_first (\<lambda>y. y = x) xs = remove1 x xs" by (induction xs) auto
    then show ?thesis by (simp add: js_splice_findIndex)
  qed
  have h: "heap_ok s" and "selection_ok s" using reachable_ok [OF assms(1)] by (auto simp: ae_ok_def)
  then have "link_ok s (ae_lks s ! l)" using assms(2) by (simp add: heap_ok_def selection_ok_def sel_link_ok_def)
  then have "app_at s e < length (ae_apps s)" if "lk_startElement (ae_lks s ! l) = Some e" for e
    using that app_at_less [OF h] by (simp add: link_ok_def attached_def)
  then show ?thesis using assms(2, 3) rf
    by (auto simp: t_def k_def remove_selected_def remove_link_def set_app_links_def Let_def app_at_def split: option.split)
qed

definition example_saved :: application where
  "example_saved = new_ApplicationResult\<lparr>ap_id := JStr ''a'', ap_links := [0]\<rparr>"

definition example_loaded :: editor where
  "example_loaded = the (load_applications (\<lambda>_. ''l'') [example_saved] [new_ApplicationLinkResult\<lparr>al_target := Some (JStr ''a'')\<rparr>] [0] new_Editor)"

definition example_half :: editor where
  "example_half = onmouseup_ae (onmousemove_ae id (100, 0)
     (the (onmousedown_ae id (300, 300) (grip [''anchor'', ''start''] ''linkId'' example_id)
       (onDrop_ae id (\<lambda>_. 0) (300, 300) ''link'' example_loaded))))"

lemma example_half_load:
  "load_applications (\<lambda>_. ''l'') [example_saved] [new_ApplicationLinkResult\<lparr>al_target := Some (JStr ''a'')\<rparr>] [0] new_Editor = Some example_loaded"
proof -
  have "load_applications (\<lambda>_. ''l'') [example_saved] [new_ApplicationLinkResult\<lparr>al_target := Some (JStr ''a'')\<rparr>] [0] new_Editor \<noteq> None"
    by code_simp
  then show ?thesis by (auto simp: example_loaded_def)
qed

lemma example_half_reachable: "ae_reachable example_loaded" "ae_reachable example_half"
proof -
  show r: "ae_reachable example_loaded"
    by (rule event [OF ae_reachable.start ae_step.load [OF _ _ _ _ example_half_load]]) (simp_all add: new_Editor_def example_saved_def)
  have "onmousedown_ae id (300, 300) (grip [''anchor'', ''start''] ''linkId'' example_id) (onDrop_ae id (\<lambda>_. 0) (300, 300) ''link'' example_loaded) \<noteq> None"
    by code_simp
  then obtain s where s: "onmousedown_ae id (300, 300) (grip [''anchor'', ''start''] ''linkId'' example_id) (onDrop_ae id (\<lambda>_. 0) (300, 300) ''link'' example_loaded) = Some s"
    by blast
  from event [OF event [OF event [OF event [OF r ae_step.drop] ae_step.press [OF s]] ae_step.move] ae_step.release]
  show "ae_reachable example_half" unfolding example_half_def s option.sel .
qed

theorem removed_link_in_saved_links_witness:
  "ap_links (ae_apps example_half ! 0) = [0] \<and> lk_applicationLink (ae_lks example_half ! 1) = 1 \<and> 
   ae_links (remove_selected example_half) = [0] \<and> ap_links (ae_apps (remove_selected example_half) ! 0) = []"
proof -
  have "ae_selLink example_half = Some 1" "ae_links example_half = [0, 1]" "lk_startElement (ae_lks example_half ! 1) = Some 0"
    "lk_applicationLink (ae_lks example_half ! 1) = 1" "app_at example_half 0 = 0" "ap_links (ae_apps example_half ! 0) = [0]"
    by code_simp+
  then show ?thesis using removed_link_in_saved_links [OF example_half_reachable(2), of 1] by simp
qed

section \<open>Reloading\<close>

text \<open>Link \<open>l\<close> of the drawing stands for link \<open>k\<close> saved with application \<open>a\<close>.\<close>

definition drawn :: "editor \<Rightarrow> nat \<Rightarrow> nat \<Rightarrow> ae_link \<Rightarrow> bool" where
  "drawn s a k l \<longleftrightarrow> lk_applicationLink l = k \<and>
     (\<exists>t f e. al_target (ae_alinks s ! k) = Some t \<and> find_element (ap_id (ae_apps s ! a)) s = Some f \<and> find_element t s = Some e \<and>
       lk_start l = getAnchor (al_startAnchor (ae_alinks s ! k)) (ae_elts s ! f) \<and>
       lk_end l = getAnchor (al_endAnchor (ae_alinks s ! k)) (ae_elts s ! e))"

definition saved_links :: "editor \<Rightarrow> nat list \<Rightarrow> (nat \<times> nat) list" where
  "saved_links s v = filter (\<lambda>(a, k). al_target (ae_alinks s ! k) \<noteq> None) (concat (map (\<lambda>a. map (Pair a) (ap_links (ae_apps s ! a))) v))"

definition objects :: "editor \<Rightarrow> application list \<times> application_link list \<times> ae_element list \<times> nat list" where
  "objects s = (ae_apps s, ae_alinks s, ae_elts s, ae_elements s)"

definition adds_links :: "editor \<Rightarrow> (nat \<times> nat) list \<Rightarrow> editor \<Rightarrow> bool" where
  "adds_links s ps t \<longleftrightarrow> objects t = objects s \<and> (\<exists>new. ae_lks t = ae_lks s @ new \<and>
     ae_links t = ae_links s @ [length (ae_lks s)..<length (ae_lks t)] \<and> list_all2 (\<lambda>(a, k) l. drawn s a k l) ps new)"

lemma drawn_objects: "objects t = objects s \<Longrightarrow> drawn t = drawn s"
  by (intro ext) (simp add: objects_def drawn_def find_element_def elt_id_def)

lemma adds_links_Nil: "adds_links s [] s"
  by (simp add: adds_links_def)

lemma adds_links_trans:
  assumes "adds_links s ps t" and "adds_links t qs u"
  shows "adds_links s (ps @ qs) u"
proof -
  have o: "objects t = objects s" "objects u = objects s" using assms by (simp_all add: adds_links_def)
  obtain n where n: "ae_lks t = ae_lks s @ n" "ae_links t = ae_links s @ [length (ae_lks s)..<length (ae_lks t)]"
      "list_all2 (\<lambda>(a, k) l. drawn s a k l) ps n" using assms(1) by (auto simp: adds_links_def)
  obtain m where m: "ae_lks u = ae_lks t @ m" "ae_links u = ae_links t @ [length (ae_lks t)..<length (ae_lks u)]"
      "list_all2 (\<lambda>(a, k) l. drawn s a k l) qs m" using assms(2) drawn_objects [OF o(1)] by (auto simp: adds_links_def)
  have "ae_links u = ae_links s @ [length (ae_lks s)..<length (ae_lks u)]"
    unfolding m(2) n(2) append_assoc
    using upt_add_eq_append [of "length (ae_lks s)" "length (ae_lks t)" "length m"] by (simp add: n(1) m(1) add.assoc)
  moreover have "list_all2 (\<lambda>(a, k) l. drawn s a k l) (ps @ qs) (n @ m)" using n(3) m(3) by (rule list_all2_appendI)
  moreover have "ae_lks u = ae_lks s @ n @ m" using n(1) m(1) by simp
  ultimately show ?thesis unfolding adds_links_def using o(2) by blast
qed

lemma push_link_adds: "drawn s a k l \<Longrightarrow> adds_links s [(a, k)] (push_link l s)"
  by (simp add: adds_links_def push_link_def objects_def)

lemma init_links_adds:
  "init_links guid a ls s = Some t \<Longrightarrow> adds_links s (filter (\<lambda>(a, k). al_target (ae_alinks s ! k) \<noteq> None) (map (Pair a) ls)) t"
proof (induction guid a ls s rule: init_links.induct)
  case (2 guid a l ls s)
  show ?case
  proof (cases "al_target (ae_alinks s ! l)")
    case None
    then show ?thesis using 2 by simp
  next
    case (Some k)
    then obtain f e where f: "find_element (ap_id (ae_apps s ! a)) s = Some f" and e: "find_element k s = Some e"
      using "2.prems"(1) by (auto simp: Let_def split: Option.bind_splits)
    let ?l = "\<lparr>lk_id = guid (length (ae_links s)), lk_start = getAnchor (al_startAnchor (ae_alinks s ! l)) (ae_elts s ! f),
        lk_end = getAnchor (al_endAnchor (ae_alinks s ! l)) (ae_elts s ! e), lk_isSelected = False,
        lk_startElement = None, lk_endElement = None, lk_applicationLink = l\<rparr>"
    have "drawn s a l ?l" using Some f e by (simp add: drawn_def)
    note p = push_link_adds [OF this]
    have r: "init_links guid a ls (push_link ?l s) = Some t" using "2.prems"(1) Some f e by (simp add: Let_def)
    have "ae_alinks (push_link ?l s) = ae_alinks s" by (simp add: push_link_def)
    then show ?thesis using adds_links_trans [OF p "2.IH"(2) [OF refl Some f e r]] Some by simp
  qed
qed (simp add: adds_links_Nil)

lemma init_all_links_adds: "init_all_links guid as s = Some t \<Longrightarrow> adds_links s (saved_links s as) t"
proof (induction guid as s rule: init_all_links.induct)
  case (2 guid a as s)
  then obtain u where u: "init_links guid a (ap_links (ae_apps s ! a)) s = Some u" "init_all_links guid as u = Some t"
    by (auto split: Option.bind_splits)
  note p = init_links_adds [OF u(1)]
  have "saved_links u as = saved_links s as" using p by (simp add: adds_links_def objects_def saved_links_def)
  then show ?case using adds_links_trans [OF p "2.IH" [OF u]] by (simp add: saved_links_def)
qed (simp add: adds_links_Nil saved_links_def)

definition add_element :: "nat \<Rightarrow> editor \<Rightarrow> editor" where
  "add_element a s = (let (i, t) = new_Element a applicationWidth applicationHeight s in t\<lparr>ae_elements := ae_elements t @ [i]\<rparr>)"

lemma init_elements_fold: "init_elements as s = fold add_element as s"
  by (induction as arbitrary: s) (simp_all add: add_element_def split: prod.split)

lemma add_element_state:
  "ae_elements (add_element a s) = ae_elements s @ [length (ae_elts s)]"
  "\<exists>x. ae_elts (add_element a s) = ae_elts s @ [x] \<and> ee_app x = a"
  "(ae_apps (add_element a s), ae_alinks (add_element a s), ae_lks (add_element a s), ae_links (add_element a s)) =
     (ae_apps s, ae_alinks s, ae_lks s, ae_links s)"
  by (simp_all add: add_element_def new_Element_def Let_def)

lemma fold_add_element:
  assumes "\<forall>e \<in> set (ae_elements s). e < length (ae_elts s)"
  shows "map (app_at (fold add_element as s)) (ae_elements (fold add_element as s)) = map (app_at s) (ae_elements s) @ as \<and>
    (ae_apps (fold add_element as s), ae_alinks (fold add_element as s), ae_lks (fold add_element as s), ae_links (fold add_element as s)) =
     (ae_apps s, ae_alinks s, ae_lks s, ae_links s)"
  using assms
proof (induction as arbitrary: s)
  case (Cons a as)
  obtain x where x: "ae_elts (add_element a s) = ae_elts s @ [x]" "ee_app x = a" using add_element_state(2) by blast
  have "\<forall>e \<in> set (ae_elements (add_element a s)). e < length (ae_elts (add_element a s))"
    using Cons.prems by (auto simp: add_element_state(1) x(1))
  note ih = Cons.IH [OF this]
  have "map (app_at (add_element a s)) (ae_elements s) = map (app_at s) (ae_elements s)"
    by (rule map_cong) (use Cons.prems in \<open>simp_all add: app_at_def x(1) nth_append\<close>)
  moreover have "app_at (add_element a s) (length (ae_elts s)) = a" by (simp add: app_at_def x)
  ultimately have "map (app_at (add_element a s)) (ae_elements (add_element a s)) = map (app_at s) (ae_elements s) @ [a]"
    by (simp only: add_element_state(1) map_append list.map)
  then show ?case using ih add_element_state(3) [of a s] by simp
qed simp

text \<open>
  C22. When loading applications succeeds, the drawing has one element per application, in order, and
  one link per saved link that has a target, in order, from the saved side of the first element with
  the application's id to the saved side of the first element with the target's id.
\<close>

theorem reload_draws_saved_links:
  assumes "load_applications guid apps als v s = Some t" and "v \<noteq> []"
  shows "map (app_at t) (ae_elements t) = v \<and>
    list_all2 (\<lambda>(a, k) l. drawn t a k l) (saved_links t v) (map (\<lambda>l. ae_lks t ! l) (ae_links t))"
proof -
  define u where "u = fold add_element v (s\<lparr>ae_apps := ae_apps s @ apps, ae_alinks := ae_alinks s @ als, ae_applications := v,
    ae_elements := [], ae_links := []\<rparr>)"
  have "init_all_links guid v u = Some t"
    using assms by (simp add: load_applications_def set_applications_def init_ae_def u_def init_elements_fold)
  note a = init_all_links_adds [OF this]
  have u: "map (app_at u) (ae_elements u) = v" "ae_links u = []"
    unfolding u_def by (subst fold_add_element; simp) (use fold_add_element in simp)
  have o: "objects t = objects u" using a by (simp add: adds_links_def)
  then have s: "saved_links t v = saved_links u v" "map (app_at t) (ae_elements t) = map (app_at u) (ae_elements u)"
    by (simp_all add: objects_def saved_links_def app_at_def)
  obtain n where n: "ae_lks t = ae_lks u @ n" "ae_links t = [length (ae_lks u)..<length (ae_lks t)]"
    "list_all2 (\<lambda>(a, k) l. drawn u a k l) (saved_links u v) n" using a u(2) by (auto simp: adds_links_def)
  have "map (\<lambda>l. ae_lks t ! l) (ae_links t) = n" unfolding n(2) by (rule nth_equalityI) (simp_all add: n(1))
  then show ?thesis using n(3) u(1) unfolding s drawn_objects [OF o] by simp
qed

theorem reload_draws_saved_links_witness:
  "map (app_at example_loaded) (ae_elements example_loaded) = [0] \<and> saved_links example_loaded [0] = [(0, 0)] \<and>
   drawn example_loaded 0 0 (ae_lks example_loaded ! 0)"
proof -
  have l: "load_applications (\<lambda>_. ''l'') [example_saved] [new_ApplicationLinkResult\<lparr>al_target := Some (JStr ''a'')\<rparr>] [0] new_Editor = Some example_loaded"
    using example_half_load by simp
  have "saved_links example_loaded [0] = [(0, 0)]" "ae_links example_loaded = [0]" by code_simp+
  then show ?thesis using reload_draws_saved_links [OF l] by simp
qed

end
