(* ===== verification/Dialog_Function.thy ===== *)
theory Dialog_Function
  imports SM_Model
begin

text \<open>
  The dialog that edits a function of a workflow
  (app/statemachines/edit/functionseditor/editfunction-dialog.component.ts). The controls of its four
  form groups hold JavaScript values. Parameters stand for code outside the repository:
  \<open>blank\<close> is the test of \<open>Validators.required\<close>, \<open>parse\<close> and \<open>stringify\<close> are those of \<open>JSON\<close>, and
  \<open>show\<close> is the conversion of numbers, arrays and objects to strings.
\<close>

section \<open>Strings\<close>

fun js_string :: "(js \<Rightarrow> string) \<Rightarrow> js \<Rightarrow> string" where
  "js_string show (JStr s) = s"
| "js_string show Undef = ''undefined''"
| "js_string show Null = ''null''"
| "js_string show (JBool b) = (if b then ''true'' else ''false'')"
| "js_string show v = show v"

text \<open>\<open>s.split(c)\<close> for a string of one character\<close>

fun js_split :: "char \<Rightarrow> string \<Rightarrow> string list" where
  "js_split c [] = [[]]"
| "js_split c (x # xs) =
     (if x = c then [] # js_split c xs
      else case js_split c xs of [] \<Rightarrow> [[x]] | y # ys \<Rightarrow> (x # y) # ys)"

text \<open>\<open>v?.split(c)\<close>\<close>

fun opt_split :: "char \<Rightarrow> js \<Rightarrow> string list option res" where
  "opt_split c (JStr s) = Some (Some (js_split c s))"
| "opt_split c Undef = Some None"
| "opt_split c Null = Some None"
| "opt_split c _ = TypeError"

lemma js_split_not_Nil: "js_split c s \<noteq> []"
  by (induction s) (auto split: list.splits)

lemma js_split_none: "c \<notin> set s \<Longrightarrow> js_split c s = [s]"
  by (induction s) auto

lemma js_split_append: "c \<notin> set a \<Longrightarrow> js_split c (a @ c # b) = a # js_split c b"
  by (induction a) auto

lemma length_js_split: "length (js_split c s) = Suc (count_list s c)"
  by (induction s) (auto split: list.splits dest: arg_cong [of _ _ length])

section \<open>The dialog\<close>

record fn_dialog =
  fd_name :: js
  fd_type :: js
  fd_url :: js
  fd_isOpenApiUrl :: js
  fd_operationId :: js
  fd_asyncUrl :: js
  fd_asyncOperationId :: js
  fd_image :: js
  fd_version :: js
  fd_configuration :: js
  fd_openApiErrorMessage :: js
  fd_asyncApiErrorMessage :: js
  fd_operations :: "js list"
  fd_asyncApiOperations :: "js list"
  fd_requests :: "(string \<times> js) list"

definition new_EditFunctionDialog :: fn_dialog where
  "new_EditFunctionDialog = \<lparr>fd_name = JStr '''', fd_type = JStr '''', fd_url = JStr '''', fd_isOpenApiUrl = JBool False,
     fd_operationId = JStr '''', fd_asyncUrl = JStr '''', fd_asyncOperationId = JStr '''', fd_image = JStr '''',
     fd_version = JStr '''', fd_configuration = Null, fd_openApiErrorMessage = Null, fd_asyncApiErrorMessage = Null,
     fd_operations = [], fd_asyncApiOperations = [], fd_requests = []\<rparr>"

definition op_AsyncApi :: js where "op_AsyncApi = JStr ''asyncapi''"
definition op_Rest :: js where "op_Rest = JStr ''rest''"
definition op_Custom :: js where "op_Custom = JStr ''custom''"

definition fd_isDisabled :: "(js \<Rightarrow> bool) \<Rightarrow> fn_dialog \<Rightarrow> bool" where
  "fd_isDisabled blank d =
     (if blank (fd_name d) \<or> blank (fd_type d) then True
      else if fd_type d = JStr ''kubernetes'' then blank (fd_image d) \<or> blank (fd_version d)
      else if fd_type d = op_Rest \<and> truthy (fd_isOpenApiUrl d) then blank (fd_url d) \<or> blank (fd_operationId d)
      else if fd_type d = op_Rest \<and> \<not> truthy (fd_isOpenApiUrl d) then blank (fd_url d)
      else fd_type d = op_AsyncApi \<and> (blank (fd_asyncUrl d) \<or> blank (fd_asyncOperationId d)))"

text \<open>\<open>a + '#' + b\<close>\<close>

definition hash_join :: "(js \<Rightarrow> string) \<Rightarrow> js \<Rightarrow> js \<Rightarrow> js" where
  "hash_join show a b = JStr (js_string show a @ ''#'' @ js_string show b)"

text \<open>\<open>save\<close>: the record the dialog closes with, or \<open>None\<close> if it stays open\<close>

definition fd_save :: "(js \<Rightarrow> string) \<Rightarrow> (js \<Rightarrow> js res) \<Rightarrow> (js \<Rightarrow> bool) \<Rightarrow> fn_dialog \<Rightarrow> sm_function option" where
  "fd_save show parse blank d =
     (if fd_isDisabled blank d then None
      else let r = \<lparr>fn_name = fd_name d, fn_type = Undef, fn_operation = Undef, fn_metadata = Undef\<rparr>
           in Some (if fd_type d = JStr ''kubernetes'' then
                      (let m = [(''version'', fd_version d), (''image'', fd_image d)];
                           m' = (if truthy (fd_configuration d)
                                 then case parse (fd_configuration d) of Some v \<Rightarrow> AList.update ''configuration'' v m | None \<Rightarrow> m
                                 else m)
                       in r\<lparr>fn_metadata := JObj m', fn_type := op_Custom\<rparr>)
                    else if fd_type d = op_Rest then
                      r\<lparr>fn_operation := (if truthy (fd_isOpenApiUrl d) then hash_join show (fd_url d) (fd_operationId d) else fd_url d),
                        fn_type := op_Rest\<rparr>
                    else if fd_type d = op_AsyncApi then
                      r\<lparr>fn_operation := hash_join show (fd_asyncUrl d) (fd_asyncOperationId d), fn_type := op_AsyncApi\<rparr>
                    else r\<lparr>fn_type := fd_type d\<rparr>))"

text \<open>The lists of operations, asked for at the server\<close>

definition refreshOpenApiOperations :: "fn_dialog \<Rightarrow> fn_dialog" where
  "refreshOpenApiOperations d =
     d\<lparr>fd_operations := [JObj [(''operationId'', JStr ''Loading...'')]], fd_requests := fd_requests d @ [(''openapi'', fd_url d)]\<rparr>"

definition refreshAsyncApiOperations :: "fn_dialog \<Rightarrow> fn_dialog" where
  "refreshAsyncApiOperations d =
     d\<lparr>fd_asyncApiOperations := [JObj [(''operationId'', JStr ''Loading...'')]], fd_requests := fd_requests d @ [(''asyncapi'', fd_asyncUrl d)]\<rparr>"

definition first_operationId :: "js list \<Rightarrow> js res" where
  "first_operationId e = (case e of [] \<Rightarrow> TypeError | x # _ \<Rightarrow> js_get x ''operationId'')"

definition openApi_loaded :: "js list \<Rightarrow> fn_dialog \<Rightarrow> fn_dialog res" where
  "openApi_loaded e d =
     map_option (\<lambda>i. d\<lparr>fd_openApiErrorMessage := Null, fd_operations := e, fd_operationId := i\<rparr>) (first_operationId e)"

definition asyncApi_loaded :: "js list \<Rightarrow> fn_dialog \<Rightarrow> fn_dialog res" where
  "asyncApi_loaded e d =
     map_option (\<lambda>i. d\<lparr>fd_asyncApiErrorMessage := Null, fd_asyncApiOperations := e, fd_asyncOperationId := i\<rparr>) (first_operationId e)"

text \<open>\<open>e.error && e.error.Message\<close>, or the message of the dialog\<close>

definition error_message :: "string \<Rightarrow> js \<Rightarrow> js res" where
  "error_message msg e = do {
     err \<leftarrow> js_get e ''error'';
     if truthy err then do { m \<leftarrow> js_get err ''Message''; Some (if truthy m then m else JStr msg) } else Some (JStr msg)
   }"

definition openApi_failed :: "js \<Rightarrow> fn_dialog \<Rightarrow> fn_dialog res" where
  "openApi_failed e d =
     map_option (\<lambda>m. d\<lparr>fd_operations := [], fd_openApiErrorMessage := m\<rparr>)
       (error_message ''An error occured while trying to get the operations from the OPENAPI URL'' e)"

definition asyncApi_failed :: "js \<Rightarrow> fn_dialog \<Rightarrow> fn_dialog res" where
  "asyncApi_failed e d =
     map_option (\<lambda>m. d\<lparr>fd_asyncApiErrorMessage := m\<rparr>)
       (error_message ''An error occured while trying to get the operations from the ASYNCAPI URL'' e)"

definition extractOpenApi :: "fn_dialog \<Rightarrow> fn_dialog" where
  "extractOpenApi d = refreshOpenApiOperations (d\<lparr>fd_operationId := JStr ''''\<rparr>)"

definition extractAsyncApi :: "fn_dialog \<Rightarrow> fn_dialog" where
  "extractAsyncApi d = refreshAsyncApiOperations (d\<lparr>fd_asyncOperationId := JStr ''''\<rparr>)"

text \<open>\<open>displaySelected...Operation\<close>\<close>

definition displaySelected :: "(js \<Rightarrow> string) \<Rightarrow> js \<Rightarrow> js list \<Rightarrow> string res" where
  "displaySelected show operationId ops =
     map_option (\<lambda>xs. case filter (\<lambda>(i, o'). js_eq i operationId) (zip xs ops) of
          [(i, o')] \<Rightarrow> ''Summary: '' @ js_string show (case js_get o' ''summary'' of Some v \<Rightarrow> v | None \<Rightarrow> Undef)
        | _ \<Rightarrow> '''') (those (map (\<lambda>o'. js_get o' ''operationId'') ops))"

section \<open>Opening the dialog\<close>

definition init_metadata :: "(js \<Rightarrow> js) \<Rightarrow> js \<Rightarrow> fn_dialog \<Rightarrow> fn_dialog res" where
  "init_metadata stringify m d =
     (if \<not> truthy m then Some d
      else do {
        v \<leftarrow> js_get m ''version'';
        i \<leftarrow> js_get m ''image'';
        c \<leftarrow> js_get m ''configuration'';
        Some (if truthy v \<and> truthy i
              then (let d' = d\<lparr>fd_type := JStr ''kubernetes'', fd_version := v, fd_image := i\<rparr>
                    in if truthy c then d'\<lparr>fd_configuration := stringify c\<rparr> else d')
              else d)
      })"

definition init_rest :: "js \<Rightarrow> fn_dialog \<Rightarrow> fn_dialog res" where
  "init_rest operation d = do {
     parts \<leftarrow> opt_split CHR ''#'' operation;
     Some (case parts of
             Some [u, o'] \<Rightarrow>
               refreshOpenApiOperations (d\<lparr>fd_operationId := JStr o', fd_url := JStr u, fd_isOpenApiUrl := JBool True\<rparr>)
           | _ \<Rightarrow> d\<lparr>fd_url := operation, fd_isOpenApiUrl := JBool False\<rparr>)
   }"

definition init_asyncapi :: "js \<Rightarrow> fn_dialog \<Rightarrow> fn_dialog res" where
  "init_asyncapi operation d = do {
     parts \<leftarrow> opt_split CHR ''#'' operation;
     Some (case parts of
             None \<Rightarrow> d
           | Some ps \<Rightarrow>
               refreshAsyncApiOperations
                 (d\<lparr>fd_asyncOperationId := (if length ps < 2 then Undef else JStr (ps ! 1)), fd_asyncUrl := JStr (hd ps)\<rparr>))
   }"

text \<open>The constructor calls \<open>_init\<close> with the function to edit, or with \<open>null\<close>.\<close>

definition fd_open :: "(js \<Rightarrow> js) \<Rightarrow> sm_function option \<Rightarrow> fn_dialog res" where
  "fd_open stringify f =
     (case f of
        None \<Rightarrow> Some new_EditFunctionDialog
      | Some f \<Rightarrow> do {
          d1 \<leftarrow> init_metadata stringify (fn_metadata f)
                 (new_EditFunctionDialog\<lparr>fd_name := fn_name f, fd_type := fn_type f\<rparr>);
          d2 \<leftarrow> (if fn_type f = op_Rest then init_rest (fn_operation f) d1 else Some d1);
          if fn_type f = op_AsyncApi then init_asyncapi (fn_operation f) d2 else Some d2
        })"

section \<open>Opening and saving again\<close>

text \<open>The controls hold what the page can put into them: strings, and a boolean for the check box.\<close>

definition fd_typed :: "fn_dialog \<Rightarrow> bool" where
  "fd_typed d \<longleftrightarrow> (\<forall>v \<in> {fd_name d, fd_type d, fd_url d, fd_operationId d, fd_asyncUrl d, fd_asyncOperationId d, fd_image d, fd_version d}.
     \<exists>s. v = JStr s) \<and> (\<exists>b. fd_isOpenApiUrl d = JBool b)"

definition hashes :: "js \<Rightarrow> nat" where
  "hashes v = (case v of JStr s \<Rightarrow> count_list s CHR ''#'' | _ \<Rightarrow> 0)"

text \<open>What the string with \<open>#\<close> can represent\<close>

definition fd_plain :: "fn_dialog \<Rightarrow> bool" where
  "fd_plain d \<longleftrightarrow> 
     (if truthy (fd_isOpenApiUrl d) then hashes (fd_url d) = 0 \<and> hashes (fd_operationId d) = 0 else hashes (fd_url d) \<noteq> 1) \<and>
     hashes (fd_asyncUrl d) = 0 \<and> hashes (fd_asyncOperationId d) = 0"

lemma split_joined: "count_list u c = 0 \<Longrightarrow> count_list v c = 0 \<Longrightarrow> js_split c (u @ c # v) = [u, v]"
  by (simp add: count_list_0_iff js_split_append js_split_none)

lemma split_pair: "js_split c s = [u, v] \<Longrightarrow> count_list s c = 1"
  using length_js_split [of c s] by simp

lemma rest_reopens:
  assumes "fn_type f = op_Rest" and "fn_metadata f = Undef"
  shows "fn_operation f = JStr (u @ CHR ''#'' # v) \<Longrightarrow> count_list u CHR ''#'' = 0 \<Longrightarrow> count_list v CHR ''#'' = 0 \<Longrightarrow>
      fd_open stringify (Some f) = Some (refreshOpenApiOperations (new_EditFunctionDialog
        \<lparr>fd_name := fn_name f, fd_type := op_Rest, fd_operationId := JStr v, fd_url := JStr u, fd_isOpenApiUrl := JBool True\<rparr>))"
    and "fn_operation f = JStr u \<Longrightarrow> count_list u CHR ''#'' \<noteq> 1 \<Longrightarrow>
      fd_open stringify (Some f) = Some (new_EditFunctionDialog
        \<lparr>fd_name := fn_name f, fd_type := op_Rest, fd_url := JStr u, fd_isOpenApiUrl := JBool False\<rparr>)"
  using assms split_pair [of "CHR ''#''" u]
  by (auto simp: fd_open_def init_metadata_def init_rest_def op_Rest_def op_AsyncApi_def split_joined split: list.split)

lemma asyncapi_reopens:
  assumes "fn_type f = op_AsyncApi" and "fn_metadata f = Undef" and "fn_operation f = JStr (u @ CHR ''#'' # v)"
    and "count_list u CHR ''#'' = 0" and "count_list v CHR ''#'' = 0"
  shows "fd_open stringify (Some f) = Some (refreshAsyncApiOperations (new_EditFunctionDialog
        \<lparr>fd_name := fn_name f, fd_type := op_AsyncApi, fd_asyncOperationId := JStr v, fd_asyncUrl := JStr u\<rparr>))"
  using assms by (simp add: fd_open_def init_metadata_def init_asyncapi_def op_Rest_def op_AsyncApi_def split_joined)

lemma kubernetes_reopens:
  assumes "fn_type f = op_Custom" and "fn_metadata f = JObj m"
    and "obj_lookup m ''version'' = v" "truthy v" and "obj_lookup m ''image'' = i" "truthy i"
  shows "fd_open stringify (Some f) = Some (let d = new_EditFunctionDialog\<lparr>fd_name := fn_name f, fd_type := JStr ''kubernetes'', fd_version := v, fd_image := i\<rparr>
    in if truthy (obj_lookup m ''configuration'') then d\<lparr>fd_configuration := stringify (obj_lookup m ''configuration'')\<rparr> else d)"
  using assms by (simp add: fd_open_def init_metadata_def op_Rest_def op_AsyncApi_def op_Custom_def Let_def)

lemmas fd_save_simps = fd_save_def fd_isDisabled_def hash_join_def op_Rest_def op_AsyncApi_def op_Custom_def Let_def

lemma kubernetes_roundtrip:
  assumes saved: "fd_save show parse blank d = Some f" and ty: "fd_type d = JStr ''kubernetes''"
    and d: "fd_name d = JStr nm" "fd_image d = JStr im" "fd_version d = JStr ve" and req: "\<forall>s. blank (JStr s) = (s = [])"
    and json: "\<forall>v. truthy (fd_configuration d) \<longrightarrow> parse (fd_configuration d) = Some v \<longrightarrow>
      truthy v \<and> truthy (stringify v) \<and> parse (stringify v) = Some v"
  shows "\<exists>d'. fd_open stringify (Some f) = Some d' \<and> fd_save show parse blank d' = Some f"
proof -
  define c where "c = (if truthy (fd_configuration d) then parse (fd_configuration d) else None)"
  define m where "m = (case c of Some v \<Rightarrow> [(''version'', JStr ve), (''image'', JStr im), (''configuration'', v)]
    | None \<Rightarrow> [(''version'', JStr ve), (''image'', JStr im)])"
  have f: "f = \<lparr>fn_name = JStr nm, fn_type = op_Custom, fn_operation = Undef, fn_metadata = JObj m\<rparr>"
    and ne: "nm \<noteq> []" "im \<noteq> []" "ve \<noteq> []"
    using saved ty d req by (auto simp: fd_save_simps m_def c_def split: if_splits option.splits)
  have cv: "truthy v \<and> truthy (stringify v) \<and> parse (stringify v) = Some v" if "c = Some v" for v
    using json that by (simp add: c_def split: if_splits)
  let ?d = "new_EditFunctionDialog\<lparr>fd_name := JStr nm, fd_type := JStr ''kubernetes'', fd_version := JStr ve, fd_image := JStr im\<rparr>"
  let ?e = "case c of Some v \<Rightarrow> ?d\<lparr>fd_configuration := stringify v\<rparr> | None \<Rightarrow> ?d"
  have "fd_open stringify (Some f) = Some (let d = ?d in if truthy (obj_lookup m ''configuration'') then d\<lparr>fd_configuration := stringify (obj_lookup m ''configuration'')\<rparr> else d)"
    using kubernetes_reopens [of f m "JStr ve" "JStr im" stringify] ne by (simp add: f m_def split: option.splits)
  also have "\<dots> = Some ?e" using cv by (simp add: m_def Let_def split: option.split)
  finally have o: "fd_open stringify (Some f) = Some ?e" .
  have "fd_save show parse blank ?e = Some f"
    using ne req cv by (cases c) (simp_all add: f m_def fd_save_simps new_EditFunctionDialog_def)
  then show ?thesis using o by blast
qed


definition example_dialog :: fn_dialog where
  "example_dialog = new_EditFunctionDialog\<lparr>fd_name := JStr ''f'', fd_type := JStr ''rest'', fd_url := JStr ''http://a'',
     fd_isOpenApiUrl := JBool True, fd_operationId := JStr ''get''\<rparr>"

definition example_function :: sm_function where
  "example_function = \<lparr>fn_name = JStr ''f'', fn_type = JStr ''rest'', fn_operation = JStr ''http://a#get'', fn_metadata = Undef\<rparr>"


text \<open>
  When the server answers with its operations after a REST function with an OpenAPI operation was
  opened, the dialog selects the first operation of the answer: saving without any edit then gives a
  function that calls that operation instead of its own.
\<close>

theorem reopened_function_calls_first_operation:
  assumes "fn_type f = op_Rest" and "fn_metadata f = Undef" and "fn_name f = JStr (c # nm)"
    and "fn_operation f = JStr (u @ CHR ''#'' # own)" and "CHR ''#'' \<notin> set u" and "CHR ''#'' \<notin> set own" and "u \<noteq> []"
    and "js_get x ''operationId'' = Some (JStr first)" and "first \<noteq> []" and "\<forall>s. blank (JStr s) = (s = [])"
  shows "(do { d \<leftarrow> fd_open stringify (Some f); d' \<leftarrow> openApi_loaded (x # xs) d; fd_save show parse blank d' }) =
    Some (f\<lparr>fn_operation := JStr (u @ CHR ''#'' # first)\<rparr>)"
proof -
  have "fd_open stringify (Some f) = Some (refreshOpenApiOperations (new_EditFunctionDialog
        \<lparr>fd_name := fn_name f, fd_type := op_Rest, fd_operationId := JStr own, fd_url := JStr u, fd_isOpenApiUrl := JBool True\<rparr>))"
    by (rule rest_reopens) (use assms in \<open>simp_all add: count_list_0_iff\<close>)
  then show ?thesis using assms
    by (cases f) (simp add: openApi_loaded_def first_operationId_def refreshOpenApiOperations_def new_EditFunctionDialog_def fd_save_simps)
qed

theorem reopened_function_calls_first_operation_witness:
  "(do { d \<leftarrow> fd_open id (Some example_function); d' \<leftarrow> openApi_loaded [JObj [(''operationId'', JStr ''list'')]] d;
     fd_save (\<lambda>_. ''0'') (\<lambda>_. None) (\<lambda>v. v = JStr '''') d' }) = Some (example_function\<lparr>fn_operation := JStr ''http://a#list''\<rparr>)"
  using reopened_function_calls_first_operation [of example_function "CHR ''f''" "[]" "''http://a''" "''get''"
      "JObj [(''operationId'', JStr ''list'')]" "''list''" "\<lambda>v. v = JStr ''''" id "[]" "\<lambda>_. ''0''" "\<lambda>_. None"]
  by (simp add: example_function_def op_Rest_def)

end
