(* ===== verification/Store_Core.thy ===== *)
theory Store_Core
  imports Js_Prelude
begin

text \<open>
  What the stores of the web site (src/stores) share: JSON cloning, spread syntax, callbacks that
  may throw, HTTP requests, the way an effect turns a response into an action, and the contract of a
  store that keeps a list of records under a key.

  The content of a response is a JavaScript value of any shape. A date is represented by the string
  that \<open>JSON.stringify\<close> gives for it.
\<close>

section \<open>Values\<close>

text \<open>\<open>JSON.parse(JSON.stringify(v))\<close>: properties that are \<open>undefined\<close> are dropped.\<close>

fun json_clone :: "js \<Rightarrow> js" where
  "json_clone (JArr xs) = JArr (map (\<lambda>x. if x = Undef then Null else json_clone x) xs)"
| "json_clone (JObj kvs) = JObj (map (\<lambda>(k, v). (k, json_clone v)) (filter (\<lambda>(k, v). v \<noteq> Undef) kvs))"
| "json_clone v = v"

text \<open>A value without \<open>undefined\<close> in it, as \<open>JSON.parse\<close> gives it\<close>

definition json_value :: "js \<Rightarrow> bool" where
  "json_value v \<longleftrightarrow> v \<noteq> Undef \<and> json_clone v = v"

definition clone_list :: "js list \<Rightarrow> js list" where
  "clone_list xs = map (\<lambda>x. if x = Undef then Null else json_clone x) xs"

text \<open>Decimal notation, as used when a number is concatenated to a string.\<close>

fun nat_dec :: "nat \<Rightarrow> string" where
  "nat_dec n = (if n < 10 then [char_of (48 + n)] else nat_dec (n div 10) @ [char_of (48 + n mod 10)])"

declare nat_dec.simps [simp del]

definition int_dec :: "int \<Rightarrow> string" where
  "int_dec i = (if i < 0 then ''-'' @ nat_dec (nat (- i)) else nat_dec (nat i))"

lemma json_clone_not_Undef [simp]: "json_clone v = Undef \<longleftrightarrow> v = Undef"
  by (cases v) auto

lemma json_clone_idem [simp]: "json_clone (json_clone v) = json_clone v"
  by (induction v rule: json_clone.induct) (auto simp: filter_map comp_def case_prod_unfold filter_id_conv intro!: filter_True)

text \<open>A number of seconds with at most three decimals, as \<open>getTime() / 1000\<close> gives it\<close>

definition seconds_dec :: "rat \<Rightarrow> string" where
  "seconds_dec q =
     (let ms = \<lfloor>q * 1000\<rfloor>; f = nat (ms mod 1000);
          ds = rev (dropWhile (\<lambda>c. c = CHR ''0'') (rev (nat_dec (f div 100) @ nat_dec (f div 10 mod 10) @ nat_dec (f mod 10))))
      in int_dec (ms div 1000) @ (if ds = [] then [] else CHR ''.'' # ds))"

text \<open>\<open>[...v]\<close> and \<open>{...v}\<close>\<close>

fun js_spread :: "js \<Rightarrow> js list res" where
  "js_spread (JArr xs) = Some xs"
| "js_spread (JStr s) = Some (map (\<lambda>c. JStr [c]) s)"
| "js_spread _ = TypeError"

definition indexed :: "js list \<Rightarrow> (string \<times> js) list" where
  "indexed xs = zip (map nat_dec [0..<length xs]) xs"

fun obj_spread :: "js \<Rightarrow> js" where
  "obj_spread (JObj kvs) = JObj kvs"
| "obj_spread (JArr xs) = JObj (indexed xs)"
| "obj_spread (JStr s) = JObj (indexed (map (\<lambda>c. JStr [c]) s))"
| "obj_spread _ = JObj []"

text \<open>\<open>for (var k in v)\<close>, with the values \<open>v[k]\<close>\<close>

fun children :: "js \<Rightarrow> (string \<times> js) list" where
  "children (JObj kvs) = kvs"
| "children (JArr xs) = indexed xs"
| "children (JStr s) = indexed (map (\<lambda>c. JStr [c]) s)"
| "children _ = []"

text \<open>\<open>v[k]\<close>, also for arrays and strings\<close>

fun js_index :: "js \<Rightarrow> string \<Rightarrow> js res" where
  "js_index Undef k = TypeError"
| "js_index Null k = TypeError"
| "js_index (JArr xs) k = Some (if k = ''length'' then JNum (of_nat (length xs)) else obj_lookup (children (JArr xs)) k)"
| "js_index (JStr s) k = Some (if k = ''length'' then JNum (of_nat (length s)) else obj_lookup (children (JStr s)) k)"
| "js_index v k = Some (obj_lookup (children v) k)"

lemma in_indexed: "(k, v) \<in> set (indexed xs) \<Longrightarrow> v \<in> set xs"
  by (auto simp: indexed_def dest: set_zip_rightD)

text \<open>\<open>o.k = v\<close> on an object\<close>

fun js_set :: "string \<Rightarrow> js \<Rightarrow> js \<Rightarrow> js" where
  "js_set k v (JObj kvs) = JObj (AList.update k v kvs)"
| "js_set k v w = w"

text \<open>\<open>xs.filter(p)\<close> for a callback that may throw, and the position of the first match\<close>

fun js_filterM :: "('a \<Rightarrow> bool res) \<Rightarrow> 'a list \<Rightarrow> 'a list res" where
  "js_filterM p [] = Some []"
| "js_filterM p (x # xs) = do {
     b \<leftarrow> p x;
     ys \<leftarrow> js_filterM p xs;
     Some (if b then x # ys else ys)
   }"

fun update_first :: "('a \<Rightarrow> bool) \<Rightarrow> ('a \<Rightarrow> 'a) \<Rightarrow> 'a list \<Rightarrow> 'a list" where
  "update_first p f [] = []"
| "update_first p f (x # xs) = (if p x then f x # xs else x # update_first p f xs)"

definition prop_is :: "string \<Rightarrow> js \<Rightarrow> js \<Rightarrow> bool res" where
  "prop_is k v x = map_option (\<lambda>w. js_seq w v) (js_get x k)"

definition prop_is_not :: "string \<Rightarrow> js \<Rightarrow> js \<Rightarrow> bool res" where
  "prop_is_not k v x = map_option (\<lambda>w. \<not> js_seq w v) (js_get x k)"

section \<open>Requests and effects\<close>

datatype http_method = GET | POST | PUT | DELETE

record request =
  rq_method :: http_method
  rq_url :: string
  rq_body :: js
  rq_headers :: "(string \<times> string) list"

definition http_get :: "string \<Rightarrow> request" where
  "http_get url = \<lparr>rq_method = GET, rq_url = url, rq_body = Undef, rq_headers = []\<rparr>"

definition http_delete :: "string \<Rightarrow> request" where
  "http_delete url = \<lparr>rq_method = DELETE, rq_url = url, rq_body = Undef, rq_headers = []\<rparr>"

definition accept_json :: "(string \<times> string) list" where
  "accept_json = [(''Accept'', ''application/json'')]"

definition http_post :: "string \<Rightarrow> js \<Rightarrow> request" where
  "http_post url body = \<lparr>rq_method = POST, rq_url = url, rq_body = body, rq_headers = accept_json\<rparr>"

definition http_put :: "string \<Rightarrow> js \<Rightarrow> request" where
  "http_put url body = \<lparr>rq_method = PUT, rq_url = url, rq_body = body, rq_headers = accept_json\<rparr>"

definition accepting :: "request \<Rightarrow> request" where
  "accepting r = r\<lparr>rq_headers := accept_json\<rparr>"

text \<open>The outcome of a request: the body of a successful response, or an error.\<close>

datatype outcome = Success js | Failure

text \<open>
  \<open>.pipe(map(f), catchError(() => of(e)))\<close>: an exception thrown by the callback of \<open>map\<close> is caught
  as well.
\<close>

definition settle :: "(js \<Rightarrow> 'a res) \<Rightarrow> 'a \<Rightarrow> outcome \<Rightarrow> 'a" where
  "settle f e r = (case r of Success c \<Rightarrow> (case f c of Some a \<Rightarrow> a | None \<Rightarrow> e) | Failure \<Rightarrow> e)"

type_synonym 'a effect = "(request \<times> (outcome \<Rightarrow> 'a)) option"

section \<open>Records in lists\<close>

fun key_of :: "string \<Rightarrow> js \<Rightarrow> js" where
  "key_of k (JObj kvs) = obj_lookup kvs k"
| "key_of k _ = Undef"

text \<open>A record as the server sends it: an object without undefined parts.\<close>

fun is_record :: "js \<Rightarrow> bool" where
  "is_record (JObj kvs) = (json_clone (JObj kvs) = JObj kvs)"
| "is_record _ = False"

lemma clone_records: "list_all is_record xs \<Longrightarrow> clone_list xs = xs"
proof (induction xs)
  case (Cons x xs)
  then show ?case by (cases x) (auto simp: clone_list_def)
qed (simp add: clone_list_def)

lemma js_get_record: "is_record x \<Longrightarrow> js_get x k = Some (key_of k x)"
  by (cases x) auto

lemma filterM_records:
  "list_all is_record xs \<Longrightarrow> js_filterM (prop_is_not k v) xs = Some (filter (\<lambda>x. \<not> js_seq (key_of k x) v) xs)"
  "list_all is_record xs \<Longrightarrow> js_filterM (prop_is k v) xs = Some (filter (\<lambda>x. js_seq (key_of k x) v) xs)"
  by (induction xs) (auto simp: prop_is_def prop_is_not_def js_get_record)

text \<open>A list of records as a map, and lists with one record per key.\<close>

definition as_map :: "string \<Rightarrow> js list \<Rightarrow> js \<Rightarrow> js option" where
  "as_map k xs = map_of (map (\<lambda>x. (key_of k x, x)) xs)"

definition keyed :: "string \<Rightarrow> js list \<Rightarrow> bool" where
  "keyed k xs \<longleftrightarrow> list_all is_record xs \<and> distinct (map (key_of k) xs)"

text \<open>
  The contract of a store that keeps its records in a list: adding appends, deleting filters by
  the key. The rest follows once and for all: a store refines a finite map from keys to records.
\<close>

datatype 'r kop = Put 'r | Del string

locale keyed_store =
  fixes records :: "'s \<Rightarrow> js list"
    and key :: string
    and mk :: "'r \<Rightarrow> js"
    and add :: "'r \<Rightarrow> 's \<Rightarrow> 's res"
    and del :: "string \<Rightarrow> 's \<Rightarrow> 's res"
    and addable :: "'r \<Rightarrow> bool"
  assumes addable_record: "addable r \<Longrightarrow> is_record (mk r)"
    and add_records: "list_all is_record (records s) \<Longrightarrow> addable r \<Longrightarrow>
          \<exists>s'. add r s = Some s' \<and> records s' = records s @ [mk r]"
    and del_records: "list_all is_record (records s) \<Longrightarrow>
          \<exists>s'. del k s = Some s' \<and> records s' = filter (\<lambda>x. key_of key x \<noteq> JStr k) (records s)"
begin

definition valid :: "'s \<Rightarrow> bool" where
  "valid s \<longleftrightarrow> keyed key (records s)"

definition view :: "'s \<Rightarrow> js \<Rightarrow> js option" where
  "view s = as_map key (records s)"

fun apply_op :: "'r kop \<Rightarrow> 's \<Rightarrow> 's res" where
  "apply_op (Put r) s = add r s"
| "apply_op (Del k) s = del k s"

fun map_op :: "'r kop \<Rightarrow> (js \<Rightarrow> js option) \<Rightarrow> js \<Rightarrow> js option" where
  "map_op (Put r) m = m(key_of key (mk r) \<mapsto> mk r)"
| "map_op (Del k) m = m(JStr k := None)"

fun enabled :: "'r kop \<Rightarrow> (js \<Rightarrow> js option) \<Rightarrow> bool" where
  "enabled (Put r) m = (addable r \<and> m (key_of key (mk r)) = None)"
| "enabled (Del k) m = True"

lemma dom_view: "dom (view s) = set (map (key_of key) (records s))"
  by (simp add: view_def as_map_def dom_map_of_conv_image_fst image_image)

lemma view_filter: "map_of (map (\<lambda>x. (key_of key x, x)) (filter (\<lambda>x. key_of key x \<noteq> k) xs)) =
    (map_of (map (\<lambda>x. (key_of key x, x)) xs))(k := None)"
  by (induction xs) auto

lemma apply_op_refines:
  assumes "valid s" and "enabled op (view s)"
  shows "\<exists>s'. apply_op op s = Some s' \<and> valid s' \<and> view s' = map_op op (view s)"
proof (cases op)
  case (Put r)
  obtain s' where s': "add r s = Some s'" "records s' = records s @ [mk r]"
    using add_records [of s r] assms Put by (auto simp: valid_def keyed_def)
  have fresh: "key_of key (mk r) \<notin> set (map (key_of key) (records s))"
    using assms(2) Put unfolding dom_view [symmetric] by (simp add: domIff)
  then have "valid s'" using assms s'(2) Put addable_record by (auto simp: valid_def keyed_def)
  moreover have "view s' = (view s)(key_of key (mk r) \<mapsto> mk r)"
  proof
    fix k
    have "map_of (map (\<lambda>x. (key_of key x, x)) (records s)) (key_of key (mk r)) = None"
      using assms(2) Put by (simp add: view_def as_map_def)
    then show "view s' k = ((view s)(key_of key (mk r) \<mapsto> mk r)) k"
      using s'(2) by (auto simp: view_def as_map_def map_add_def split: option.split)
  qed
  ultimately show ?thesis using s'(1) Put by simp
next
  case (Del k)
  obtain s' where s': "del k s = Some s'" "records s' = filter (\<lambda>x. key_of key x \<noteq> JStr k) (records s)"
    using del_records [of s k] assms by (auto simp: valid_def keyed_def)
  have "valid s'" using assms(1) s'(2)
    by (auto simp: valid_def keyed_def list_all_iff distinct_map_filter)
  then show ?thesis using s' Del by (simp add: view_def as_map_def view_filter)
qed

lemma put_refines:
  "valid s \<Longrightarrow> addable r \<Longrightarrow> view s (key_of key (mk r)) = None \<Longrightarrow>
     \<exists>s'. add r s = Some s' \<and> valid s' \<and> view s' = (view s)(key_of key (mk r) \<mapsto> mk r)"
  using apply_op_refines [of s "Put r"] by simp

lemma del_refines:
  "valid s \<Longrightarrow> \<exists>s'. del k s = Some s' \<and> valid s' \<and> view s' = (view s)(JStr k := None)"
  using apply_op_refines [of s "Del k"] by simp

fun run_ops :: "'r kop list \<Rightarrow> 's \<Rightarrow> 's res" where
  "run_ops [] s = Some s"
| "run_ops (p # ps) s = Option.bind (apply_op p s) (run_ops ps)"

fun all_enabled :: "'r kop list \<Rightarrow> (js \<Rightarrow> js option) \<Rightarrow> bool" where
  "all_enabled [] m = True"
| "all_enabled (p # ps) m = (enabled p m \<and> all_enabled ps (map_op p m))"

lemma run_ops_refines:
  "valid s \<Longrightarrow> all_enabled ps (view s) \<Longrightarrow>
     \<exists>s'. run_ops ps s = Some s' \<and> valid s' \<and> view s' = fold map_op ps (view s)"
proof (induction ps arbitrary: s)
  case (Cons p ps)
  then obtain s1 where "apply_op p s = Some s1" "valid s1" "view s1 = map_op p (view s)"
    using apply_op_refines [of s p] by auto
  then show ?case using Cons.IH [of s1] Cons.prems by simp
qed simp

end

end
