(* ===== verification/Dialog_Action.thy ===== *)
theory Dialog_Action
  imports Dialog_Function Store_Core "HOL-Library.Multiset"
begin

text \<open>
  The dialog that edits an action of an operation state
  (components/statediagram/components/operation/editaction-dialog.component.ts) without its generator
  of arguments, and the panel with the list of actions (actionseditor.component.ts). Parameters as in
  the function dialog; \<open>None\<close> is a \<open>TypeError\<close> or a \<open>SyntaxError\<close> of \<open>JSON.parse\<close>.
\<close>

section \<open>The dialog\<close>

record act_dialog =
  ad_functions :: "sm_function list"
  ad_name :: js
  ad_type :: js
  ad_useResults :: js
  ad_results :: js
  ad_toStateData :: js
  ad_refName :: js
  ad_queries :: js
  ad_properties :: js

definition new_EditActionDialog :: act_dialog where
  "new_EditActionDialog = \<lparr>ad_functions = [], ad_name = JStr '''', ad_type = JStr '''', ad_useResults = JStr ''true'',
     ad_results = Null, ad_toStateData = Null, ad_refName = JStr '''', ad_queries = JStr '''', ad_properties = JStr ''''\<rparr>"

definition ad_isDisabled :: "(js \<Rightarrow> bool) \<Rightarrow> act_dialog \<Rightarrow> bool" where
  "ad_isDisabled blank d =
     (if blank (ad_name d) then True
      else if ad_type d = JStr ''1'' then blank (ad_refName d)
      else True)"

definition named_function :: "js \<Rightarrow> sm_function list \<Rightarrow> sm_function option" where
  "named_function k fs = js_filter0 (\<lambda>f. js_seq (fn_name f) k) fs"

text \<open>\<open>Object.keys(v).length\<close>\<close>

fun js_keys_length :: "js \<Rightarrow> nat res" where
  "js_keys_length (JObj kvs) = Some (length kvs)"
| "js_keys_length (JArr xs) = Some (length xs)"
| "js_keys_length (JStr s) = Some (length s)"
| "js_keys_length (JNum n) = Some 0"
| "js_keys_length (JBool b) = Some 0"
| "js_keys_length _ = TypeError"

text \<open>\<open>var v = {}; if (str) { v = JSON.parse(str); }\<close>\<close>

definition parse_or_empty :: "(js \<Rightarrow> js res) \<Rightarrow> js \<Rightarrow> js res" where
  "parse_or_empty parse v = (if truthy v then parse v else Some (JObj []))"

text \<open>The switch over the type of the function; \<open>Null\<close> for a function of another type\<close>

definition action_arguments :: "(js \<Rightarrow> js res) \<Rightarrow> js \<Rightarrow> js \<Rightarrow> js \<Rightarrow> js res" where
  "action_arguments parse ty properties queriesStr =
     (if ty = op_AsyncApi then Some properties
      else if ty = op_Rest then do {
        queries \<leftarrow> parse_or_empty parse queriesStr;
        nq \<leftarrow> js_keys_length queries;
        np \<leftarrow> js_keys_length properties;
        let a1 = (if nq > 0 then [(''queries'', queries)] else []);
        let a2 = (if np > 0 then AList.update ''properties'' properties a1 else a1);
        Some (if nq > 0 \<or> np > 0 then JObj a2 else Null)
      }
      else Some Null)"

definition action_filter :: "act_dialog \<Rightarrow> action_data_filter" where
  "action_filter d =
     (let useResults = truthy (ad_useResults d);
          f = new_ActionDataFilter\<lparr>adf_useResults := JBool useResults\<rparr>
      in if useResults
         then let f1 = (if truthy (ad_toStateData d) then f\<lparr>adf_toStateData := ad_toStateData d\<rparr> else f)
              in if truthy (ad_results d) then f1\<lparr>adf_results := ad_results d\<rparr> else f1
         else f)"

text \<open>\<open>save\<close>: the action that the dialog closes with, or \<open>Some None\<close> if it stays open\<close>

definition ad_save :: "(js \<Rightarrow> js res) \<Rightarrow> (js \<Rightarrow> bool) \<Rightarrow> act_dialog \<Rightarrow> operation_action option res" where
  "ad_save parse blank d =
     (if ad_isDisabled blank d then Some None
      else if ad_type d = JStr ''1'' then do {
        properties \<leftarrow> parse_or_empty parse (ad_properties d);
        f \<leftarrow> named_function (ad_refName d) (ad_functions d);
        args \<leftarrow> action_arguments parse (fn_type f) properties (ad_queries d);
        Some (Some \<lparr>oa_name = ad_name d,
          oa_functionRef = Some (new_FunctionRef\<lparr>fr_refName := ad_refName d,
            fr_arguments := (if args = Null then fr_arguments new_FunctionRef else args)\<rparr>),
          oa_actionDataFilter = Some (action_filter d)\<rparr>)
      }
      else Some (Some \<lparr>oa_name = ad_name d, oa_functionRef = None, oa_actionDataFilter = None\<rparr>))"

text \<open>\<open>v ?? {}\<close>\<close>

definition or_object :: "js \<Rightarrow> js" where
  "or_object v = (if v \<in> {Undef, Null} then JObj [] else v)"

definition init_function_ref :: "(js \<Rightarrow> js) \<Rightarrow> function_ref \<Rightarrow> act_dialog \<Rightarrow> act_dialog res" where
  "init_function_ref stringify r d =
     (let d1 = d\<lparr>ad_type := JStr ''1'', ad_refName := fr_refName r\<rparr>
      in do {
        f \<leftarrow> js_filter0 (\<lambda>f. js_eq (fn_name f) (fr_refName r)) (ad_functions d);
        if fn_type f = op_AsyncApi then Some (d1\<lparr>ad_properties := stringify (fr_arguments r)\<rparr>)
        else if fn_type f = op_Rest then do {
          properties \<leftarrow> js_get (fr_arguments r) ''properties'';
          queries \<leftarrow> js_get (fr_arguments r) ''queries'';
          Some (d1\<lparr>ad_properties := stringify (or_object properties), ad_queries := stringify (or_object queries)\<rparr>)
        }
        else Some d1
      })"

text \<open>\<open>v.toString()\<close>\<close>

fun js_toString :: "(js \<Rightarrow> string) \<Rightarrow> js \<Rightarrow> js res" where
  "js_toString show Undef = TypeError"
| "js_toString show Null = TypeError"
| "js_toString show v = Some (JStr (js_string show v))"

definition init_filter :: "(js \<Rightarrow> string) \<Rightarrow> action_data_filter \<Rightarrow> act_dialog \<Rightarrow> act_dialog res" where
  "init_filter show f d = do {
     u \<leftarrow> js_toString show (adf_useResults f);
     Some (d\<lparr>ad_useResults := u, ad_toStateData := adf_toStateData f, ad_results := adf_results f\<rparr>)
   }"

definition ad_open :: "(js \<Rightarrow> string) \<Rightarrow> (js \<Rightarrow> js) \<Rightarrow> sm_function list \<Rightarrow> operation_action option \<Rightarrow> act_dialog res" where
  "ad_open show stringify fs action =
     (let d0 = new_EditActionDialog\<lparr>ad_functions := fs\<rparr>
      in case action of
           None \<Rightarrow> Some d0
         | Some a \<Rightarrow> do {
             d1 \<leftarrow> (case oa_functionRef a of
                     None \<Rightarrow> Some (d0\<lparr>ad_name := oa_name a\<rparr>)
                   | Some r \<Rightarrow> init_function_ref stringify r (d0\<lparr>ad_name := oa_name a\<rparr>));
             case oa_actionDataFilter a of None \<Rightarrow> Some d1 | Some f \<Rightarrow> init_filter show f d1
           })"

text \<open>\<open>isOpenApiUrl\<close> and \<open>isAsyncApiUrl\<close>\<close>

definition is_api_url :: "js \<Rightarrow> act_dialog \<Rightarrow> bool res" where
  "is_api_url ty d =
     (if \<not> truthy (ad_refName d) then Some False
      else case js_filter0 (\<lambda>f. js_seq (fn_name f) (ad_refName d) \<and> js_seq (fn_type f) ty) (ad_functions d) of
             None \<Rightarrow> Some False
           | Some f \<Rightarrow> map_option (\<lambda>p. case p of None \<Rightarrow> False | Some ps \<Rightarrow> length ps = 2) (opt_split CHR ''#'' (fn_operation f)))"

text \<open>The answer of the expression editor: \<open>null\<close>, or an object with the new expression\<close>

definition editResults :: "js \<Rightarrow> act_dialog \<Rightarrow> act_dialog res" where
  "editResults r d = (if \<not> truthy r then Some d else map_option (\<lambda>v. d\<lparr>ad_results := v\<rparr>) (js_get r ''filter''))"

definition editToStateData :: "js \<Rightarrow> act_dialog \<Rightarrow> act_dialog res" where
  "editToStateData r d = (if \<not> truthy r then Some d else map_option (\<lambda>v. d\<lparr>ad_toStateData := v\<rparr>) (js_get r ''filter''))"

section \<open>Lists of actions and functions\<close>

text \<open>
  The panels edit the array of the document in place. The dialog's result is \<open>None\<close> when it is
  dismissed.
\<close>

definition list_remove :: "int \<Rightarrow> 'a list \<Rightarrow> 'a list" where
  "list_remove i xs = js_splice i 1 xs"

definition list_add :: "'a option \<Rightarrow> 'a list \<Rightarrow> 'a list" where
  "list_add e xs = (case e of None \<Rightarrow> xs | Some x \<Rightarrow> xs @ [x])"

definition list_edit :: "'a option \<Rightarrow> int \<Rightarrow> 'a list \<Rightarrow> 'a list" where
  "list_edit e i xs = (case e of None \<Rightarrow> xs | Some x \<Rightarrow> js_splice i 1 xs @ [x])"

definition removeAction :: "int \<Rightarrow> operation_action list \<Rightarrow> operation_action list" where
  "removeAction i as = list_remove i as"

definition addAction :: "operation_action option \<Rightarrow> operation_action list \<Rightarrow> operation_action list" where
  "addAction e as = list_add e as"

definition editAction :: "operation_action option \<Rightarrow> int \<Rightarrow> operation_action list \<Rightarrow> operation_action list" where
  "editAction e i as = list_edit e i as"

definition deleteFunction :: "int \<Rightarrow> sm_function list \<Rightarrow> sm_function list" where
  "deleteFunction i fs = list_remove i fs"

definition addFunction :: "sm_function option \<Rightarrow> sm_function list \<Rightarrow> sm_function list" where
  "addFunction e fs = list_add e fs"

definition editFunction :: "sm_function option \<Rightarrow> int \<Rightarrow> sm_function list \<Rightarrow> sm_function list" where
  "editFunction e i fs = list_edit e i fs"

text \<open>The type column of the list of actions\<close>

definition action_type :: "(js \<Rightarrow> string) \<Rightarrow> sm_function list \<Rightarrow> operation_action \<Rightarrow> string res" where
  "action_type show fs a =
     (case oa_functionRef a of
        None \<Rightarrow> Some ''''
      | Some r \<Rightarrow> map_option (\<lambda>f. js_string show (fn_type f) @ '' : '' @ js_string show (fn_operation f))
                   (js_filter0 (\<lambda>f. js_eq (fn_name f) (fr_refName r)) fs))"

section \<open>Opening and saving again\<close>

text \<open>Arguments that the dialog can represent\<close>

definition rest_arguments :: "(string \<times> js) list \<Rightarrow> (string \<times> js) list \<Rightarrow> js" where
  "rest_arguments qs ps =
     JObj ((if qs = [] then [] else [(''queries'', JObj qs)]) @ (if ps = [] then [] else [(''properties'', JObj ps)]))"

definition arguments_ok :: "js \<Rightarrow> js \<Rightarrow> bool" where
  "arguments_ok ty args \<longleftrightarrow> json_value args \<and> (ty = op_AsyncApi \<and> args \<noteq> Null \<or>
     ty = op_Rest \<and> (\<exists>qs ps. args = rest_arguments qs ps \<and> (qs \<noteq> [] \<or> ps \<noteq> [])))"

text \<open>
  \<open>JSON.stringify\<close> gives \<open>undefined\<close> for \<open>undefined\<close> and otherwise a text that \<open>JSON.parse\<close> reads back,
  without the properties that are \<open>undefined\<close>; what \<open>JSON.parse\<close> gives has no such properties.
\<close>

definition json_laws :: "(js \<Rightarrow> js) \<Rightarrow> (js \<Rightarrow> js res) \<Rightarrow> bool" where
  "json_laws stringify parse \<longleftrightarrow> stringify Undef = Undef \<and>
     (\<forall>v. v \<noteq> Undef \<longrightarrow> truthy (stringify v) \<and> parse (stringify v) = Some (json_clone v)) \<and>
     (\<forall>t v. parse t = Some v \<longrightarrow> json_value v)"

lemma stringify_parse: "json_laws stringify parse \<Longrightarrow> json_value v \<Longrightarrow> truthy (stringify v) \<and> parse (stringify v) = Some v"
  by (simp add: json_laws_def json_value_def)

lemma parse_stringify: "json_laws stringify parse \<Longrightarrow> json_value v \<Longrightarrow> parse_or_empty parse (stringify v) = Some v"
  by (simp add: stringify_parse parse_or_empty_def)

lemma rest_values: "json_value (rest_arguments qs ps) \<Longrightarrow> json_value (JObj qs) \<and> json_value (JObj ps)"
  by (auto simp: rest_arguments_def json_value_def split: if_splits)

lemma rest_lookups:
  "obj_lookup ((if qs = [] then [] else [(''queries'', JObj qs)]) @ (if ps = [] then [] else [(''properties'', JObj ps)])) ''properties'' = (if ps = [] then Undef else JObj ps)"
  "obj_lookup ((if qs = [] then [] else [(''queries'', JObj qs)]) @ (if ps = [] then [] else [(''properties'', JObj ps)])) ''queries'' = (if qs = [] then Undef else JObj qs)"
  by auto

lemma arguments_roundtrip:
  assumes "json_laws stringify parse" and "arguments_ok (fn_type f) (fr_arguments r)"
    and f: "named_function (fr_refName r) (ad_functions d) = Some f" and s: "fr_refName r = JStr k"
  shows "\<exists>d'. init_function_ref stringify r d = Some d' \<and> (\<exists>p. parse_or_empty parse (ad_properties d') = Some p \<and>
      action_arguments parse (fn_type f) p (ad_queries d') = Some (fr_arguments r)) \<and>
      d' = d\<lparr>ad_type := JStr ''1'', ad_refName := fr_refName r, ad_properties := ad_properties d', ad_queries := ad_queries d'\<rparr>"
proof -
  have found: "js_filter0 (\<lambda>f. js_eq (fn_name f) (fr_refName r)) (ad_functions d) = Some f"
    using f s by (simp add: named_function_def js_eq_def)
  show ?thesis
  proof (cases "fn_type f = op_AsyncApi")
    case True
    then have n: "json_value (fr_arguments r)" using assms(2) by (simp add: arguments_ok_def)
    have "init_function_ref stringify r d = Some (d\<lparr>ad_type := JStr ''1'', ad_refName := fr_refName r, ad_properties := stringify (fr_arguments r)\<rparr>)"
      using True found by (simp add: init_function_ref_def)
    then show ?thesis using parse_stringify [OF assms(1) n] True by (simp add: action_arguments_def)
  next
    case False
    then obtain qs ps where a: "fn_type f = op_Rest" "fr_arguments r = rest_arguments qs ps" "qs \<noteq> [] \<or> ps \<noteq> []"
      using assms(2) by (auto simp: arguments_ok_def)
    then have j: "json_value (JObj qs)" "json_value (JObj ps)" using assms(2) rest_values by (auto simp: arguments_ok_def)
    have "init_function_ref stringify r d = Some (d\<lparr>ad_type := JStr ''1'', ad_refName := fr_refName r,
        ad_properties := stringify (JObj ps), ad_queries := stringify (JObj qs)\<rparr>)"
      using a False found by (simp add: init_function_ref_def rest_arguments_def rest_lookups or_object_def)
    moreover have "action_arguments parse (fn_type f) (JObj ps) (stringify (JObj qs)) = Some (fr_arguments r)"
      using a False parse_stringify [OF assms(1) j(1)] by (simp add: action_arguments_def rest_arguments_def)
    ultimately show ?thesis using parse_stringify [OF assms(1) j(2)] by simp
  qed
qed


definition boxed :: "js \<Rightarrow> js" where
  "boxed v = (if v = Undef then Undef else JArr [v])"

definition unboxed :: "js \<Rightarrow> js res" where
  "unboxed v = (case v of JArr [x] \<Rightarrow> if x = Undef then None else Some (json_clone x) | _ \<Rightarrow> None)"

lemma boxed_laws: "json_laws boxed unboxed"
  by (auto simp: json_laws_def boxed_def unboxed_def json_value_def split: js.splits list.splits if_splits)

definition example_action :: operation_action where
  "example_action = \<lparr>oa_name = JStr ''a'',
     oa_functionRef = Some \<lparr>fr_refName = JStr ''f'', fr_arguments = JObj [(''queries'', JObj [(''id'', JStr ''1'')])]\<rparr>,
     oa_actionDataFilter = Some \<lparr>adf_useResults = JBool False, adf_results = Undef, adf_toStateData = Undef\<rparr>\<rparr>"


text \<open>
  An action of a REST function that is saved without queries and without a body cannot be opened
  again: it has no arguments object, whose property \<open>properties\<close> the dialog reads.
\<close>

theorem action_without_arguments_cannot_be_opened:
  assumes "ad_type d = JStr ''1''" and "ad_name d = JStr (c # nm)" and "ad_refName d = JStr (e # k)"
    and "named_function (ad_refName d) (ad_functions d) = Some f" and "fn_type f = op_Rest"
    and "\<not> truthy (ad_properties d)" and "\<not> truthy (ad_queries d)" and "\<forall>s. blank (JStr s) = (s = [])"
  shows "\<exists>a. ad_save parse blank d = Some (Some a) \<and> ad_open show stringify (ad_functions d) (Some a) = TypeError"
  using assms
  by (simp add: ad_save_def ad_isDisabled_def parse_or_empty_def action_arguments_def new_FunctionRef_def named_function_def js_eq_def
      ad_open_def init_function_ref_def op_Rest_def op_AsyncApi_def)

definition example_action_dialog :: act_dialog where
  "example_action_dialog = new_EditActionDialog\<lparr>ad_functions := [example_function], ad_name := JStr ''a'', ad_type := JStr ''1'', ad_refName := JStr ''f''\<rparr>"

theorem action_without_arguments_cannot_be_opened_witness:
  "\<exists>a. ad_save unboxed (\<lambda>v. v = JStr '''') example_action_dialog = Some (Some a) \<and>
     ad_open (\<lambda>_. ''0'') boxed [example_function] (Some a) = None"
  using action_without_arguments_cannot_be_opened [of example_action_dialog "CHR ''a''" "[]" "CHR ''f''" "[]" example_function
      "\<lambda>v. v = JStr ''''" unboxed "\<lambda>_. ''0''" boxed]
  by (simp add: example_action_dialog_def new_EditActionDialog_def example_function_def named_function_def op_Rest_def)

section \<open>The lists\<close>

text \<open>What the list panels promise\<close>

locale list_panel =
  fixes add :: "'a option \<Rightarrow> 'a list \<Rightarrow> 'a list" and edit :: "'a option \<Rightarrow> int \<Rightarrow> 'a list \<Rightarrow> 'a list"
    and delete :: "int \<Rightarrow> 'a list \<Rightarrow> 'a list"
  assumes dismissed: "add None xs = xs" "edit None i xs = xs"
    and add: "add (Some x) xs = xs @ [x]"
    and edit: "edit (Some x) i xs = add (Some x) (delete i xs)"
    and delete: "n < length xs \<Longrightarrow> delete (int n) xs = take n xs @ drop (Suc n) xs"
begin

lemma edited:
  assumes "n < length xs"
  shows "edit (Some x) (int n) xs = take n xs @ drop (Suc n) xs @ [x]"
  using assms by (simp add: edit add delete)

lemma edited_mset:
  assumes "n < length xs"
  shows "add_mset (xs ! n) (mset (edit (Some x) (int n) xs)) = add_mset x (mset xs)"
proof -
  have "mset xs = add_mset (xs ! n) (mset (take n xs @ drop (Suc n) xs))"
    using assms by (metis id_take_nth_drop mset.simps(2) mset_append union_mset_add_mset_right)
  then show ?thesis using edited [OF assms] by simp
qed

lemma deleted:
  assumes "n < length xs" and "distinct (map f xs)"
  shows "find (\<lambda>x. f x = f (xs ! n)) (delete (int n) xs) = None"
proof -
  have "distinct (map f (take n xs @ xs ! n # drop (Suc n) xs))"
    using assms id_take_nth_drop by metis
  then have "\<forall>x \<in> set (delete (int n) xs). f x \<noteq> f (xs ! n)"
    using assms(1) by (auto simp: delete dest: rev_image_eqI)
  then show ?thesis by (simp add: find_None_iff)
qed

end

interpretation actions: list_panel addAction editAction removeAction
  by unfold_locales (simp_all add: addAction_def editAction_def removeAction_def list_add_def list_edit_def list_remove_def js_splice_in_range)

interpretation functions_panel: list_panel addFunction editFunction deleteFunction
  by unfold_locales (simp_all add: addFunction_def editFunction_def deleteFunction_def list_add_def list_edit_def list_remove_def js_splice_in_range)

text \<open>
  Editing an entry of the list of actions or of functions replaces exactly that entry, but the
  result stands at the end of the list, so that actions of an operation state that run in sequence
  change their order.
\<close>

theorem edited_entry_moves_to_end:
  assumes "n < length as" and "m < length fs"
  shows "editAction (Some a) (int n) as = take n as @ drop (Suc n) as @ [a] \<and>
    add_mset (as ! n) (mset (editAction (Some a) (int n) as)) = add_mset a (mset as) \<and>
    editFunction (Some f) (int m) fs = take m fs @ drop (Suc m) fs @ [f] \<and>
    add_mset (fs ! m) (mset (editFunction (Some f) (int m) fs)) = add_mset f (mset fs)"
  using actions.edited [OF assms(1)] actions.edited_mset [OF assms(1)] functions_panel.edited [OF assms(2)] functions_panel.edited_mset [OF assms(2)]
  by simp

theorem edited_entry_moves_to_end_witness:
  "editAction (Some example_action) 0 [example_action\<lparr>oa_name := JStr ''x''\<rparr>, example_action\<lparr>oa_name := JStr ''y''\<rparr>] =
     [example_action\<lparr>oa_name := JStr ''y''\<rparr>, example_action]"
  using edited_entry_moves_to_end [of 0 "[example_action\<lparr>oa_name := JStr ''x''\<rparr>, example_action\<lparr>oa_name := JStr ''y''\<rparr>]" 0 "[example_function]" example_action example_function]
  by simp

text \<open>
  Deleting a function that an action refers to makes the list of actions throw when it shows the
  type of that action, and the action cannot be opened in its dialog.
\<close>

theorem deleted_function_breaks_its_actions:
  assumes "n < length fs" and "distinct (map fn_name fs)" and "oa_functionRef a = Some r" and "fr_refName r = fn_name (fs ! n)"
    and "\<forall>f \<in> set fs. \<exists>k. fn_name f = JStr k"
  shows "action_type show (deleteFunction (int n) fs) a = TypeError \<and> ad_open show stringify (deleteFunction (int n) fs) (Some a) = TypeError"
proof -
  have s: "\<exists>k. fn_name (fs ! n) = JStr k" using assms(1, 5) by simp
  have "find (\<lambda>f. fn_name f = fn_name (fs ! n)) (deleteFunction (int n) fs) = None"
    by (rule functions_panel.deleted [OF assms(1, 2)])
  then have "js_filter0 (\<lambda>f. js_eq (fn_name f) (fr_refName r)) (deleteFunction (int n) fs) = None"
    using s assms(4) by (auto simp: js_eq_def find_None_iff)
  then show ?thesis using assms(3) by (simp add: action_type_def ad_open_def init_function_ref_def)
qed

theorem deleted_function_breaks_its_actions_witness:
  "action_type (\<lambda>_. ''0'') (deleteFunction 0 [example_function]) example_action = None"
  using deleted_function_breaks_its_actions [of 0 "[example_function]" example_action "the (oa_functionRef example_action)" "\<lambda>_. ''0''" id]
  by (simp add: example_function_def example_action_def)

end
