(* ===== verification/Fake_Arguments.thy ===== *)
theory Fake_Arguments
  imports Dialog_Action
begin

text \<open>
  The generator of example arguments in the action dialog
  (components/statediagram/components/operation/editaction-dialog.component.ts, lines 211-439). It
  walks the schemas of an OpenAPI or AsyncAPI document, whose references may form a cycle; the first
  argument of the recursive functions is a bound on the depth of the call stack, and \<open>None\<close> stands
  for a stack overflow as well as for a \<open>TypeError\<close>. The functions of the code fill an object or array
  that they are given; here they return it.
\<close>

section \<open>Schemas\<close>

definition schema_types :: "js list" where
  "schema_types = [JStr ''integer'', JStr ''string'', JStr ''array'', JStr ''object'']"

fun getJSchemaStandardType :: "js \<Rightarrow> js" where
  "getJSchemaStandardType (JArr ts) = (case filter (\<lambda>t. t \<in> set schema_types) ts of [] \<Rightarrow> Undef | t # _ \<Rightarrow> t)"
| "getJSchemaStandardType t = t"

definition schema_type :: "js \<Rightarrow> js res" where
  "schema_type p = map_option getJSchemaStandardType (js_get p ''type'')"

definition getDefaultSchemaStrValue :: "js \<Rightarrow> js res" where
  "getDefaultSchemaStrValue schema = map_option (\<lambda>v. if truthy v then v else JStr ''str'') (js_get schema ''default'')"

text \<open>\<open>components.schemas[name]\<close> for the last part of a reference\<close>

fun getComponent :: "js \<Rightarrow> js \<Rightarrow> js res" where
  "getComponent (JStr r) components =
     Option.bind (js_get components ''schemas'') (\<lambda>s. js_get s (last (js_split CHR ''/'' r)))"
| "getComponent _ components = TypeError"

text \<open>\<open>for (var key in v)\<close>, where \<open>v\<close> is an object or missing\<close>

fun entries :: "js \<Rightarrow> (string \<times> js) list" where
  "entries (JObj kvs) = kvs"
| "entries _ = []"

section \<open>Filling\<close>

fun set_prop :: "string \<Rightarrow> js \<Rightarrow> js \<Rightarrow> js res" where
  "set_prop k v (JObj kvs) = Some (JObj (AList.update k v kvs))"
| "set_prop k v (JArr xs) = Some (JArr xs)"
| "set_prop k v _ = TypeError"

fun js_push :: "js \<Rightarrow> js \<Rightarrow> js res" where
  "js_push v (JArr xs) = Some (JArr (xs @ [v]))"
| "js_push v _ = TypeError"

definition js_push_all :: "js \<Rightarrow> js \<Rightarrow> js res" where
  "js_push_all arr json = (case arr of JArr xs \<Rightarrow> (case json of JArr ys \<Rightarrow> Some (JArr (ys @ xs)) | _ \<Rightarrow> if xs = [] then Some json else TypeError)
     | _ \<Rightarrow> TypeError)"

definition put :: "bool \<Rightarrow> string \<Rightarrow> js \<Rightarrow> js \<Rightarrow> js res" where
  "put isArray k v json = (if isArray then js_push v json else set_prop k v json)"

text \<open>The properties of the component that a reference names\<close>

definition component_properties :: "js \<Rightarrow> js \<Rightarrow> (string \<times> js) list res" where
  "component_properties reference components = do {
     component \<leftarrow> getComponent reference components;
     map_option entries (js_get component ''properties'')
   }"

text \<open>
  \<open>_extractJsonFromProperty\<close> and the loop over properties that it shares with
  \<open>_extractJsonFromComponent\<close>, whose body stands in place of its call
\<close>

function (sequential) extractJsonFromProperty :: "nat \<Rightarrow> js \<Rightarrow> string \<Rightarrow> js \<Rightarrow> js \<Rightarrow> bool \<Rightarrow> js res"
  and extract_each :: "nat \<Rightarrow> (string \<times> js) list \<Rightarrow> js \<Rightarrow> js \<Rightarrow> js res" where
  "extractJsonFromProperty 0 property name json components isArray = None"
| "extractJsonFromProperty (Suc n) property name json components isArray =
     (case schema_type property of
        None \<Rightarrow> TypeError
      | Some type \<Rightarrow>
          (if type = JStr ''integer'' then put isArray name (JNum 0) json
           else if type = JStr ''string'' then Option.bind (getDefaultSchemaStrValue property) (\<lambda>s. put isArray name s json)
           else if type = JStr ''array'' then
             Option.bind (js_get property ''items'') (\<lambda>items.
               Option.bind (extractJsonFromProperty n items '''' (JArr []) components True) (\<lambda>arr.
                 if isArray then js_push_all arr json else set_prop name arr json))
           else if type = JStr ''object'' then
             Option.bind (js_get property ''properties'') (\<lambda>ps.
               Option.bind (extract_each n (entries ps) (JObj []) components) (\<lambda>obj. Some json))
           else
             Option.bind (js_get property ''$ref'') (\<lambda>ref.
               Option.bind (component_properties ref components) (\<lambda>ps.
                 Option.bind (extract_each n ps (JObj []) components) (\<lambda>obj. put isArray name obj json)))))"
| "extract_each n [] json components = Some json"
| "extract_each n ((k, p) # kps) json components =
     Option.bind (extractJsonFromProperty n p k json components False) (\<lambda>json'. extract_each n kps json' components)"
  by pat_completeness auto

termination
  by (relation "measures [\<lambda>x. case x of Inl (n, _) \<Rightarrow> n | Inr (n, _) \<Rightarrow> n, \<lambda>x. case x of Inl _ \<Rightarrow> 0 | Inr _ \<Rightarrow> 1,
      \<lambda>x. case x of Inl _ \<Rightarrow> 0 | Inr (n, kps, _) \<Rightarrow> length kps]") auto

definition extractJsonFromComponent :: "nat \<Rightarrow> js \<Rightarrow> js \<Rightarrow> js \<Rightarrow> js res" where
  "extractJsonFromComponent n reference json components =
     Option.bind (component_properties reference components) (\<lambda>ps. extract_each n ps json components)"

text \<open>
  \<open>_extractPathParameter\<close>. The call for the items of an array passes the new array as \<open>components\<close> and
  the components as \<open>json\<close>, so it changes the latter; the result is the new \<open>json\<close> and the new
  \<open>components\<close>. A missing name is the key \<open>undefined\<close>.
\<close>

definition param_key :: "(js \<Rightarrow> string) \<Rightarrow> js \<Rightarrow> string" where
  "param_key show v = js_string show v"

text \<open>\<open>json[name].push(v)\<close>\<close>

definition push_at :: "string \<Rightarrow> js \<Rightarrow> js \<Rightarrow> js res" where
  "push_at k v json = do { arr \<leftarrow> js_get json k; arr' \<leftarrow> js_push v arr; set_prop k arr' json }"

fun extractPathParameter :: "(js \<Rightarrow> string) \<Rightarrow> nat \<Rightarrow> js \<Rightarrow> js \<Rightarrow> js \<Rightarrow> bool \<Rightarrow> (js \<times> js) res" where
  "extractPathParameter show 0 parameter components json isArray = None"
| "extractPathParameter show (Suc n) parameter components json isArray = do {
     schema \<leftarrow> js_get parameter ''schema'';
     t \<leftarrow> js_get schema ''type'';
     let type = getJSchemaStandardType t;
     let fresh = (\<not> truthy json);
     let arrayType = (type = JStr ''array'');
     let json1 = (if fresh then if arrayType then JArr [] else JObj [] else json);
     let isArray1 = (isArray \<or> fresh \<and> arrayType);
     nm \<leftarrow> js_get parameter ''name'';
     let name = param_key show nm;
     if type = JStr ''string'' then do {
       v \<leftarrow> getDefaultSchemaStrValue schema;
       j \<leftarrow> (if \<not> isArray1 then set_prop name v json1 else push_at name v json1);
       Some (j, components)
     }
     else if type = JStr ''integer'' then do {
       j \<leftarrow> (if \<not> isArray1 then set_prop name (JNum 0) json1 else push_at name (JNum 0) json1);
       j' \<leftarrow> set_prop name (JNum 0) j;
       Some (j', components)
     }
     else if arrayType then do {
       items \<leftarrow> js_get parameter ''items'';
       (comps', arr) \<leftarrow> extractPathParameter show n items (JArr []) components True;
       j \<leftarrow> (if \<not> isArray1 then set_prop name arr json1 else js_push_all arr json1);
       Some (j, if truthy components then comps' else components)
     }
     else do {
       ref \<leftarrow> js_get schema ''$ref'';
       j \<leftarrow> extractJsonFromComponent n ref json1 components;
       Some (j, components)
     }
   }"

section \<open>The answers of the services\<close>

fun find_operation :: "string \<Rightarrow> js list \<Rightarrow> js res" where
  "find_operation operationId [] = Some Undef"
| "find_operation operationId (m # ms) =
     Option.bind (js_get m ''operationId'') (\<lambda>i. if i = JStr operationId then Some m else find_operation operationId ms)"

definition getOpenApiOperation :: "js \<Rightarrow> string \<Rightarrow> js res" where
  "getOpenApiOperation doc operationId =
     Option.bind (js_get doc ''paths'') (\<lambda>paths.
       find_operation operationId (concat (map (\<lambda>(p, ms). map snd (entries ms)) (entries paths))))"

text \<open>\<open>openApiOperation.parameters.forEach\<close>: the result is overwritten by every parameter.\<close>

fun query_parameters :: "(js \<Rightarrow> string) \<Rightarrow> nat \<Rightarrow> js list \<Rightarrow> js \<Rightarrow> js \<Rightarrow> (js \<times> js) res" where
  "query_parameters show n [] components q = Some (q, components)"
| "query_parameters show n (p # ps) components q = do {
     (q', c') \<leftarrow> extractPathParameter show n p components Null False;
     query_parameters show n ps c' q'
   }"

definition body_parameters :: "(js \<Rightarrow> string) \<Rightarrow> nat \<Rightarrow> js \<Rightarrow> js \<Rightarrow> js res" where
  "body_parameters show n operation components = do {
     b \<leftarrow> js_get operation ''requestBody'';
     if \<not> truthy b then Some (JObj []) else do {
       c \<leftarrow> js_get b ''content'';
       if \<not> truthy c then Some (JObj []) else do {
         prop \<leftarrow> js_get c ''application/json'';
         if \<not> truthy prop then Some (JObj [])
         else map_option fst (extractPathParameter show n prop components Null False)
       }
     }
   }"

definition js_elements :: "js \<Rightarrow> js list res" where
  "js_elements v = (case v of JArr xs \<Rightarrow> Some xs | _ \<Rightarrow> TypeError)"

definition openApi_arguments :: "(js \<Rightarrow> string) \<Rightarrow> (js \<Rightarrow> js) \<Rightarrow> nat \<Rightarrow> string \<Rightarrow> js \<Rightarrow> act_dialog \<Rightarrow> act_dialog res" where
  "openApi_arguments show stringify n operationId e d = do {
     operation \<leftarrow> getOpenApiOperation e operationId;
     components \<leftarrow> js_get e ''components'';
     ps \<leftarrow> js_get operation ''parameters'';
     (q, c) \<leftarrow> (if truthy ps then Option.bind (js_elements ps) (\<lambda>xs. query_parameters show n xs components (JObj []))
               else Some (JObj [], components));
     b \<leftarrow> body_parameters show n operation c;
     Some (d\<lparr>ad_queries := stringify q, ad_properties := stringify b\<rparr>)
   }"

definition asyncApi_arguments :: "(js \<Rightarrow> js) \<Rightarrow> nat \<Rightarrow> js \<Rightarrow> act_dialog \<Rightarrow> act_dialog res" where
  "asyncApi_arguments stringify n e d = do {
     operation \<leftarrow> js_get e ''asyncApiOperation'';
     message \<leftarrow> js_get operation ''message'';
     payload \<leftarrow> js_get message ''payload'';
     components \<leftarrow> js_get e ''components'';
     ref \<leftarrow> js_get payload ''$ref'';
     json \<leftarrow> extractJsonFromComponent n ref (JObj []) components;
     Some (d\<lparr>ad_properties := stringify json\<rparr>)
   }"

text \<open>The request that \<open>generateFakeArguments\<close> sends: the service, the url and the operation\<close>

definition generateFakeArguments :: "act_dialog \<Rightarrow> (string \<times> string \<times> string option) option res" where
  "generateFakeArguments d = do {
     f \<leftarrow> named_function (ad_refName d) (ad_functions d);
     if fn_type f = op_AsyncApi \<or> fn_type f = op_Rest then do {
       parts \<leftarrow> opt_split CHR ''#'' (fn_operation f);
       Some (map_option (\<lambda>ps. (if fn_type f = op_AsyncApi then ''asyncapi'' else ''openapi'', hd ps,
                               if length ps < 2 then None else Some (ps ! 1))) parts)
     }
     else Some None
   }"

section \<open>When the generator returns\<close>

lemma extract_mono:
  "extractJsonFromProperty n p k j c b = Some r \<Longrightarrow> n \<le> m \<Longrightarrow> extractJsonFromProperty m p k j c b = Some r"
  "extract_each n kps j c = Some r \<Longrightarrow> n \<le> m \<Longrightarrow> extract_each m kps j c = Some r"
proof (induction n p k j c b and n kps j c arbitrary: r m and r m rule: extractJsonFromProperty_extract_each.induct)
  case (2 n p k j c b)
  obtain m' where m: "m = Suc m'" "n \<le> m'" using "2.prems"(2) by (cases m) auto
  obtain t where t: "schema_type p = Some t" using "2.prems"(1) by (auto split: option.splits)
  consider "t = JStr ''integer''" | "t = JStr ''string''" | "t = JStr ''array''" | "t = JStr ''object''"
    | "t \<notin> {JStr ''integer'', JStr ''string'', JStr ''array'', JStr ''object''}" by blast
  then show ?case
  proof cases
    case 3
    then obtain i a where i: "js_get p ''items'' = Some i" "extractJsonFromProperty n i '''' (JArr []) c True = Some a"
      using "2.prems"(1) t by (auto split: Option.bind_splits)
    from "2.IH"(1) [OF t _ _ 3 i m(2)] show ?thesis using "2.prems"(1) t 3 i m by simp
  next
    case 4
    then obtain ps a where i: "js_get p ''properties'' = Some ps" "extract_each n (entries ps) (JObj []) c = Some a"
      using "2.prems"(1) t by (auto split: Option.bind_splits)
    from "2.IH"(2) [OF t _ _ _ 4 i m(2)] show ?thesis using "2.prems"(1) t 4 i m by simp
  next
    case 5
    then obtain ref ps a where i: "js_get p ''$ref'' = Some ref" "component_properties ref c = Some ps" "extract_each n ps (JObj []) c = Some a"
      using "2.prems"(1) t by (auto split: Option.bind_splits)
    from "2.IH"(3) [OF t _ _ _ _ i m(2)] show ?thesis using "2.prems"(1) t 5 i m by simp
  qed (use "2.prems"(1) t m in simp_all)
next
  case (4 n k p kps j c)
  from "4.prems"(1) obtain j' where j: "extractJsonFromProperty n p k j c False = Some j'" "extract_each n kps j' c = Some r"
    by (auto split: Option.bind_splits)
  from "4.IH"(1) [OF j(1) "4.prems"(2)] "4.IH"(2) [OF j "4.prems"(2)] show ?case by simp
qed auto

text \<open>A property that unfolds to a finite tree without an error\<close>

inductive expandable :: "js \<Rightarrow> js \<Rightarrow> bool" for c where
  leaf: "schema_type p = Some t \<Longrightarrow> t \<in> {JStr ''integer'', JStr ''string''} \<Longrightarrow> expandable c p"
| items: "schema_type p = Some (JStr ''array'') \<Longrightarrow> js_get p ''items'' = Some i \<Longrightarrow> expandable c i \<Longrightarrow> expandable c p"
| nested: "schema_type p = Some (JStr ''object'') \<Longrightarrow> js_get p ''properties'' = Some ps \<Longrightarrow>
    (\<And>k q. (k, q) \<in> set (entries ps) \<Longrightarrow> expandable c q) \<Longrightarrow> expandable c p"
| refers: "schema_type p = Some t \<Longrightarrow> t \<notin> set schema_types \<Longrightarrow> js_get p ''$ref'' = Some r \<Longrightarrow> component_properties r c = Some ps \<Longrightarrow>
    (\<And>k q. (k, q) \<in> set ps \<Longrightarrow> expandable c q) \<Longrightarrow> expandable c p"

lemma extract_expandable:
  "extractJsonFromProperty n p k j c b = Some r \<Longrightarrow> expandable c p"
  "extract_each n kps j c = Some r \<Longrightarrow> \<forall>(k, q) \<in> set kps. expandable c q"
proof (induction n p k j c b and n kps j c arbitrary: r and r rule: extractJsonFromProperty_extract_each.induct)
  case (2 n p k j c b)
  obtain t where t: "schema_type p = Some t" using "2.prems"(1) by (auto split: option.splits)
  consider "t \<in> {JStr ''integer'', JStr ''string''}" | "t = JStr ''array''" | "t = JStr ''object''" | "t \<notin> set schema_types"
    by (auto simp: schema_types_def)
  then show ?case
  proof cases
    case 1
    then show ?thesis using t expandable.leaf by blast
  next
    case 2
    then obtain i a where i: "js_get p ''items'' = Some i" "extractJsonFromProperty n i '''' (JArr []) c True = Some a"
      using "2.prems"(1) t by (auto split: Option.bind_splits)
    from "2.IH"(1) [OF t _ _ 2 i] show ?thesis using t 2 i expandable.items by simp
  next
    case 3
    then obtain ps a where i: "js_get p ''properties'' = Some ps" "extract_each n (entries ps) (JObj []) c = Some a"
      using "2.prems"(1) t by (auto split: Option.bind_splits)
    show ?thesis by (rule expandable.nested [OF _ i(1)]) (use t 3 "2.IH"(2) [OF t _ _ _ 3 i] in auto)
  next
    case 4
    then obtain ref ps a where i: "js_get p ''$ref'' = Some ref" "component_properties ref c = Some ps" "extract_each n ps (JObj []) c = Some a"
      using "2.prems"(1) t by (auto simp: schema_types_def split: Option.bind_splits)
    show ?thesis by (rule expandable.refers [OF t 4 i(1, 2)]) (use 4 "2.IH"(3) [OF t _ _ _ _ i] in \<open>auto simp: schema_types_def\<close>)
  qed
next
  case (4 n k p kps j c)
  from "4.prems"(1) obtain j' where j: "extractJsonFromProperty n p k j c False = Some j'" "extract_each n kps j' c = Some r"
    by (auto split: Option.bind_splits)
  from "4.IH"(1) [OF j(1)] "4.IH"(2) [OF j] show ?case by simp
qed auto

definition fits :: "bool \<Rightarrow> js \<Rightarrow> bool" where
  "fits isArray j \<longleftrightarrow> (if isArray then \<exists>xs. j = JArr xs else \<exists>kvs. j = JObj kvs)"

lemma put_fits: "fits b j \<Longrightarrow> \<exists>r. put b k v j = Some r \<and> fits b r"
  by (auto simp: fits_def put_def)

definition returns :: "nat \<Rightarrow> js \<Rightarrow> js \<Rightarrow> bool" where
  "returns n c p \<longleftrightarrow> (\<forall>k j b. fits b j \<longrightarrow> (\<exists>r. extractJsonFromProperty n p k j c b = Some r \<and> fits b r))"

lemma returns_mono: "returns n c p \<Longrightarrow> n \<le> m \<Longrightarrow> returns m c p"
  unfolding returns_def using extract_mono(1) by blast

lemma each_returns:
  assumes "\<And>k q. (k, q) \<in> set kps \<Longrightarrow> \<exists>n. returns n c q"
  shows "\<exists>n. \<forall>j. fits False j \<longrightarrow> (\<exists>r. extract_each n kps j c = Some r \<and> fits False r)"
  using assms
proof (induction kps)
  case (Cons kp kps)
  obtain k p where kp: "kp = (k, p)" by fastforce
  obtain n where n: "\<forall>j. fits False j \<longrightarrow> (\<exists>r. extract_each n kps j c = Some r \<and> fits False r)"
    using Cons.IH Cons.prems by (meson list.set_intros(2))
  obtain m where m: "returns m c p" using Cons.prems kp by auto
  have "\<exists>r. extract_each (max n m) ((k, p) # kps) j c = Some r \<and> fits False r" if "fits False j" for j
  proof -
    obtain r where r: "extractJsonFromProperty (max n m) p k j c False = Some r" "fits False r"
      using returns_mono [OF m max.cobounded2 [of m n]] \<open>fits False j\<close> unfolding returns_def by blast
    obtain r' where "extract_each n kps r c = Some r'" "fits False r'" using n r(2) by blast
    then show ?thesis using r extract_mono(2) [of n kps r c r' "max n m"] by simp
  qed
  then show ?case unfolding kp by blast
qed simp

lemma expandable_returns: "expandable c p \<Longrightarrow> \<exists>n. returns n c p"
proof (induction rule: expandable.induct)
  case (leaf p t)
  have "js_get p ''default'' \<noteq> None" using leaf(1) by (cases p) (auto simp: schema_type_def)
  then obtain v where v: "js_get p ''default'' = Some v" by blast
  define w where "w = (if t = JStr ''integer'' then JNum 0 else if truthy v then v else JStr ''str'')"
  have "extractJsonFromProperty (Suc 0) p k j c b = put b k w j" for k j b
    using leaf(1, 2) v by (simp add: w_def getDefaultSchemaStrValue_def) auto
  then have "returns (Suc 0) c p" using put_fits unfolding returns_def by metis
  then show ?case ..
next
  case (items p i)
  then obtain n where n: "returns n c i" by blast
  have "\<exists>a xs. extractJsonFromProperty n i '''' (JArr []) c True = Some a \<and> a = JArr xs"
    using n [unfolded returns_def, rule_format, of True "JArr []" "''''"] by (auto simp: fits_def)
  then have "returns (Suc n) c p" using items by (auto simp: returns_def fits_def js_push_all_def)
  then show ?case ..
next
  case (nested p ps)
  obtain n where "\<forall>j. fits False j \<longrightarrow> (\<exists>r. extract_each n (entries ps) j c = Some r \<and> fits False r)"
    using each_returns [of "entries ps" c] nested.IH by blast
  then obtain o' where "extract_each n (entries ps) (JObj []) c = Some o'" by (auto simp: fits_def)
  then have "extractJsonFromProperty (Suc n) p k j c b = Some j" for k j b using nested(1, 2) by simp
  then have "returns (Suc n) c p" by (simp add: returns_def)
  then show ?case ..
next
  case (refers p t r ps)
  obtain n where "\<forall>j. fits False j \<longrightarrow> (\<exists>r. extract_each n ps j c = Some r \<and> fits False r)"
    using each_returns [of ps c] refers.IH by blast
  then obtain o' where "extract_each n ps (JObj []) c = Some o'" by (auto simp: fits_def)
  then have "extractJsonFromProperty (Suc n) p k j c b = put b k o' j" for k j b
    using refers(1 - 4) by (simp add: schema_types_def)
  then have "returns (Suc n) c p" using put_fits by (simp add: returns_def)
  then show ?case ..
qed

lemma component_returns_iff:
  "(\<exists>n j. extractJsonFromComponent n r (JObj []) c = Some j) \<longleftrightarrow>
   (\<exists>ps. component_properties r c = Some ps \<and> (\<forall>(k, q) \<in> set ps. expandable c q))"
proof
  assume "\<exists>n j. extractJsonFromComponent n r (JObj []) c = Some j"
  then show "\<exists>ps. component_properties r c = Some ps \<and> (\<forall>(k, q) \<in> set ps. expandable c q)"
    using extract_expandable(2) by (auto simp: extractJsonFromComponent_def split: Option.bind_splits)
next
  assume "\<exists>ps. component_properties r c = Some ps \<and> (\<forall>(k, q) \<in> set ps. expandable c q)"
  then obtain ps where ps: "component_properties r c = Some ps" "\<forall>(k, q) \<in> set ps. expandable c q" by blast
  have "\<exists>n. returns n c q" if "(k, q) \<in> set ps" for k q using ps(2) that expandable_returns by blast
  then obtain n where "\<forall>j. fits False j \<longrightarrow> (\<exists>r. extract_each n ps j c = Some r \<and> fits False r)" using each_returns by blast
  then obtain j where "extract_each n ps (JObj []) c = Some j" by (auto simp: fits_def)
  then show "\<exists>n j. extractJsonFromComponent n r (JObj []) c = Some j" using ps(1) by (auto simp: extractJsonFromComponent_def)
qed


definition example_schema :: "js \<Rightarrow> js" where
  "example_schema p = JObj [(''schemas'', JObj [(''N'', JObj [(''properties'', JObj [(''id'', JObj [(''type'', JStr ''integer'')]), (''next'', p)])])])]"

definition example_answer :: "js \<Rightarrow> js" where
  "example_answer p = JObj [(''asyncApiOperation'', JObj [(''message'', JObj [(''payload'', JObj [(''$ref'', JStr ''#/components/schemas/N'')])])]),
     (''components'', example_schema p)]"

definition example_ref :: js where
  "example_ref = JObj [(''$ref'', JStr ''#/components/schemas/N'')]"

lemma example_properties:
  "component_properties (JStr ''#/components/schemas/N'') (example_schema p) = Some [(''id'', JObj [(''type'', JStr ''integer'')]), (''next'', p)]"
  by (simp add: component_properties_def example_schema_def)

lemma example_not_expandable: "expandable (example_schema example_ref) p \<Longrightarrow> p \<noteq> example_ref"
proof (induction rule: expandable.induct)
  case (refers p t r ps)
  show ?case
  proof
    assume "p = example_ref"
    then have "(''next'', example_ref) \<in> set ps"
      using refers(3, 4) example_properties [of example_ref] by (auto simp: example_ref_def)
    then show False using refers.IH by blast
  qed
qed (auto simp: example_ref_def schema_type_def)


section \<open>What it generates\<close>

abbreviation is_object :: "js \<Rightarrow> bool" where
  "is_object p \<equiv> schema_type p = Some (JStr ''object'')"

lemma property_keys:
  assumes "extractJsonFromProperty n p k (JObj kvs) c False = Some r"
  shows "\<exists>kvs'. r = JObj kvs' \<and> fst ` set kvs' = (if is_object p then fst ` set kvs else insert k (fst ` set kvs))"
proof -
  obtain n' t where n: "n = Suc n'" and t: "schema_type p = Some t" using assms by (cases n) (auto split: option.splits)
  have "\<exists>v. r = JObj (AList.update k v kvs)" if "t \<noteq> JStr ''object''"
    using assms that unfolding n by (auto simp: t put_def split: if_splits Option.bind_splits)
  moreover have "r = JObj kvs" if "t = JStr ''object''" using assms that unfolding n by (auto simp: t split: Option.bind_splits)
  ultimately show ?thesis using t by (auto simp: dom_update)
qed

lemma each_keys:
  "extract_each n kps (JObj kvs) c = Some r \<Longrightarrow>
   \<exists>kvs'. r = JObj kvs' \<and> fst ` set kvs' = fst ` set kvs \<union> {k | k p. (k, p) \<in> set kps \<and> \<not> is_object p}"
proof (induction kps arbitrary: kvs)
  case (Cons kp kps)
  obtain k p where kp: "kp = (k, p)" by fastforce
  obtain j where j: "extractJsonFromProperty n p k (JObj kvs) c False = Some j" "extract_each n kps j c = Some r"
    using Cons.prems unfolding kp by (auto split: Option.bind_splits)
  obtain kvs1 where k1: "j = JObj kvs1" "fst ` set kvs1 = (if is_object p then fst ` set kvs else insert k (fst ` set kvs))"
    using property_keys [OF j(1)] by blast
  obtain kvs2 where "r = JObj kvs2" "fst ` set kvs2 = fst ` set kvs1 \<union> {k | k p. (k, p) \<in> set kps \<and> \<not> is_object p}"
    using Cons.IH j(2) k1(1) by blast
  then show ?case using k1(2) unfolding kp by (intro exI [of _ kvs2]) auto
qed auto

text \<open>
  The example object of a component has exactly the properties of the component, except those
  declared with type \<open>object\<close>: the object that is built for them is never stored.
\<close>

theorem fake_arguments_keys:
  assumes "extractJsonFromComponent n r (JObj []) c = Some j"
  shows "\<exists>ps kvs. component_properties r c = Some ps \<and> j = JObj kvs \<and> fst ` set kvs = {k | k p. (k, p) \<in> set ps \<and> \<not> is_object p}"
  using assms each_keys by (fastforce simp: extractJsonFromComponent_def split: Option.bind_splits)

theorem fake_arguments_keys_witness:
  "\<exists>kvs. extractJsonFromComponent 2 (JStr ''#/components/schemas/N'') (JObj []) (example_schema (JObj [(''type'', JStr ''object'')])) = Some (JObj kvs) \<and>
     fst ` set kvs = {''id''}"
proof -
  have e: "extractJsonFromComponent 2 (JStr ''#/components/schemas/N'') (JObj []) (example_schema (JObj [(''type'', JStr ''object'')])) =
      Some (JObj [(''id'', JNum 0)])" by code_simp
  have "\<exists>ps kvs. component_properties (JStr ''#/components/schemas/N'') (example_schema (JObj [(''type'', JStr ''object'')])) = Some ps \<and>
      JObj [(''id'', JNum 0)] = JObj kvs \<and> fst ` set kvs = {k | k p. (k, p) \<in> set ps \<and> \<not> is_object p}"
    by (rule fake_arguments_keys [OF e])
  then show ?thesis using e by auto
qed

end
