(* ===== verification/State_Panels.thy ===== *)
theory State_Panels
  imports Diagram_Props Dialog_Action
begin

text \<open>
  The panels that edit the selected state of the diagram: switch-state-editor, inject-state-editor and
  operation-state-editor (components/statediagram/components). A panel lives as long as states of the
  same kind are selected one after the other; its form controls call the handlers that are subscribed
  to them, also when the code itself sets a value. A panel refers to the state of the document by its
  id. \<open>None\<close> is a stack overflow of the diagram, or a \<open>TypeError\<close>.
\<close>

section \<open>Editing a state of the document\<close>

fun set_state_name :: "js \<Rightarrow> sm_state \<Rightarrow> sm_state" where
  "set_state_name v (Inject s) = Inject (s\<lparr>st_name := v\<rparr>)"
| "set_state_name v (Switch s) = Switch (s\<lparr>st_name := v\<rparr>)"
| "set_state_name v (Operation s) = Operation (s\<lparr>st_name := v\<rparr>)"
| "set_state_name v (Foreach s) = Foreach (s\<lparr>st_name := v\<rparr>)"

fun state_filter :: "sm_state \<Rightarrow> state_data_filter option" where
  "state_filter (Inject s) = st_filter s"
| "state_filter (Switch s) = st_filter s"
| "state_filter (Operation s) = st_filter s"
| "state_filter (Foreach s) = st_filter s"

text \<open>\<open>if (state.stateDataFilter) { state.stateDataFilter... = ... }\<close>\<close>

fun map_filter :: "(state_data_filter \<Rightarrow> state_data_filter) \<Rightarrow> sm_state \<Rightarrow> sm_state" where
  "map_filter f (Inject s) = Inject (s\<lparr>st_filter := map_option f (st_filter s)\<rparr>)"
| "map_filter f (Switch s) = Switch (s\<lparr>st_filter := map_option f (st_filter s)\<rparr>)"
| "map_filter f (Operation s) = Operation (s\<lparr>st_filter := map_option f (st_filter s)\<rparr>)"
| "map_filter f (Foreach s) = Foreach (s\<lparr>st_filter := map_option f (st_filter s)\<rparr>)"

definition edit_state :: "js option \<Rightarrow> (sm_state \<Rightarrow> sm_state) \<Rightarrow> diagram \<Rightarrow> diagram" where
  "edit_state k f d = (case k of None \<Rightarrow> d | Some k \<Rightarrow> set_states (update_state k f (m_states (d_model d))) d)"

definition panel_state :: "js option \<Rightarrow> diagram \<Rightarrow> sm_state option" where
  "panel_state k d = Option.bind k (\<lambda>k. getState k (m_states (d_model d)))"

text \<open>The expression that \<open>editInputStateDataFilter\<close> and \<open>editOutputStateDataFilter\<close> pass to the expression editor\<close>

definition filter_text :: "(state_data_filter \<Rightarrow> js) \<Rightarrow> js option \<Rightarrow> diagram \<Rightarrow> js" where
  "filter_text sel k d =
     (case Option.bind (panel_state k d) state_filter of
        Some f \<Rightarrow> (if truthy (sel f) then sel f else JStr '''')
      | None \<Rightarrow> JStr '''')"

text \<open>The handler of its answer: the new text of the control, if the dialog was not dismissed, and the document\<close>

definition filter_answer ::
    "(js \<Rightarrow> state_data_filter \<Rightarrow> state_data_filter) \<Rightarrow> js \<Rightarrow> js option \<Rightarrow> diagram \<Rightarrow> (js option \<times> diagram) res" where
  "filter_answer upd r k d =
     (if \<not> truthy r then Some (None, d)
      else do { v \<leftarrow> js_get r ''filter''; Some (Some v, edit_state k (map_filter (upd v)) d) })"

fun repeat_res :: "nat \<Rightarrow> ('a \<Rightarrow> 'a res) \<Rightarrow> 'a \<Rightarrow> 'a res" where
  "repeat_res 0 f x = Some x"
| "repeat_res (Suc n) f x = Option.bind (f x) (repeat_res n f)"

section \<open>The panel of a switch state\<close>

text \<open>The last two fields count the handlers that are subscribed to the controls \<open>name\<close> and \<open>type\<close>.\<close>

record switch_panel =
  sp_state :: "js option"
  sp_name :: js
  sp_type :: js
  sp_input :: js
  sp_output :: js
  sp_end :: js
  sp_nameSubs :: nat
  sp_typeSubs :: nat

definition new_SwitchStateEditor :: switch_panel where
  "new_SwitchStateEditor = \<lparr>sp_state = None, sp_name = Null, sp_type = Null, sp_input = Null, sp_output = Null,
     sp_end = Null, sp_nameSubs = 0, sp_typeSubs = 0\<rparr>"

definition sp_set_name :: "js \<Rightarrow> switch_panel \<Rightarrow> diagram \<Rightarrow> switch_panel \<times> diagram" where
  "sp_set_name v p d = (p\<lparr>sp_name := v\<rparr>, (edit_state (sp_state p) (set_state_name v) ^^ sp_nameSubs p) d)"

fun switch_kind :: "js \<Rightarrow> sm_state \<Rightarrow> sm_state" where
  "switch_kind v (Switch w) =
     Switch (if v = JStr ''data'' then switchToDataCondition w
             else if v = JStr ''event'' then switchToEventCondition w else w)"
| "switch_kind v s = s"

text \<open>The handler of the control \<open>type\<close> changes the conditions and emits \<open>updated\<close>.\<close>

definition sp_on_type :: "(js \<Rightarrow> int) \<Rightarrow> nat \<Rightarrow> js \<Rightarrow> js option \<Rightarrow> diagram \<Rightarrow> diagram res" where
  "sp_on_type tm n v k d =
     (let d1 = edit_state k (switch_kind v) d
      in case k of None \<Rightarrow> Some d1 | Some k \<Rightarrow> emit_updated tm n k d1)"

definition sp_set_type :: "(js \<Rightarrow> int) \<Rightarrow> nat \<Rightarrow> js \<Rightarrow> switch_panel \<Rightarrow> diagram \<Rightarrow> (switch_panel \<times> diagram) res" where
  "sp_set_type tm n v p d =
     map_option (Pair (p\<lparr>sp_type := v\<rparr>)) (repeat_res (sp_typeSubs p) (sp_on_type tm n v (sp_state p)) d)"

definition shown_type :: "switch_state \<Rightarrow> js" where
  "shown_type w = (if sw_datas w \<noteq> [] then JStr ''data'' else JStr (sw_type w))"

text \<open>The setter of \<open>state\<close> with the method \<open>init\<close>, which subscribes again\<close>

definition sp_open :: "(js \<Rightarrow> int) \<Rightarrow> nat \<Rightarrow> js \<Rightarrow> switch_panel \<Rightarrow> diagram \<Rightarrow> (switch_panel \<times> diagram) res" where
  "sp_open tm n k p d =
     (case getState k (m_states (d_model d)) of
        Some (Switch w) \<Rightarrow> do {
          let (p1, d1) = sp_set_name (st_name w) (p\<lparr>sp_state := Some k\<rparr>) d;
          (p2, d2) \<leftarrow> sp_set_type tm n (shown_type w) p1 d1;
          Some (p2\<lparr>sp_end := st_end w, sp_nameSubs := sp_nameSubs p2 + 1, sp_typeSubs := sp_typeSubs p2 + 1\<rparr>, d2)
        }
      | _ \<Rightarrow> TypeError)"

definition sp_ngOnDestroy :: "switch_panel \<Rightarrow> switch_panel" where
  "sp_ngOnDestroy p = p\<lparr>sp_nameSubs := sp_nameSubs p - 1, sp_typeSubs := sp_typeSubs p - 1\<rparr>"

definition sp_editInput :: "js \<Rightarrow> switch_panel \<Rightarrow> diagram \<Rightarrow> (switch_panel \<times> diagram) res" where
  "sp_editInput r p d =
     map_option (\<lambda>(v, d'). (case v of None \<Rightarrow> p | Some v \<Rightarrow> p\<lparr>sp_input := v\<rparr>, d'))
       (filter_answer (\<lambda>v f. f\<lparr>sdf_input := v\<rparr>) r (sp_state p) d)"

definition sp_editOutput :: "js \<Rightarrow> switch_panel \<Rightarrow> diagram \<Rightarrow> (switch_panel \<times> diagram) res" where
  "sp_editOutput r p d =
     map_option (\<lambda>(v, d'). (case v of None \<Rightarrow> p | Some v \<Rightarrow> p\<lparr>sp_output := v\<rparr>, d'))
       (filter_answer (\<lambda>v f. f\<lparr>sdf_output := v\<rparr>) r (sp_state p) d)"

section \<open>The panel of an inject state\<close>

record inject_panel =
  ip_state :: "js option"
  ip_data :: js
  ip_input :: js
  ip_output :: js
  ip_name :: js
  ip_nameSubs :: nat

definition new_InjectStateEditor :: inject_panel where
  "new_InjectStateEditor = \<lparr>ip_state = None, ip_data = JStr '''', ip_input = JStr '''', ip_output = JStr '''',
     ip_name = Null, ip_nameSubs = 0\<rparr>"

fun set_inject_data :: "js \<Rightarrow> sm_state \<Rightarrow> sm_state" where
  "set_inject_data v (Inject s) = Inject (s\<lparr>in_data := v\<rparr>)"
| "set_inject_data v s = s"

text \<open>The setter of \<open>data\<close>, which the text editor is bound to\<close>

definition ip_set_data :: "(js \<Rightarrow> js res) \<Rightarrow> js \<Rightarrow> inject_panel \<Rightarrow> diagram \<Rightarrow> inject_panel \<times> diagram" where
  "ip_set_data parse str p d =
     (p\<lparr>ip_data := str\<rparr>, case parse str of Some v \<Rightarrow> edit_state (ip_state p) (set_inject_data v) d | None \<Rightarrow> d)"

definition ip_set_name :: "js \<Rightarrow> inject_panel \<Rightarrow> diagram \<Rightarrow> inject_panel \<times> diagram" where
  "ip_set_name v p d = (p\<lparr>ip_name := v\<rparr>, (edit_state (ip_state p) (set_state_name v) ^^ ip_nameSubs p) d)"

definition ip_ngOnDestroy :: "inject_panel \<Rightarrow> inject_panel" where
  "ip_ngOnDestroy p = p\<lparr>ip_nameSubs := 0\<rparr>"

definition ip_open :: "(js \<Rightarrow> js) \<Rightarrow> js \<Rightarrow> inject_panel \<Rightarrow> diagram \<Rightarrow> (inject_panel \<times> diagram) res" where
  "ip_open stringify k p d =
     (case getState k (m_states (d_model d)) of
        Some (Inject s) \<Rightarrow>
          (let p0 = ip_ngOnDestroy (p\<lparr>ip_state := Some k\<rparr>);
               p1 = p0\<lparr>ip_data := (if truthy (in_data s) then stringify (in_data s) else JStr ''{}'')\<rparr>;
               (p2, d2) = ip_set_name (st_name s) p1 d
           in Some (p2\<lparr>ip_nameSubs := ip_nameSubs p2 + 1\<rparr>, d2))
      | _ \<Rightarrow> TypeError)"

definition ip_editInput :: "js \<Rightarrow> inject_panel \<Rightarrow> diagram \<Rightarrow> (inject_panel \<times> diagram) res" where
  "ip_editInput r p d =
     map_option (\<lambda>(v, d'). (case v of None \<Rightarrow> p | Some v \<Rightarrow> p\<lparr>ip_input := v\<rparr>, d'))
       (filter_answer (\<lambda>v f. f\<lparr>sdf_input := v\<rparr>) r (ip_state p) d)"

definition ip_editOutput :: "js \<Rightarrow> inject_panel \<Rightarrow> diagram \<Rightarrow> (inject_panel \<times> diagram) res" where
  "ip_editOutput r p d =
     map_option (\<lambda>(v, d'). (case v of None \<Rightarrow> p | Some v \<Rightarrow> p\<lparr>ip_output := v\<rparr>, d'))
       (filter_answer (\<lambda>v f. f\<lparr>sdf_output := v\<rparr>) r (ip_state p) d)"

section \<open>The panel of an operation state\<close>

record operation_panel =
  pp_state :: "js option"
  pp_name :: js
  pp_end :: js
  pp_actionMode :: js
  pp_nameSubs :: nat
  pp_modeSubs :: nat

definition new_OperationStateEditor :: operation_panel where
  "new_OperationStateEditor = \<lparr>pp_state = None, pp_name = Null, pp_end = Null, pp_actionMode = Null, pp_nameSubs = 0, pp_modeSubs = 0\<rparr>"

fun set_action_mode :: "js \<Rightarrow> sm_state \<Rightarrow> sm_state" where
  "set_action_mode v (Operation s) = Operation (s\<lparr>op_actionMode := v\<rparr>)"
| "set_action_mode v s = s"

definition pp_set_name :: "js \<Rightarrow> operation_panel \<Rightarrow> diagram \<Rightarrow> operation_panel \<times> diagram" where
  "pp_set_name v p d = (p\<lparr>pp_name := v\<rparr>, (edit_state (pp_state p) (set_state_name v) ^^ pp_nameSubs p) d)"

definition pp_set_mode :: "js \<Rightarrow> operation_panel \<Rightarrow> diagram \<Rightarrow> operation_panel \<times> diagram" where
  "pp_set_mode v p d = (p\<lparr>pp_actionMode := v\<rparr>, (edit_state (pp_state p) (set_action_mode v) ^^ pp_modeSubs p) d)"

definition pp_open :: "js \<Rightarrow> operation_panel \<Rightarrow> diagram \<Rightarrow> (operation_panel \<times> diagram) res" where
  "pp_open k p d =
     (case getState k (m_states (d_model d)) of
        Some (Operation s) \<Rightarrow>
          (let (p1, d1) = pp_set_name (st_name s) (p\<lparr>pp_state := Some k\<rparr>) d;
               (p2, d2) = pp_set_mode (op_actionMode s) p1 d1
           in Some (p2\<lparr>pp_end := st_end s, pp_nameSubs := pp_nameSubs p2 + 1, pp_modeSubs := pp_modeSubs p2 + 1\<rparr>, d2))
      | _ \<Rightarrow> TypeError)"

definition pp_ngOnDestroy :: "operation_panel \<Rightarrow> operation_panel" where
  "pp_ngOnDestroy p = p\<lparr>pp_nameSubs := pp_nameSubs p - 1, pp_modeSubs := pp_modeSubs p - 1\<rparr>"

text \<open>\<open>actions.map((a) => a.name).join(',')\<close>: \<open>join\<close> prints nothing for \<open>undefined\<close> and \<open>null\<close>.\<close>

fun join_comma :: "string list \<Rightarrow> string" where
  "join_comma [] = ''''"
| "join_comma [x] = x"
| "join_comma (x # y # ys) = x @ '','' @ join_comma (y # ys)"

definition getActions :: "(js \<Rightarrow> string) \<Rightarrow> operation_state \<Rightarrow> string" where
  "getActions show s =
     join_comma (map (\<lambda>a. if oa_name a \<in> {Undef, Null} then '''' else js_string show (oa_name a)) (op_actions s))"

text \<open>\<open>editActions\<close> gives the array of the state itself to the list of actions, which changes it in place.\<close>

fun map_actions :: "(operation_action list \<Rightarrow> operation_action list) \<Rightarrow> sm_state \<Rightarrow> sm_state" where
  "map_actions f (Operation s) = Operation (s\<lparr>op_actions := f (op_actions s)\<rparr>)"
| "map_actions f s = s"

definition editActions :: "(operation_action list \<Rightarrow> operation_action list) \<Rightarrow> operation_panel \<Rightarrow> diagram \<Rightarrow> diagram" where
  "editActions f p d = edit_state (pp_state p) (map_actions f) d"

section \<open>What opening a panel does to the document\<close>

lemma set_own_name [simp]: "set_state_name (state_name s) s = s"
  by (cases s) simp_all

lemma update_state_same: "getState k sts = Some s \<Longrightarrow> f s = s \<Longrightarrow> update_state k f sts = sts"
  by (induction sts) (auto simp: getState_def split: if_splits)

lemma getState_update: "getState k sts = Some s \<Longrightarrow> state_id (f s) = state_id s \<Longrightarrow> getState k (update_state k f sts) = Some (f s)"
  by (induction sts) (auto simp: getState_def split: if_splits)

lemma update_twice: "(\<And>s. state_id (f s) = state_id s) \<Longrightarrow> update_state k g (update_state k f sts) = update_state k (g \<circ> f) sts"
  by (induction sts) auto

lemma edit_state_same: "getState k (m_states (d_model d)) = Some s \<Longrightarrow> f s = s \<Longrightarrow> edit_state (Some k) f d = d"
  by (simp add: edit_state_def update_state_same)

lemma edit_state_pow: "getState k (m_states (d_model d)) = Some s \<Longrightarrow> f s = s \<Longrightarrow> (edit_state (Some k) f ^^ c) d = d"
  by (induction c) (simp_all add: edit_state_same)

lemma getState_id: "getState k sts = Some s \<Longrightarrow> state_id s = k"
  by (induction sts) (auto simp: getState_def js_seq_def split: if_splits)

text \<open>
  What a panel promises: it opens on the states of its kind and leaves the document and the diagram
  as they are. Then selecting any states one after the other changes nothing either.
\<close>

fun browse :: "(js \<Rightarrow> 'p \<Rightarrow> diagram \<Rightarrow> ('p \<times> diagram) res) \<Rightarrow> js list \<Rightarrow> 'p \<Rightarrow> diagram \<Rightarrow> ('p \<times> diagram) res" where
  "browse opn [] p d = Some (p, d)"
| "browse opn (k # ks) p d = Option.bind (opn k p d) (\<lambda>(p', d'). browse opn ks p' d')"

locale state_panel =
  fixes kind :: "sm_state \<Rightarrow> bool"
    and opn :: "js \<Rightarrow> 'p \<Rightarrow> diagram \<Rightarrow> ('p \<times> diagram) res"
  assumes opens: "getState k (m_states (d_model d)) = Some s \<Longrightarrow> kind s \<Longrightarrow> \<exists>p'. opn k p d = Some (p', d)"
begin

lemma browse_keeps:
  "\<forall>k \<in> set ks. \<exists>s. getState k (m_states (d_model d)) = Some s \<and> kind s \<Longrightarrow> \<exists>p'. browse opn ks p d = Some (p', d)"
proof (induction ks arbitrary: p)
  case (Cons k ks)
  then obtain s p' where "getState k (m_states (d_model d)) = Some s" "kind s" "opn k p d = Some (p', d)"
    using opens by fastforce
  then show ?case using Cons by simp
qed simp

end

definition is_inject :: "sm_state \<Rightarrow> bool" where "is_inject s \<longleftrightarrow> (\<exists>t. s = Inject t)"
definition is_operation :: "sm_state \<Rightarrow> bool" where "is_operation s \<longleftrightarrow> (\<exists>t. s = Operation t)"

interpretation inject: state_panel is_inject "ip_open stringify" for stringify
  by unfold_locales (auto simp: is_inject_def ip_open_def ip_ngOnDestroy_def ip_set_name_def)

lemma own_mode: "set_action_mode (op_actionMode s) (Operation s) = Operation s"
  by simp

interpretation operation: state_panel is_operation pp_open
proof unfold_locales
  fix k s and p :: operation_panel and d :: diagram
  assume s: "getState k (m_states (d_model d)) = Some s" and "is_operation s"
  then obtain t where t: "s = Operation t" by (auto simp: is_operation_def)
  have "set_state_name (st_name t) s = s" "set_action_mode (op_actionMode t) s = s" by (simp_all add: t)
  then show "\<exists>p'. pp_open k p d = Some (p', d)"
    using s edit_state_pow [OF s] by (simp add: pp_open_def pp_set_name_def pp_set_mode_def t)
qed

text \<open>
  Selecting inject states one after the other, or operation states, always opens the panel and
  never changes the document or the diagram, although the controls of the operation panel call the
  handlers of all earlier selections.
\<close>

theorem browsing_keeps_document:
  assumes "\<forall>k \<in> set ks. \<exists>s. getState k (m_states (d_model d)) = Some (Inject s)"
    and "\<forall>k \<in> set ks'. \<exists>s. getState k (m_states (d_model d)) = Some (Operation s)"
  shows "(\<exists>p'. browse (ip_open stringify) ks p d = Some (p', d)) \<and> (\<exists>q'. browse pp_open ks' q d = Some (q', d))"
proof
  show "\<exists>p'. browse (ip_open stringify) ks p d = Some (p', d)"
    by (rule inject.browse_keeps) (use assms(1) in \<open>force simp: is_inject_def\<close>)
  show "\<exists>q'. browse pp_open ks' q d = Some (q', d)"
    by (rule operation.browse_keeps) (use assms(2) in \<open>force simp: is_operation_def\<close>)
qed

section \<open>What the panel of a switch state does to the document\<close>

lemma refresh_times_ready:
  "ready n d \<Longrightarrow> \<exists>d'. refresh_times tm n c d = Some d' \<and> ready n d' \<and> d_model d' = d_model d \<and> d_subs d k \<le> d_subs d' k \<and>
     (0 < c \<longrightarrow> set (node_ids d') = visible (d_model d))"
proof (induction c arbitrary: d)
  case (Suc c)
  obtain d1 where d1: "refreshUI tm n d = Some d1" "ready n d1" "d_model d1 = d_model d"
      "set (node_ids d1) = visible (d_model d)" "d_subs d k \<le> d_subs d1 k"
    using ready_spec [OF Suc.prems, of tm] by fastforce
  obtain d' where d': "refresh_times tm n c d1 = Some d'" "ready n d'" "d_model d' = d_model d1" "d_subs d1 k \<le> d_subs d' k"
      "0 < c \<longrightarrow> set (node_ids d') = visible (d_model d1)"
    using Suc.IH [OF d1(2)] by blast
  have "set (node_ids d') = visible (d_model d)" using d' d1 by (cases c) simp_all
  then show ?case using d1 d' by simp
qed simp

lemma edit_ready: "(\<And>s. state_id (f s) = state_id s) \<Longrightarrow> ready n d \<Longrightarrow> ready n (edit_state k f d)"
proof -
  assume f: "\<And>s. state_id (f s) = state_id s" and d: "ready n d"
  have "wf_ids (update_state j f (m_states (d_model d)))" for j
    using d wf_ids_ids [OF update_state_ids [of j f "m_states (d_model d)"]] f by (simp add: ready_def)
  then show "ready n (edit_state k f d)"
    using d by (auto simp: ready_def edit_state_def instance_ok_def split: option.split)
qed

lemma switch_kind_id [simp]: "state_id (switch_kind v s) = state_id s"
  by (cases s) (simp_all add: switchToDataCondition_def switchToEventCondition_def)

lemma switch_kind_pow_id [simp]: "state_id ((switch_kind v ^^ c) s) = state_id s"
  by (induction c) simp_all

lemma on_type_spec:
  assumes "ready n d"
  shows "\<exists>d'. sp_on_type tm n v (Some k) d = Some d' \<and> ready n d' \<and>
    d_model d' = (d_model d)\<lparr>m_states := update_state k (switch_kind v) (m_states (d_model d))\<rparr> \<and> d_subs d k \<le> d_subs d' k \<and>
    (0 < d_subs d k \<longrightarrow> set (node_ids d') = visible (d_model d'))"
proof -
  let ?d1 = "edit_state (Some k) (switch_kind v) d"
  have r: "ready n ?d1" by (rule edit_ready [OF _ assms]) simp
  from refresh_times_ready [OF r, of tm "d_subs ?d1 k" k]
  show ?thesis by (auto simp: sp_on_type_def emit_updated_def edit_state_def)
qed

lemma repeat_on_type:
  "ready n d \<Longrightarrow> \<exists>d'. repeat_res c (sp_on_type tm n v (Some k)) d = Some d' \<and> ready n d' \<and>
    d_model d' = (d_model d)\<lparr>m_states := update_state k (switch_kind v ^^ c) (m_states (d_model d))\<rparr> \<and>
    (0 < c \<longrightarrow> 0 < d_subs d k \<longrightarrow> set (node_ids d') = visible (d_model d'))"
proof (induction c arbitrary: d)
  case 0
  have "update_state k id sts = sts" for sts by (induction sts) simp_all
  then show ?case using 0 by (simp add: id_def)
next
  case (Suc c)
  obtain d1 where d1: "sp_on_type tm n v (Some k) d = Some d1" "ready n d1"
      "d_model d1 = (d_model d)\<lparr>m_states := update_state k (switch_kind v) (m_states (d_model d))\<rparr>" "d_subs d k \<le> d_subs d1 k"
      "0 < d_subs d k \<longrightarrow> set (node_ids d1) = visible (d_model d1)"
    using on_type_spec [OF Suc.prems, of tm v k] by (elim exE conjE) (rule that)
  obtain d' where d': "repeat_res c (sp_on_type tm n v (Some k)) d1 = Some d'" "ready n d'"
      "d_model d' = (d_model d1)\<lparr>m_states := update_state k (switch_kind v ^^ c) (m_states (d_model d1))\<rparr>"
      "0 < c \<longrightarrow> 0 < d_subs d1 k \<longrightarrow> set (node_ids d') = visible (d_model d')"
    using Suc.IH [OF d1(2)] by (elim exE conjE) (rule that)
  have m: "d_model d' = (d_model d)\<lparr>m_states := update_state k (switch_kind v ^^ Suc c) (m_states (d_model d))\<rparr>"
    using d1(3) d'(3) by (simp add: update_twice funpow_Suc_right del: funpow.simps)
  have vis: "set (node_ids d') = visible (d_model d')" if "0 < d_subs d k"
  proof (cases c)
    case 0
    then have "d' = d1" using d'(1) by simp
    then show ?thesis using d1(5) that by blast
  next
    case (Suc c')
    then show ?thesis using d'(4) d1(4) that by linarith
  qed
  have s: "repeat_res (Suc c) (sp_on_type tm n v (Some k)) d = Some d'" using d1(1) d'(1) by simp
  show ?case by (intro exI [of _ d'] conjI impI s d'(2) m) (rule vis)
qed

lemma update_state_const: "getState k sts = Some s \<Longrightarrow> update_state k f sts = update_state k (\<lambda>_. f s) sts"
  by (induction sts) (auto simp: getState_def split: if_splits)

text \<open>A switch state without conditions; only its default transition is left.\<close>

definition cleared :: "switch_state \<Rightarrow> switch_state" where
  "cleared w = w\<lparr>sw_events := [], sw_datas := []\<rparr>"

lemma next_cleared: "next_ids (Switch (cleared w)) = (if truthy (default_target w) then [default_target w] else [])"
  by (simp add: cleared_def sw_targets default_target_def)

lemma own_kind: "wf_switch w \<Longrightarrow> switch_kind (shown_type w) (Switch w) = Switch (cleared w)"
  by (cases w) (auto simp: wf_switch_def shown_type_def cleared_def switchToDataCondition_def switchToEventCondition_def)

lemma cleared_simps: "wf_switch w \<Longrightarrow> wf_switch (cleared w)" "wf_switch w \<Longrightarrow> shown_type (cleared w) = shown_type w" "cleared (cleared w) = cleared w"
  by (auto simp: wf_switch_def shown_type_def cleared_def)

lemma own_kind_pow: "wf_switch w \<Longrightarrow> (switch_kind (shown_type w) ^^ Suc c) (Switch w) = Switch (cleared w)"
proof (induction c)
  case (Suc c)
  have "switch_kind (shown_type w) (Switch (cleared w)) = Switch (cleared w)"
    using own_kind [OF cleared_simps(1) [OF Suc.prems]] Suc.prems by (simp only: cleared_simps)
  then show ?case using Suc by simp
qed (use own_kind in \<open>simp del: switch_kind.simps\<close>)

text \<open>
  C29. The first state that the panel of switch states is opened on stays as it is. But when another
  switch state is selected while the panel is open, the handlers of the earlier selections are called
  for the new state and delete all its conditions from the document; if the diagram has subscribed to
  the state, it no longer displays what only these conditions led to.
\<close>

theorem selected_switch_loses_conditions:
  assumes "ready n d" and w: "getState k (m_states (d_model d)) = Some (Switch w)" and "wf_switch w"
  shows "\<exists>p' d'. sp_open tm n k p d = Some (p', d') \<and> sp_typeSubs p' = sp_typeSubs p + 1 \<and>
    d_model d' = (d_model d)\<lparr>m_states := update_state k (\<lambda>_. Switch (if sp_typeSubs p = 0 then w else cleared w)) (m_states (d_model d))\<rparr> \<and>
    next_ids (Switch (cleared w)) = (if truthy (default_target w) then [default_target w] else []) \<and>
    (0 < sp_typeSubs p \<longrightarrow> 0 < d_subs d k \<longrightarrow> set (node_ids d') = visible (d_model d'))"
proof -
  let ?v = "shown_type w" and ?c = "sp_typeSubs p" and ?sts = "m_states (d_model d)"
  obtain d' where d': "repeat_res ?c (sp_on_type tm n ?v (Some k)) d = Some d'"
      "d_model d' = (d_model d)\<lparr>m_states := update_state k (switch_kind ?v ^^ ?c) ?sts\<rparr>"
      "0 < ?c \<longrightarrow> 0 < d_subs d k \<longrightarrow> set (node_ids d') = visible (d_model d')"
    using repeat_on_type [OF assms(1), of ?c tm ?v k] by (elim exE conjE) (rule that)
  have "(switch_kind ?v ^^ ?c) (Switch w) = Switch (if ?c = 0 then w else cleared w)"
    using own_kind_pow [OF assms(3)] by (cases ?c) (simp_all del: funpow.simps(2))
  then have m: "d_model d' = (d_model d)\<lparr>m_states := update_state k (\<lambda>_. Switch (if ?c = 0 then w else cleared w)) ?sts\<rparr>"
    using d'(2) update_state_const [OF w] by metis
  have "set_state_name (st_name w) (Switch w) = Switch w" by simp
  then have "(edit_state (Some k) (set_state_name (st_name w)) ^^ c) d = d" for c by (rule edit_state_pow [OF w])
  then have "\<exists>p'. sp_open tm n k p d = Some (p', d') \<and> sp_typeSubs p' = ?c + 1"
    using w d'(1) by (simp add: sp_open_def sp_set_name_def sp_set_type_def)
  then show ?thesis using m next_cleared d'(3) by metis
qed

text \<open>A workflow with two switch states, the first of which leads to the second\<close>

definition example_switches :: "sm_state list" where
  "example_switches =
     [Switch (new_SwitchState\<lparr>st_id := JStr ''a'', sw_events := [new_EventCondition\<lparr>ec_transition := JStr ''b''\<rparr>]\<rparr>),
      Switch (new_SwitchState\<lparr>st_id := JStr ''b'', sw_events := [new_EventCondition\<lparr>ec_transition := JStr ''c''\<rparr>]\<rparr>),
      Inject (new_InjectState\<lparr>st_id := JStr ''c'', in_data := JObj [(''x'', JNum 1)]\<rparr>)]"

definition example_diagram :: diagram where
  "example_diagram = the (refreshUI (\<lambda>_. 0) 5 (diagram_for ''a'' example_switches))"

lemma example_diagram_ready:
  "ready 5 example_diagram" "m_states (d_model example_diagram) = example_switches" "d_subs example_diagram (JStr ''b'') = 1"
proof -
  have "m_states (d_model example_diagram) = example_switches \<and> m_id (d_model example_diagram) = JStr ''m'' \<and> d_instance example_diagram = []
      \<and> d_subs example_diagram (JStr ''b'') = 1"
    by code_simp
  then show "ready 5 example_diagram" "m_states (d_model example_diagram) = example_switches" "d_subs example_diagram (JStr ''b'') = 1"
    by (simp_all add: ready_def instance_ok_def wf_ids_def example_switches_def new_SwitchState_def new_InjectState_def)
qed

theorem selected_switch_loses_conditions_witness:
  "\<exists>p1 p2 d2. sp_open (\<lambda>_. 0) 5 (JStr ''a'') new_SwitchStateEditor example_diagram = Some (p1, example_diagram) \<and>
     sp_open (\<lambda>_. 0) 5 (JStr ''b'') p1 example_diagram = Some (p2, d2) \<and> JStr ''c'' \<in> set (node_ids example_diagram) \<and>
     getState (JStr ''b'') (m_states (d_model d2)) = Some (Switch (new_SwitchState\<lparr>st_id := JStr ''b''\<rparr>))"
proof -
  let ?b = "new_SwitchState\<lparr>st_id := JStr ''b'', sw_events := [new_EventCondition\<lparr>ec_transition := JStr ''c''\<rparr>]\<rparr>"
  have first: "sp_open (\<lambda>_. 0) 5 (JStr ''a'') new_SwitchStateEditor example_diagram =
      Some (new_SwitchStateEditor\<lparr>sp_state := Some (JStr ''a''), sp_name := Undef, sp_type := JStr ''event'', sp_end := JBool False, sp_nameSubs := 1, sp_typeSubs := 1\<rparr>, example_diagram)"
    by (simp add: sp_open_def example_diagram_ready example_switches_def getState_def sp_set_name_def sp_set_type_def
        new_SwitchState_def new_SwitchStateEditor_def shown_type_def)
  have b: "getState (JStr ''b'') (m_states (d_model example_diagram)) = Some (Switch ?b)"
    by (simp add: example_diagram_ready example_switches_def getState_def new_SwitchState_def)
  have wf: "wf_switch ?b" by (simp add: wf_switch_def new_SwitchState_def)
  let ?p = "new_SwitchStateEditor\<lparr>sp_state := Some (JStr ''a''), sp_name := Undef, sp_type := JStr ''event'', sp_end := JBool False, sp_nameSubs := 1, sp_typeSubs := 1\<rparr>"
  obtain p2 d2 where s: "sp_open (\<lambda>_. 0) 5 (JStr ''b'') ?p example_diagram = Some (p2, d2)"
      "d_model d2 = (d_model example_diagram)\<lparr>m_states := update_state (JStr ''b'') (\<lambda>_. Switch (cleared ?b)) (m_states (d_model example_diagram))\<rparr>"
    using selected_switch_loses_conditions [OF example_diagram_ready(1) b wf, of "\<lambda>_. 0" ?p] by auto
  have c: "JStr ''c'' \<in> set (node_ids example_diagram)" by code_simp
  have "getState (JStr ''b'') (m_states (d_model d2)) = Some (Switch (new_SwitchState\<lparr>st_id := JStr ''b''\<rparr>))"
    using s(2) by (simp add: example_diagram_ready example_switches_def getState_def cleared_def new_SwitchState_def)
  then show ?thesis using first s(1) c by blast
qed

text \<open>
  Choosing the other kind of conditions in the panel converts the conditions and keeps all
  successors if the panel has been opened on one state only. After a second selection two handlers
  run: the first converts the conditions, the second finds none to convert, and only the default
  transition is left.
\<close>

theorem switch_type_change:
  assumes "ready n d" and w: "getState k (m_states (d_model d)) = Some (Switch w)" and wf: "wf_switch w"
    and "sp_state p = Some k" and v: "v \<in> {JStr ''event'', JStr ''data''}" "v \<noteq> JStr (sw_type w)" and "0 < sp_typeSubs p"
  shows "\<exists>d' w'. sp_set_type tm n v p d = Some (p\<lparr>sp_type := v\<rparr>, d') \<and>
    getState k (m_states (d_model d')) = Some (Switch w') \<and> JStr (sw_type w') = v \<and>
    next_ids (Switch w') = (if sp_typeSubs p = 1 then next_ids (Switch w)
      else if truthy (default_target w) then [default_target w] else [])"
proof -
  obtain c where c: "sp_typeSubs p = Suc c" using assms(7) by (cases "sp_typeSubs p") auto
  define w1 where "w1 = (if v = JStr ''data'' then switchToDataCondition w else switchToEventCondition w)"
  have w1: "switch_kind v (Switch w) = Switch w1" "wf_switch w1" "shown_type w1 = v" "default_target w1 = default_target w"
      "JStr (sw_type w1) = v" "next_ids (Switch w1) = next_ids (Switch w)"
    using v wf by (auto simp: w1_def wf_switch_def shown_type_def default_target_def sw_targets o_def condition_to_def
        switchToDataCondition_def switchToEventCondition_def new_EventCondition_def new_DataCondition_def)
  define w' where "w' = (if c = 0 then w1 else cleared w1)"
  have pow: "(switch_kind v ^^ Suc c) (Switch w) = Switch w'"
    using own_kind_pow [OF w1(2)] by (cases c) (simp_all add: w1(1,3) w'_def funpow_Suc_right del: funpow.simps(2) switch_kind.simps)
  obtain d' where d': "repeat_res (Suc c) (sp_on_type tm n v (Some k)) d = Some d'"
      "d_model d' = (d_model d)\<lparr>m_states := update_state k (switch_kind v ^^ Suc c) (m_states (d_model d))\<rparr>"
    using repeat_on_type [OF assms(1), of "Suc c" tm v k] by (elim exE conjE) (rule that)
  have g: "getState k (m_states (d_model d')) = Some (Switch w')"
    using getState_update [OF w, of "switch_kind v ^^ Suc c", OF switch_kind_pow_id] unfolding pow
    by (simp add: d'(2) del: funpow.simps)
  have t: "JStr (sw_type w') = v" using w1(5) by (simp add: w'_def cleared_def)
  have "next_ids (Switch w') = (if c = 0 then next_ids (Switch w) else if truthy (default_target w) then [default_target w] else [])"
    using w1(4,6) next_cleared [of w1] by (simp add: w'_def)
  then show ?thesis using d'(1) g t c assms(4) by (intro exI [of _ d'] exI [of _ w']) (simp add: sp_set_type_def)
qed

theorem switch_type_change_witness:
  "\<exists>d' w'. sp_set_type (\<lambda>_. 0) 5 (JStr ''data'') (new_SwitchStateEditor\<lparr>sp_state := Some (JStr ''b''), sp_typeSubs := 1\<rparr>) example_diagram =
       Some (new_SwitchStateEditor\<lparr>sp_state := Some (JStr ''b''), sp_typeSubs := 1, sp_type := JStr ''data''\<rparr>, d') \<and>
     getState (JStr ''b'') (m_states (d_model d')) = Some (Switch w') \<and> next_ids (Switch w') = [JStr ''c'']"
proof -
  let ?b = "new_SwitchState\<lparr>st_id := JStr ''b'', sw_events := [new_EventCondition\<lparr>ec_transition := JStr ''c''\<rparr>]\<rparr>"
  have b: "getState (JStr ''b'') (m_states (d_model example_diagram)) = Some (Switch ?b)"
    by (simp add: example_diagram_ready example_switches_def getState_def new_SwitchState_def)
  have "wf_switch ?b" "next_ids (Switch ?b) = [JStr ''c'']" "sw_type ?b = ''event''"
    by (simp_all add: wf_switch_def new_SwitchState_def sw_getNextTransitions_def)
  then show ?thesis
    using switch_type_change [OF example_diagram_ready(1) b, of "new_SwitchStateEditor\<lparr>sp_state := Some (JStr ''b''), sp_typeSubs := 1\<rparr>" "JStr ''data''" "\<lambda>_. 0"]
    by fastforce
qed

theorem browsing_keeps_document_witness:
  "\<exists>p'. browse (ip_open boxed) [JStr ''c'', JStr ''c''] new_InjectStateEditor example_diagram = Some (p', example_diagram)"
proof -
  have "\<exists>s. getState (JStr ''c'') (m_states (d_model example_diagram)) = Some (Inject s)"
    by (simp add: example_diagram_ready example_switches_def getState_def new_SwitchState_def new_InjectState_def)
  then show ?thesis
    using browsing_keeps_document [of "[JStr ''c'', JStr ''c'']" example_diagram "[]" boxed new_InjectStateEditor] by simp
qed

section \<open>Data and filters\<close>

lemma panel_state_edit:
  "panel_state (Some k) d = Some s \<Longrightarrow> state_id (f s) = state_id s \<Longrightarrow> panel_state (Some k) (edit_state (Some k) f d) = Some (f s)"
  by (simp add: panel_state_def edit_state_def getState_update)

text \<open>
  Text that is typed into the panel of an inject state reaches the data of the state exactly when
  it can be parsed, and opening the panel again shows what was stored. Text that cannot be parsed
  leaves the document as it is.
\<close>

theorem inject_data_edit:
  assumes "json_laws stringify parse" and "getState k (m_states (d_model d)) = Some (Inject s)" and "ip_state p = Some k"
  shows "(parse str = None \<longrightarrow> snd (ip_set_data parse str p d) = d) \<and>
    (\<forall>v. parse str = Some v \<longrightarrow>
       getState k (m_states (d_model (snd (ip_set_data parse str p d)))) = Some (Inject (s\<lparr>in_data := v\<rparr>)) \<and>
       (\<exists>q. ip_open stringify k p (snd (ip_set_data parse str p d)) = Some (q, snd (ip_set_data parse str p d)) \<and>
            (truthy v \<longrightarrow> parse (ip_data q) = Some v)))"
proof (intro conjI allI impI)
  show "parse str = None \<Longrightarrow> snd (ip_set_data parse str p d) = d" by (simp add: ip_set_data_def)
next
  fix v assume v: "parse str = Some v"
  let ?d = "snd (ip_set_data parse str p d)"
  show g: "getState k (m_states (d_model ?d)) = Some (Inject (s\<lparr>in_data := v\<rparr>))"
    using getState_update [OF assms(2), of "set_inject_data v"] assms(3) v by (simp add: ip_set_data_def edit_state_def)
  show "\<exists>q. ip_open stringify k p ?d = Some (q, ?d) \<and> (truthy v \<longrightarrow> parse (ip_data q) = Some v)"
    using stringify_parse [OF assms(1), of v] assms(1) v g by (auto simp: ip_open_def ip_ngOnDestroy_def ip_set_name_def json_laws_def)
qed

theorem inject_data_edit_witness:
  "getState (JStr ''c'') (m_states (d_model (snd (ip_set_data unboxed (boxed (JNum 7)) (new_InjectStateEditor\<lparr>ip_state := Some (JStr ''c'')\<rparr>) example_diagram)))) =
     Some (Inject (new_InjectState\<lparr>st_id := JStr ''c'', in_data := JNum 7\<rparr>))"
proof -
  have c: "getState (JStr ''c'') (m_states (d_model example_diagram)) = Some (Inject (new_InjectState\<lparr>st_id := JStr ''c'', in_data := JObj [(''x'', JNum 1)]\<rparr>))"
    by (simp add: example_diagram_ready example_switches_def getState_def new_SwitchState_def new_InjectState_def)
  have l: "json_laws boxed unboxed" by (rule boxed_laws)
  show ?thesis
    using inject_data_edit [OF l c, of "new_InjectStateEditor\<lparr>ip_state := Some (JStr ''c'')\<rparr>" "boxed (JNum 7)"]
    by (simp add: boxed_def unboxed_def new_InjectState_def)
qed

lemma map_filter_simps [simp]: "state_id (map_filter f s) = state_id s" "state_filter (map_filter f s) = map_option f (state_filter s)"
  by (cases s; simp)+

text \<open>
  A filter that is entered for a state reaches the document only if the state has a filter
  object, which states that were dropped on the diagram do not have; the panel shows the expression
  in both cases.
\<close>

theorem filter_edit:
  assumes "panel_state (sp_state p) d = Some s"
  shows "\<exists>d' s'. sp_editInput (JObj [(''filter'', v)]) p d = Some (p\<lparr>sp_input := v\<rparr>, d') \<and> panel_state (sp_state p) d' = Some s' \<and>
    state_filter s' = map_option (\<lambda>f. f\<lparr>sdf_input := v\<rparr>) (state_filter s) \<and> (state_filter s = None \<longrightarrow> d' = d) \<and>
    (\<forall>ty i. new_child ty i = Some s \<longrightarrow> d' = d)"
proof -
  let ?f = "map_filter (\<lambda>f. f\<lparr>sdf_input := v\<rparr>)"
  obtain k where k: "sp_state p = Some k" "getState k (m_states (d_model d)) = Some s" using assms by (cases "sp_state p") (auto simp: panel_state_def)
  have same: "edit_state (sp_state p) ?f d = d" if "state_filter s = None"
    unfolding k(1) by (rule edit_state_same [OF k(2)]) (use that in \<open>cases s; simp\<close>)
  have fresh: "state_filter s = None" if "new_child ty i = Some s" for ty i
    using that by (auto simp: new_child_def new_InjectState_def new_SwitchState_def new_ForeachState_def new_OperationState_def split: if_splits)
  have "panel_state (sp_state p) (edit_state (sp_state p) ?f d) = Some (?f s)" using panel_state_edit [of k d s ?f] assms k(1) by simp
  then show ?thesis using same fresh by (auto simp: sp_editInput_def filter_answer_def)
qed

theorem filter_edit_witness:
  "\<exists>d'. sp_editInput (JObj [(''filter'', JStr ''${ .a }'')]) (new_SwitchStateEditor\<lparr>sp_state := Some (JStr ''a'')\<rparr>) example_diagram =
     Some (new_SwitchStateEditor\<lparr>sp_state := Some (JStr ''a''), sp_input := JStr ''${ .a }''\<rparr>, d') \<and> d' = example_diagram"
proof -
  have s: "panel_state (Some (JStr ''a'')) example_diagram = Some (hd example_switches)" "state_filter (hd example_switches) = None"
    by (simp_all add: panel_state_def example_diagram_ready example_switches_def getState_def new_SwitchState_def)
  then show ?thesis
    using filter_edit [of "new_SwitchStateEditor\<lparr>sp_state := Some (JStr ''a'')\<rparr>" example_diagram "hd example_switches" "JStr ''${ .a }''"] by auto
qed

end
