(* ===== verification/Expression_Editor.thy ===== *)
theory Expression_Editor
  imports Dialog_Action
begin

text \<open>
  The dialog that edits a jq expression
  (components/statediagram/components/expressioneditor/expressioneditor.component.ts), which every
  editor of filters and conditions opens. The function \<open>jq.json\<close> of a third-party library, \<open>JSON\<close>
  and the printing of numbers are parameters; a parameter that answers \<open>None\<close> throws.
\<close>

section \<open>The dialog\<close>

text \<open>The white space that \<open>trim\<close> removes, among the characters with a code below 256\<close>

definition js_space :: "char \<Rightarrow> bool" where
  "js_space c \<longleftrightarrow> of_char c \<in> {9, 10, 11, 12, 13, 32, 160 :: nat}"

definition js_trim :: "string \<Rightarrow> string" where
  "js_trim s = rev (dropWhile js_space (rev (dropWhile js_space s)))"

record expr_editor =
  xe_filter :: js
  xe_json :: js
  xe_result :: js
  xe_model :: "js option"

definition new_ExpressionEditor :: expr_editor where
  "new_ExpressionEditor = \<lparr>xe_filter = JStr '''', xe_json = JStr ''{}'', xe_result = JStr ''{}'', xe_model = None\<rparr>"

text \<open>\<open>data.filter.replace('$', '').replace('{', '').replace('}', '').trim()\<close>\<close>

definition strip_expression :: "string \<Rightarrow> string" where
  "strip_expression s = js_trim (remove1 CHR ''}'' (remove1 CHR ''{'' (remove1 CHR ''$'' s)))"

definition xe_open :: "js \<Rightarrow> expr_editor res" where
  "xe_open data =
     (if \<not> truthy data then Some new_ExpressionEditor
      else do {
        f \<leftarrow> js_get data ''filter'';
        if \<not> truthy f then Some new_ExpressionEditor
        else case f of JStr s \<Rightarrow> Some (new_ExpressionEditor\<lparr>xe_filter := JStr (strip_expression s)\<rparr>) | _ \<Rightarrow> TypeError
      })"

definition xe_save :: "(js \<Rightarrow> string) \<Rightarrow> expr_editor \<Rightarrow> js" where
  "xe_save show e =
     (if \<not> truthy (xe_filter e) \<or> xe_filter e = JStr '''' then JObj [(''filter'', Null)]
      else JObj [(''filter'', JStr (''${ '' @ js_string show (xe_filter e) @ '' }''))])"

definition parse_or_null :: "(js \<Rightarrow> js res) \<Rightarrow> js \<Rightarrow> js" where
  "parse_or_null parse v = (case parse v of Some o' \<Rightarrow> o' | None \<Rightarrow> Null)"

text \<open>\<open>Object.assign\<close> on the text model of the editor, once \<open>initFilterOptions\<close> has stored it\<close>

definition initFilterOptions :: "js \<Rightarrow> expr_editor \<Rightarrow> expr_editor" where
  "initFilterOptions model e = e\<lparr>xe_model := Some model\<rparr>"

definition updateFilter :: "(js \<Rightarrow> js res) \<Rightarrow> expr_editor \<Rightarrow> expr_editor" where
  "updateFilter parse e =
     (case xe_model e of
        Some (JObj kvs) \<Rightarrow> e\<lparr>xe_model := Some (JObj (AList.update ''json'' (parse_or_null parse (xe_json e)) kvs))\<rparr>
      | _ \<Rightarrow> e)"

text \<open>\<open>typeof v == "object"\<close>\<close>

fun typeof_object :: "js \<Rightarrow> bool" where
  "typeof_object Null = True"
| "typeof_object (JArr xs) = True"
| "typeof_object (JObj kvs) = True"
| "typeof_object v = False"

definition applyFilter ::
    "(js \<Rightarrow> string) \<Rightarrow> (js \<Rightarrow> js res) \<Rightarrow> (js \<Rightarrow> js) \<Rightarrow> (js \<Rightarrow> js \<Rightarrow> js res) \<Rightarrow> expr_editor \<Rightarrow> expr_editor" where
  "applyFilter show parse stringify jq e =
     (let jObj = parse_or_null parse (xe_json e);
          evaluated = (if truthy jObj \<and> truthy (xe_filter e)
             then Option.bind (jq jObj (xe_filter e)) (\<lambda>record. if typeof_object record then Some (stringify record) else js_toString show record)
             else None)
      in e\<lparr>xe_result := (case evaluated of Some r \<Rightarrow> r | None \<Rightarrow> JStr '''')\<rparr>)"

text \<open>The setters that the two text fields are bound to\<close>

definition set_filter ::
    "(js \<Rightarrow> string) \<Rightarrow> (js \<Rightarrow> js res) \<Rightarrow> (js \<Rightarrow> js) \<Rightarrow> (js \<Rightarrow> js \<Rightarrow> js res) \<Rightarrow> js \<Rightarrow> expr_editor \<Rightarrow> expr_editor" where
  "set_filter show parse stringify jq f e = applyFilter show parse stringify jq (e\<lparr>xe_filter := f\<rparr>)"

definition set_json ::
    "(js \<Rightarrow> string) \<Rightarrow> (js \<Rightarrow> js res) \<Rightarrow> (js \<Rightarrow> js) \<Rightarrow> (js \<Rightarrow> js \<Rightarrow> js res) \<Rightarrow> js \<Rightarrow> expr_editor \<Rightarrow> expr_editor" where
  "set_json show parse stringify jq j e = applyFilter show parse stringify jq (updateFilter parse (e\<lparr>xe_json := j\<rparr>))"

section \<open>Editing an expression again\<close>

text \<open>Closing the dialog with the expression \<open>f\<close> and opening it on the result\<close>

definition reopen :: "string \<Rightarrow> expr_editor res" where
  "reopen f = xe_open (xe_save (\<lambda>_. '''') (new_ExpressionEditor\<lparr>xe_filter := JStr f\<rparr>))"

text \<open>An expression without white space around it that does not begin with a closing brace\<close>

definition plain :: "string \<Rightarrow> bool" where
  "plain f \<longleftrightarrow> f \<noteq> [] \<and> \<not> js_space (hd f) \<and> \<not> js_space (last f) \<and> hd f \<noteq> CHR ''}''"

lemma js_trim_id: "s \<noteq> [] \<Longrightarrow> \<not> js_space (hd s) \<Longrightarrow> \<not> js_space (last s) \<Longrightarrow> js_trim s = s"
proof -
  assume s: "s \<noteq> []" "\<not> js_space (hd s)" "\<not> js_space (last s)"
  have "dropWhile js_space s = s" "dropWhile js_space (rev s) = rev s"
    using s by (simp_all add: dropWhile_eq_self_iff hd_rev)
  then show ?thesis by (simp add: js_trim_def)
qed

lemma spaces [simp]: "js_space CHR '' ''" "\<not> js_space CHR ''}''"
  by (simp_all add: js_space_def)

lemma trim_around: "s \<noteq> [] \<Longrightarrow> \<not> js_space (hd s) \<Longrightarrow> \<not> js_space (last s) \<Longrightarrow> js_trim ('' '' @ s @ '' '') = s"
  using js_trim_id [of s] by (cases s) (auto simp: js_trim_def)

lemma trim_left: "s \<noteq> [] \<Longrightarrow> \<not> js_space (hd s) \<Longrightarrow> js_trim ('' '' @ s @ '' }'') = s @ '' }''"
  by (cases s) (auto simp: js_trim_def)

definition rewritten :: "string \<Rightarrow> string" where
  "rewritten f = (if CHR ''}'' \<in> set f then remove1 CHR ''}'' f @ '' }'' else f)"

lemma strip_saved: "strip_expression (''${ '' @ f @ '' }'') = js_trim ('' '' @ (if CHR ''}'' \<in> set f then remove1 CHR ''}'' f @ '' }'' else f @ '' ''))"
  by (auto simp: strip_expression_def remove1_append)

lemma reopen_plain: "plain f \<Longrightarrow> strip_expression (''${ '' @ f @ '' }'') = rewritten f"
proof (cases "CHR ''}'' \<in> set f")
  case True
  moreover assume "plain f"
  moreover obtain x xs where "f = x # xs" using True by (cases f) auto
  ultimately show ?thesis using trim_left [of "remove1 CHR ''}'' f"]
    unfolding strip_saved by (auto simp: rewritten_def plain_def)
next
  case False
  moreover assume "plain f"
  ultimately show ?thesis using trim_around [of f] unfolding strip_saved by (simp add: rewritten_def plain_def)
qed

lemma plain_rewritten: "plain f \<Longrightarrow> plain (rewritten f) \<and> (CHR ''}'' \<in> set (rewritten f) \<longleftrightarrow> CHR ''}'' \<in> set f)"
  by (cases f) (auto simp: plain_def rewritten_def)

lemma length_rewritten: "plain f \<Longrightarrow> length ((rewritten ^^ n) f) = length f + (if CHR ''}'' \<in> set f then n else 0)"
proof (induction n arbitrary: f)
  case (Suc n)
  have "length (rewritten f) = length f + (if CHR ''}'' \<in> set f then 1 else 0)"
    using length_pos_if_in_set [of "CHR ''}''" f] by (auto simp: rewritten_def length_remove1)
  then show ?case using Suc plain_rewritten [OF Suc.prems] by (simp add: funpow_Suc_right del: funpow.simps)
qed simp

text \<open>
  Opening the dialog on an expression that it has saved shows the expression again if it contains
  no closing brace. Otherwise the first closing brace of the expression is taken for the end of the
  wrapper, and one more character is added every time the dialog is opened and saved.
\<close>

theorem reopened_expression:
  assumes "plain f"
  shows "reopen f = Some (new_ExpressionEditor\<lparr>xe_filter := JStr (rewritten f)\<rparr>) \<and>
    (CHR ''}'' \<notin> set f \<longrightarrow> rewritten f = f) \<and>
    length ((rewritten ^^ n) f) = length f + (if CHR ''}'' \<in> set f then n else 0)"
  using length_rewritten [OF assms, of n] reopen_plain [OF assms] assms
  by (auto simp: reopen_def xe_open_def xe_save_def plain_def rewritten_def)

theorem reopened_expression_witness:
  "reopen ''{a: .b} | .a'' = Some (new_ExpressionEditor\<lparr>xe_filter := JStr ''{a: .b | .a }''\<rparr>) \<and>
   length ((rewritten ^^ 9) ''{a: .b} | .a'') = length ''{a: .b} | .a'' + 9 \<and> reopen ''.a'' = Some (new_ExpressionEditor\<lparr>xe_filter := JStr ''.a''\<rparr>)"
proof -
  have p: "plain ''{a: .b} | .a''" "plain ''.a''" by (simp_all add: plain_def js_space_def)
  have r: "rewritten ''{a: .b} | .a'' = ''{a: .b | .a }''" "rewritten ''.a'' = ''.a''" by (simp_all add: rewritten_def)
  from reopened_expression [OF p(1), of 9] reopened_expression [OF p(2)] show ?thesis unfolding r by simp
qed

end
