(* ===== verification/Condition_Panels.thy ===== *)
theory Condition_Panels
  imports State_Panels Expression_Editor
begin

text \<open>
  The panels that edit the condition of a selected transition of a switch state
  (components/statediagram/components/datacondition and evtcondition), the panel in which the event of
  a condition is chosen (chooseevt.component.ts), and the dialog and list that edit the events of the
  workflow (app/statemachines/edit/events). A condition is an element of an array of a switch state; a
  panel refers to it by the id of the state and its position.
\<close>

section \<open>Conditions of the document\<close>

type_synonym cond_ref = "(js \<times> nat) option"

definition panel_switch :: "cond_ref \<Rightarrow> diagram \<Rightarrow> switch_state option" where
  "panel_switch r d =
     (case r of None \<Rightarrow> None
      | Some (k, i) \<Rightarrow> (case getState k (m_states (d_model d)) of Some (Switch w) \<Rightarrow> Some w | _ \<Rightarrow> None))"

definition data_condition_at :: "cond_ref \<Rightarrow> diagram \<Rightarrow> data_condition option" where
  "data_condition_at r d =
     Option.bind (panel_switch r d) (\<lambda>w. let i = snd (the r) in if i < length (sw_datas w) then Some (sw_datas w ! i) else None)"

definition event_condition_at :: "cond_ref \<Rightarrow> diagram \<Rightarrow> event_condition option" where
  "event_condition_at r d =
     Option.bind (panel_switch r d) (\<lambda>w. let i = snd (the r) in if i < length (sw_events w) then Some (sw_events w ! i) else None)"

fun put_data :: "nat \<Rightarrow> data_condition \<Rightarrow> sm_state \<Rightarrow> sm_state" where
  "put_data i c (Switch w) = Switch (w\<lparr>sw_datas := (sw_datas w)[i := c]\<rparr>)"
| "put_data i c s = s"

fun put_event :: "nat \<Rightarrow> event_condition \<Rightarrow> sm_state \<Rightarrow> sm_state" where
  "put_event i c (Switch w) = Switch (w\<lparr>sw_events := (sw_events w)[i := c]\<rparr>)"
| "put_event i c s = s"

text \<open>An assignment to a field of the condition, if there is one; it may throw.\<close>

definition edit_data :: "cond_ref \<Rightarrow> (data_condition \<Rightarrow> data_condition res) \<Rightarrow> diagram \<Rightarrow> diagram res" where
  "edit_data r f d =
     (case data_condition_at r d of
        None \<Rightarrow> Some d
      | Some c \<Rightarrow> map_option (\<lambda>c'. edit_state (map_option fst r) (put_data (snd (the r)) c') d) (f c))"

definition edit_event :: "cond_ref \<Rightarrow> (event_condition \<Rightarrow> event_condition res) \<Rightarrow> diagram \<Rightarrow> diagram res" where
  "edit_event r f d =
     (case event_condition_at r d of
        None \<Rightarrow> Some d
      | Some c \<Rightarrow> map_option (\<lambda>c'. edit_state (map_option fst r) (put_event (snd (the r)) c') d) (f c))"

section \<open>The panel of a data condition\<close>

record data_panel =
  dp_cond :: cond_ref
  dp_condition :: js
  dp_subs :: nat

definition new_DataConditionEditor :: data_panel where
  "new_DataConditionEditor = \<lparr>dp_cond = None, dp_condition = Null, dp_subs = 0\<rparr>"

definition dp_ngOnDestroy :: "data_panel \<Rightarrow> data_panel" where
  "dp_ngOnDestroy p = p\<lparr>dp_subs := 0\<rparr>"

text \<open>\<open>setValue\<close> of the control, by the user or by the code\<close>

definition dp_set_condition :: "js \<Rightarrow> data_panel \<Rightarrow> diagram \<Rightarrow> (data_panel \<times> diagram) res" where
  "dp_set_condition v p d =
     map_option (Pair (p\<lparr>dp_condition := v\<rparr>)) (repeat_res (dp_subs p) (edit_data (dp_cond p) (set_condition v)) d)"

definition dp_open :: "cond_ref \<Rightarrow> data_panel \<Rightarrow> diagram \<Rightarrow> (data_panel \<times> diagram) res" where
  "dp_open r p d = do {
     (p1, d1) \<leftarrow> dp_set_condition (case data_condition_at r d of Some c \<Rightarrow> dc_condition c | None \<Rightarrow> Undef)
                   (dp_ngOnDestroy (p\<lparr>dp_cond := r\<rparr>)) d;
     Some (p1\<lparr>dp_subs := dp_subs p1 + 1\<rparr>, d1)
   }"

text \<open>The handler of the answer of the expression editor\<close>

definition dp_editExpression :: "js \<Rightarrow> data_panel \<Rightarrow> diagram \<Rightarrow> (data_panel \<times> diagram) res" where
  "dp_editExpression r p d =
     (if \<not> truthy r then Some (p, d)
      else case data_condition_at (dp_cond p) d of
             None \<Rightarrow> Some (p, d)
           | Some c \<Rightarrow> do {
               v \<leftarrow> js_get r ''filter'';
               d1 \<leftarrow> edit_data (dp_cond p) (set_condition v) d;
               dp_set_condition v p d1
             })"

section \<open>Choosing the event of a condition\<close>

record choose_evt =
  ce_useData :: js
  ce_data :: js
  ce_toStateData :: js
  ce_selectedEvtRef :: js
  ce_events :: "sm_event list"

definition new_ChooseEvt :: choose_evt where
  "new_ChooseEvt = \<lparr>ce_useData = Null, ce_data = Null, ce_toStateData = Null, ce_selectedEvtRef = JStr '''', ce_events = []\<rparr>"

definition ce_init :: "(js \<Rightarrow> string) \<Rightarrow> event_condition \<Rightarrow> sm_event list \<Rightarrow> choose_evt \<Rightarrow> choose_evt res" where
  "ce_init show c evts p = do {
     u \<leftarrow> (case ec_eventDataFilter c of
             None \<Rightarrow> Some (JStr ''false'')
           | Some f \<Rightarrow> Option.bind (js_toString show (edf_useData f)) js_toLowerCase);
     Some (p\<lparr>ce_events := filter (\<lambda>e. js_seq (ev_kind e) (JStr ''consumed'')) evts, ce_selectedEvtRef := ec_eventRef c, ce_useData := u,
       ce_data := (case ec_eventDataFilter c of None \<Rightarrow> Undef | Some f \<Rightarrow> edf_data f),
       ce_toStateData := (case ec_eventDataFilter c of None \<Rightarrow> Undef | Some f \<Rightarrow> edf_toStateData f)\<rparr>)
   }"

definition ce_editResults :: "js \<Rightarrow> choose_evt \<Rightarrow> choose_evt res" where
  "ce_editResults r p = (if \<not> truthy r then Some p else map_option (\<lambda>v. p\<lparr>ce_data := v\<rparr>) (js_get r ''filter''))"

definition ce_editToStateData :: "js \<Rightarrow> choose_evt \<Rightarrow> choose_evt res" where
  "ce_editToStateData r p = (if \<not> truthy r then Some p else map_option (\<lambda>v. p\<lparr>ce_toStateData := v\<rparr>) (js_get r ''filter''))"

definition selectEvent :: "sm_event \<Rightarrow> choose_evt \<Rightarrow> choose_evt" where
  "selectEvent e p = p\<lparr>ce_selectedEvtRef := ev_name e\<rparr>"

definition ce_save :: "choose_evt \<Rightarrow> event_condition res" where
  "ce_save p = do {
     c \<leftarrow> set_eventRef (ce_selectedEvtRef p) new_EventCondition;
     Some (c\<lparr>ec_eventDataFilter := Some (new_EventDataFilter\<lparr>edf_useData := ce_useData p, edf_data := ce_data p, edf_toStateData := ce_toStateData p\<rparr>)\<rparr>)
   }"

section \<open>The panel of an event condition\<close>

record evt_panel =
  ep_cond :: cond_ref
  ep_eventRef :: js
  ep_subs :: nat

definition new_EvtConditionEditor :: evt_panel where
  "new_EvtConditionEditor = \<lparr>ep_cond = None, ep_eventRef = Null, ep_subs = 0\<rparr>"

definition ep_ngOnDestroy :: "evt_panel \<Rightarrow> evt_panel" where
  "ep_ngOnDestroy p = p\<lparr>ep_subs := 0\<rparr>"

definition ep_set_eventRef :: "js \<Rightarrow> evt_panel \<Rightarrow> diagram \<Rightarrow> (evt_panel \<times> diagram) res" where
  "ep_set_eventRef v p d =
     map_option (Pair (p\<lparr>ep_eventRef := v\<rparr>)) (repeat_res (ep_subs p) (edit_event (ep_cond p) (set_eventRef v)) d)"

definition ep_open :: "cond_ref \<Rightarrow> evt_panel \<Rightarrow> diagram \<Rightarrow> (evt_panel \<times> diagram) res" where
  "ep_open r p d = do {
     (p1, d1) \<leftarrow> ep_set_eventRef (case event_condition_at r d of Some c \<Rightarrow> ec_eventRef c | None \<Rightarrow> Undef)
                   (ep_ngOnDestroy (p\<lparr>ep_cond := r\<rparr>)) d;
     Some (p1\<lparr>ep_subs := ep_subs p1 + 1\<rparr>, d1)
   }"

text \<open>\<open>editEvtRef\<close>: the condition and the events that the choosing panel starts from\<close>

definition ep_choose :: "(js \<Rightarrow> string) \<Rightarrow> evt_panel \<Rightarrow> diagram \<Rightarrow> choose_evt res" where
  "ep_choose show p d =
     ce_init show (case event_condition_at (ep_cond p) d of Some c \<Rightarrow> c | None \<Rightarrow> new_EventCondition) (m_events (d_model d)) new_ChooseEvt"

text \<open>The handler of its answer, \<open>None\<close> when it is dismissed\<close>

definition ep_chosen :: "event_condition option \<Rightarrow> evt_panel \<Rightarrow> diagram \<Rightarrow> diagram res" where
  "ep_chosen e p d =
     (case e of None \<Rightarrow> Some d
      | Some e \<Rightarrow> edit_event (ep_cond p)
          (\<lambda>c. map_option (\<lambda>c'. c'\<lparr>ec_eventDataFilter := ec_eventDataFilter e\<rparr>) (set_eventRef (ec_eventRef e) c)) d)"

section \<open>The events of the workflow\<close>

record event_dialog =
  vd_name :: js
  vd_type :: js
  vd_event :: "sm_event option"

definition vd_open :: "sm_event option \<Rightarrow> event_dialog" where
  "vd_open e =
     (case e of
        None \<Rightarrow> \<lparr>vd_name = JStr '''', vd_type = JStr '''', vd_event = None\<rparr>
      | Some v \<Rightarrow> \<lparr>vd_name = ev_name v, vd_type = ev_type v, vd_event = Some v\<rparr>)"

definition vd_isDisabled :: "(js \<Rightarrow> bool) \<Rightarrow> event_dialog \<Rightarrow> bool" where
  "vd_isDisabled blank e \<longleftrightarrow> blank (vd_name e) \<or> blank (vd_type e)"

text \<open>The event that the dialog closes with, \<open>Some None\<close> if it stays open; without an event it throws.\<close>

definition vd_save :: "(js \<Rightarrow> bool) \<Rightarrow> event_dialog \<Rightarrow> sm_event option res" where
  "vd_save blank e =
     (if vd_isDisabled blank e then Some None
      else case vd_event e of
             None \<Rightarrow> TypeError
           | Some v \<Rightarrow> Some (Some \<lparr>ev_name = vd_name e, ev_type = vd_type e, ev_source = ev_source v, ev_kind = ev_kind v, ev_metadata = ev_metadata v\<rparr>))"

definition editEvent :: "sm_event option \<Rightarrow> int \<Rightarrow> sm_event list \<Rightarrow> sm_event list" where
  "editEvent e i evts = list_edit e i evts"

section \<open>Edits reach the document\<close>

lemma panel_switch_edit:
  assumes "panel_switch r d = Some w" and "\<And>w. f (Switch w) = Switch (g w)" and "\<And>w. st_id (g w) = st_id w"
  shows "panel_switch r (edit_state (map_option fst r) f d) = Some (g w)"
proof -
  obtain k i where k: "r = Some (k, i)" "getState k (m_states (d_model d)) = Some (Switch w)"
    using assms(1) by (auto simp: panel_switch_def split: option.splits sm_state.splits)
  show ?thesis using getState_update [OF k(2), of f] assms(2,3) by (simp add: panel_switch_def edit_state_def k(1))
qed

lemma edit_data_spec:
  assumes "data_condition_at r d = Some c" and "f c = Some c'"
  obtains d' where "edit_data r f d = Some d'" and "data_condition_at r d' = Some c'"
proof -
  obtain w where w: "panel_switch r d = Some w" "snd (the r) < length (sw_datas w)"
    using assms(1) by (auto simp: data_condition_at_def Let_def split: Option.bind_splits if_splits)
  have "panel_switch r (edit_state (map_option fst r) (put_data (snd (the r)) c') d) = Some (w\<lparr>sw_datas := (sw_datas w)[snd (the r) := c']\<rparr>)"
    by (rule panel_switch_edit [OF w(1)]) simp_all
  then have "data_condition_at r (edit_state (map_option fst r) (put_data (snd (the r)) c') d) = Some c'"
    using w(2) by (simp add: data_condition_at_def)
  then show thesis using assms by (intro that) (simp_all add: edit_data_def)
qed

lemma edit_event_spec:
  assumes "event_condition_at r d = Some c" and "f c = Some c'"
  obtains d' where "edit_event r f d = Some d'" and "event_condition_at r d' = Some c'"
proof -
  obtain w where w: "panel_switch r d = Some w" "snd (the r) < length (sw_events w)"
    using assms(1) by (auto simp: event_condition_at_def Let_def split: Option.bind_splits if_splits)
  have "panel_switch r (edit_state (map_option fst r) (put_event (snd (the r)) c') d) = Some (w\<lparr>sw_events := (sw_events w)[snd (the r) := c']\<rparr>)"
    by (rule panel_switch_edit [OF w(1)]) simp_all
  then have "event_condition_at r (edit_state (map_option fst r) (put_event (snd (the r)) c') d) = Some c'"
    using w(2) by (simp add: event_condition_at_def)
  then show thesis using assms by (intro that) (simp_all add: edit_event_def)
qed

lemma set_condition_Subject: "dc_label c = Subject l \<Longrightarrow> set_condition v c = Some (c\<lparr>dc_condition := v, dc_label := Subject v\<rparr>)"
  by (simp add: set_condition_def)

lemma repeat_set_condition:
  "data_condition_at r d = Some c \<Longrightarrow> dc_condition c = v \<Longrightarrow> dc_label c = Subject v \<Longrightarrow>
     \<exists>d'. repeat_res m (edit_data r (set_condition v)) d = Some d' \<and> data_condition_at r d' = Some c"
proof (induction m arbitrary: d)
  case (Suc m)
  have "set_condition v c = Some c" using Suc.prems by (cases c) (simp add: set_condition_def)
  from edit_data_spec [where f = "set_condition v", OF Suc.prems(1) this]
  obtain d1 where "edit_data r (set_condition v) d = Some d1" "data_condition_at r d1 = Some c" by blast
  then show ?case using Suc.IH Suc.prems(2,3) by simp
qed simp

text \<open>
  An expression that is saved in the expression editor becomes the condition of the transition,
  its label in the diagram and the text of the control, whatever number of handlers the control has;
  opening the expression editor on that control shows the expression again, except that it moves the
  first closing brace that it contains.
\<close>

theorem edited_condition_reaches_document:
  assumes "data_condition_at (dp_cond p) d = Some c" and "dc_label c = Subject l" and "plain f"
  shows "\<exists>d'. dp_editExpression (xe_save show (e\<lparr>xe_filter := JStr f\<rparr>)) p d =
       Some (p\<lparr>dp_condition := JStr (''${ '' @ f @ '' }'')\<rparr>, d') \<and>
    data_condition_at (dp_cond p) d' = Some (c\<lparr>dc_condition := JStr (''${ '' @ f @ '' }''), dc_label := Subject (JStr (''${ '' @ f @ '' }''))\<rparr>) \<and>
    xe_open (JObj [(''filter'', JStr (''${ '' @ f @ '' }''))]) = Some (new_ExpressionEditor\<lparr>xe_filter := JStr (rewritten f)\<rparr>)"
proof -
  let ?v = "JStr (''${ '' @ f @ '' }'')"
  let ?c = "c\<lparr>dc_condition := ?v, dc_label := Subject ?v\<rparr>"
  have ans: "xe_save show (e\<lparr>xe_filter := JStr f\<rparr>) = JObj [(''filter'', ?v)]" using assms(3) by (simp add: xe_save_def plain_def)
  from edit_data_spec [where f = "set_condition ?v", OF assms(1) set_condition_Subject [OF assms(2)]]
  obtain d1 where d1: "edit_data (dp_cond p) (set_condition ?v) d = Some d1" "data_condition_at (dp_cond p) d1 = Some ?c" by blast
  obtain d' where d': "repeat_res (dp_subs p) (edit_data (dp_cond p) (set_condition ?v)) d1 = Some d'" "data_condition_at (dp_cond p) d' = Some ?c"
    using repeat_set_condition [OF d1(2), of ?v "dp_subs p"] by auto
  have "dp_editExpression (JObj [(''filter'', ?v)]) p d = Some (p\<lparr>dp_condition := ?v\<rparr>, d')"
    using assms(1) d1(1) d'(1) by (simp add: dp_editExpression_def dp_set_condition_def)
  moreover have "xe_open (JObj [(''filter'', ?v)]) = Some (new_ExpressionEditor\<lparr>xe_filter := JStr (rewritten f)\<rparr>)"
    using reopen_plain [OF assms(3)] by (simp add: xe_open_def)
  ultimately show ?thesis using d'(2) ans by simp
qed

definition example_condition :: data_condition where
  "example_condition = new_DataCondition\<lparr>dc_transition := JStr ''b''\<rparr>"

definition example_conditions :: diagram where
  "example_conditions = diagram_for ''a''
     [Switch (new_SwitchState\<lparr>st_id := JStr ''a'', sw_type := ''data'', sw_datas := [example_condition]\<rparr>),
      Switch (new_SwitchState\<lparr>st_id := JStr ''b'', sw_events := [new_EventCondition]\<rparr>)]"

lemma example_conditions_at:
  "data_condition_at (Some (JStr ''a'', 0)) example_conditions = Some example_condition"
  "event_condition_at (Some (JStr ''b'', 0)) example_conditions = Some new_EventCondition"
  by (simp_all add: data_condition_at_def event_condition_at_def panel_switch_def example_conditions_def getState_def new_SwitchState_def)

theorem edited_condition_reaches_document_witness:
  "\<exists>d'. dp_editExpression (xe_save (\<lambda>_. '''') (new_ExpressionEditor\<lparr>xe_filter := JStr ''.x > 1''\<rparr>))
       (new_DataConditionEditor\<lparr>dp_cond := Some (JStr ''a'', 0), dp_subs := 1\<rparr>) example_conditions =
     Some (new_DataConditionEditor\<lparr>dp_cond := Some (JStr ''a'', 0), dp_subs := 1, dp_condition := JStr ''${ .x > 1 }''\<rparr>, d')"
  using edited_condition_reaches_document [of "new_DataConditionEditor\<lparr>dp_cond := Some (JStr ''a'', 0), dp_subs := 1\<rparr>" example_conditions example_condition
      "JStr ''''" "''.x > 1''" "\<lambda>_. ''''" new_ExpressionEditor] example_conditions_at
  by (auto simp: plain_def js_space_def example_condition_def new_DataCondition_def)

section \<open>Choosing an event\<close>

text \<open>
  C30. Whatever the type of the flag \<open>useData\<close> of a condition is, the panel in which its event is
  chosen writes a string back; \<open>false\<close> becomes a non-empty string, which counts as true.
\<close>

theorem chosen_use_data_is_text:
  assumes "ce_init show c evts p = Some q"
  shows "\<exists>e f s. ce_save q = Some e \<and> ec_eventRef e = ec_eventRef c \<and> ec_eventDataFilter e = Some f \<and> edf_useData f = JStr s \<and>
    (\<forall>g b. ec_eventDataFilter c = Some g \<longrightarrow> edf_useData g = JBool b \<longrightarrow> s = (if b then ''true'' else ''false'') \<and> truthy (edf_useData f))"
proof -
  have lower: "js_toLowerCase v = Some u \<Longrightarrow> \<exists>s. u = JStr s" for v u by (cases v) auto
  have "\<exists>s. ce_useData q = JStr s" using assms lower by (auto simp: ce_init_def split: Option.bind_splits option.splits)
  moreover have "ce_selectedEvtRef q = ec_eventRef c" using assms by (auto simp: ce_init_def split: Option.bind_splits)
  moreover have "ce_useData q = JStr (if b then ''true'' else ''false'')" if "ec_eventDataFilter c = Some g" "edf_useData g = JBool b" for g b
    using assms that by (auto simp: ce_init_def lower_char_def split: Option.bind_splits)
  ultimately show ?thesis by (auto simp: ce_save_def set_eventRef_def new_EventCondition_def new_EventDataFilter_def)
qed

theorem chosen_use_data_is_text_witness:
  "\<exists>q e f. ce_init (\<lambda>_. '''') (new_EventCondition\<lparr>ec_eventDataFilter := Some (new_EventDataFilter\<lparr>edf_useData := JBool False\<rparr>)\<rparr>) [] new_ChooseEvt = Some q \<and>
     ce_save q = Some e \<and> ec_eventDataFilter e = Some f \<and> edf_useData f = JStr ''false''"
proof -
  let ?c = "new_EventCondition\<lparr>ec_eventDataFilter := Some (new_EventDataFilter\<lparr>edf_useData := JBool False\<rparr>)\<rparr>"
  obtain q where q: "ce_init (\<lambda>_. '''') ?c [] new_ChooseEvt = Some q" by (simp add: ce_init_def)
  show ?thesis using chosen_use_data_is_text [OF q] q by fastforce
qed

text \<open>
  The event that is chosen for a condition is stored in the document, but once the document has
  been saved and loaded, its event can no longer be changed: \<open>getJson\<close> writes the flag as \<open>useResults\<close>,
  \<open>build\<close> reads \<open>useData\<close>, and the panel calls \<open>toString\<close> of \<open>undefined\<close>.
\<close>

theorem chosen_event_cannot_be_reopened:
  assumes "event_condition_at (ep_cond p) d = Some c" and "ec_label c = Subject l \<or> ec_label c = Raw Undef" and "ce_save q = Some e"
  shows "\<exists>d' c2 c3. ep_chosen (Some e) p d = Some d' \<and> event_condition_at (ep_cond p) d' = Some c2 \<and>
    ec_eventRef c2 = ce_selectedEvtRef q \<and> EventCondition_build (EventCondition_getJson c2) = Some c3 \<and>
    ec_eventRef c3 = ec_eventRef c2 \<and> ec_transition c3 = ec_transition c \<and> ce_init show c3 evts q' = TypeError"
proof -
  obtain l' where l': "label_next (ec_eventRef e) (ec_label c) = Some l'" using assms(2) by auto
  define c2 where "c2 = c\<lparr>ec_eventRef := ec_eventRef e, ec_label := l', ec_eventDataFilter := ec_eventDataFilter e\<rparr>"
  have f: "(\<lambda>c. map_option (\<lambda>c'. c'\<lparr>ec_eventDataFilter := ec_eventDataFilter e\<rparr>) (set_eventRef (ec_eventRef e) c)) c = Some c2"
    by (simp add: set_eventRef_def l' c2_def)
  from edit_event_spec [where f = "\<lambda>c. map_option (\<lambda>c'. c'\<lparr>ec_eventDataFilter := ec_eventDataFilter e\<rparr>) (set_eventRef (ec_eventRef e) c)", OF assms(1) f]
  obtain d' where d': "ep_chosen (Some e) p d = Some d'" "event_condition_at (ep_cond p) d' = Some c2" by (auto simp: ep_chosen_def)
  obtain g where g: "ec_eventDataFilter e = Some g" and r: "ec_eventRef e = ce_selectedEvtRef q"
    using assms(3) by (auto simp: ce_save_def set_eventRef_def new_EventCondition_def)
  have "\<exists>c3 h. EventCondition_build (EventCondition_getJson c2) = Some c3 \<and> ec_eventRef c3 = ec_eventRef c2 \<and> ec_transition c3 = ec_transition c \<and>
      ec_eventDataFilter c3 = Some h \<and> edf_useData h = Undef"
    by (simp add: c2_def g EventCondition_build_def EventCondition_getJson_def EventDataFilter_build_def EventDataFilter_getJson_def
        set_eventRef_def new_EventCondition_def put_truthy_def put_if_def put_opt_def)
  then show ?thesis using d' r by (auto simp: ce_init_def c2_def)
qed

theorem chosen_event_cannot_be_reopened_witness:
  "\<exists>d' c2 c3. ep_chosen (Some (the (ce_save new_ChooseEvt))) (new_EvtConditionEditor\<lparr>ep_cond := Some (JStr ''b'', 0)\<rparr>) example_conditions = Some d' \<and>
     event_condition_at (Some (JStr ''b'', 0)) d' = Some c2 \<and> EventCondition_build (EventCondition_getJson c2) = Some c3 \<and>
     ce_init (\<lambda>_. '''') c3 [] new_ChooseEvt = TypeError"
proof -
  let ?p = "new_EvtConditionEditor\<lparr>ep_cond := Some (JStr ''b'', 0)\<rparr>"
  have s: "ce_save new_ChooseEvt = Some (the (ce_save new_ChooseEvt))" by (simp add: ce_save_def set_eventRef_def new_EventCondition_def)
  have c: "event_condition_at (ep_cond ?p) example_conditions = Some new_EventCondition" using example_conditions_at by simp
  have l: "ec_label new_EventCondition = Subject (JStr ''event'') \<or> ec_label new_EventCondition = Raw Undef" by (simp add: new_EventCondition_def)
  show ?thesis using chosen_event_cannot_be_reopened [OF c l s, of "\<lambda>_. ''''" "[]" new_ChooseEvt] by auto
qed

end
