(* ===== verification/Store_Mesh.thy ===== *)
theory Store_Mesh
  imports Store_Core
begin

text \<open>
  The stores of the event mesh pages: vpns, clients, application domains and message definitions
  (src/stores/vpn, clients, applicationdomains, messagedefinitions). For each: its actions, the
  requests of its service, its effects and its reducers. \<open>api\<close> is \<open>environment.apiUrl\<close> and \<open>now\<close>
  the value of \<open>new Date()\<close>.
\<close>

section \<open>Vpns\<close>

datatype vpn_action =
    StartGetAllVpn
  | CompleteGetAllVpn js
  | ErrorGetAllVpn
  | StartAddVpn string string
  | CompleteAddVpn string string
  | ErrorAddVpn
  | DeleteVpn string
  | CompleteDeleteVpn string
  | ErrorDeleteVpn
  | StartGetVpn string
  | CompleteGetVpn js
  | ErrorGetVpn
  | SelectVpn string

definition rq_getAllVpn :: "string \<Rightarrow> request" where
  "rq_getAllVpn api = http_get (api @ ''/vpns'')"

definition rq_addVpn :: "string \<Rightarrow> string \<Rightarrow> string \<Rightarrow> request" where
  "rq_addVpn api name description =
     http_post (api @ ''/vpns'') (JObj [(''name'', JStr name), (''description'', JStr description)])"

definition rq_addBridge :: "string \<Rightarrow> string \<Rightarrow> string \<Rightarrow> rat \<Rightarrow> string \<Rightarrow> request" where
  "rq_addBridge api vpn urn port targetVpn =
     http_post (api @ ''/vpns/'' @ vpn @ ''/bridges'')
       (JObj [(''urn'', JStr urn), (''port'', JNum port), (''targetVpn'', JStr targetVpn)])"

definition rq_deleteVpn :: "string \<Rightarrow> string \<Rightarrow> request" where
  "rq_deleteVpn api vpn = http_delete (api @ ''/vpns/'' @ vpn)"

definition rq_getVpn :: "string \<Rightarrow> string \<Rightarrow> request" where
  "rq_getVpn api vpn = http_get (api @ ''/vpns/'' @ vpn)"

text \<open>The failure of a deletion is reported as \<open>errorAddVpn\<close>.\<close>

fun vpn_effect :: "string \<Rightarrow> vpn_action \<Rightarrow> vpn_action effect" where
  "vpn_effect api StartGetAllVpn =
     Some (rq_getAllVpn api, settle (\<lambda>content. Some (CompleteGetAllVpn content)) ErrorGetAllVpn)"
| "vpn_effect api (StartAddVpn name description) =
     Some (rq_addVpn api name description, settle (\<lambda>content. Some (CompleteAddVpn name description)) ErrorAddVpn)"
| "vpn_effect api (DeleteVpn name) =
     Some (rq_deleteVpn api name, settle (\<lambda>content. Some (CompleteDeleteVpn name)) ErrorAddVpn)"
| "vpn_effect api (StartGetVpn name) =
     Some (rq_getVpn api name, settle (\<lambda>content. Some (CompleteGetVpn content)) ErrorGetVpn)"
| "vpn_effect api _ = None"

definition new_VpnResult :: js where
  "new_VpnResult = JObj [(''name'', JStr ''''), (''description'', JStr ''''), (''createDateTime'', Null),
     (''updateDateTime'', Null)]"

definition added_vpn :: "js \<Rightarrow> string \<Rightarrow> string \<Rightarrow> js" where
  "added_vpn now name description =
     js_set ''updateDateTime'' now (js_set ''createDateTime'' now
       (js_set ''description'' (JStr description) (js_set ''name'' (JStr name) new_VpnResult)))"

record vpn_lst_state =
  VpnLst :: "js list"

record vpn_state =
  Vpn :: js
  selectedVpn :: js

definition initialVpnLstState :: vpn_lst_state where
  "initialVpnLstState = \<lparr>VpnLst = []\<rparr>"

text \<open>\<open>sessionStorage\<close> maps names to strings; the initial selection is read from it.\<close>

type_synonym storage = "string \<Rightarrow> string option"

definition getItem :: "string \<Rightarrow> storage \<Rightarrow> js" where
  "getItem k st = (case st k of None \<Rightarrow> Null | Some v \<Rightarrow> JStr v)"

definition initialVpnState :: "storage \<Rightarrow> vpn_state" where
  "initialVpnState st = \<lparr>Vpn = Null, selectedVpn = getItem ''selectedVpn'' st\<rparr>"

fun vpnLstReducer :: "js \<Rightarrow> vpn_action \<Rightarrow> vpn_lst_state \<Rightarrow> vpn_lst_state res" where
  "vpnLstReducer now (CompleteGetAllVpn content) s =
     map_option (\<lambda>c. s\<lparr>VpnLst := c\<rparr>) (js_spread content)"
| "vpnLstReducer now (CompleteAddVpn name description) s =
     Some (s\<lparr>VpnLst := clone_list (VpnLst s) @ [added_vpn now name description]\<rparr>)"
| "vpnLstReducer now (CompleteDeleteVpn name) s =
     map_option (\<lambda>l. s\<lparr>VpnLst := l\<rparr>) (js_filterM (prop_is_not ''name'' (JStr name)) (clone_list (VpnLst s)))"
| "vpnLstReducer now _ s = Some s"

fun vpnReducer :: "vpn_action \<Rightarrow> vpn_state \<times> storage \<Rightarrow> vpn_state \<times> storage" where
  "vpnReducer (CompleteGetVpn content) (s, st) = (s\<lparr>Vpn := obj_spread content\<rparr>, st)"
| "vpnReducer (SelectVpn name) (s, st) = (s\<lparr>selectedVpn := JStr name\<rparr>, st(''selectedVpn'' \<mapsto> name))"
| "vpnReducer _ (s, st) = (s, st)"

section \<open>Clients\<close>

datatype client_action =
    StartGetAllClients string
  | CompleteGetAllClients js
  | ErrorGetAllClients
  | StartGetClient string
  | CompleteGetClient js
  | ErrorGetClient
  | StartDeleteClient string
  | CompleteDeleteClient string
  | ErrorDeleteClient
  | StartAddClient string string js
  | CompleteAddClient js string string js
  | ErrorAddClient

definition rq_getAllClients :: "string \<Rightarrow> string \<Rightarrow> request" where
  "rq_getAllClients api vpn = http_get (api @ ''/clients/.search/'' @ vpn)"

definition rq_getClient :: "string \<Rightarrow> string \<Rightarrow> request" where
  "rq_getClient api i = http_get (api @ ''/clients/'' @ i)"

definition rq_deleteClient :: "string \<Rightarrow> string \<Rightarrow> request" where
  "rq_deleteClient api i = http_delete (api @ ''/clients/'' @ i)"

definition rq_addClient :: "string \<Rightarrow> string \<Rightarrow> string \<Rightarrow> js \<Rightarrow> request" where
  "rq_addClient api vpn clientId purposes =
     http_post (api @ ''/clients'')
       (JObj [(''vpn'', JStr vpn), (''clientId'', JStr clientId), (''purposes'', purposes)])"

fun client_effect :: "string \<Rightarrow> client_action \<Rightarrow> client_action effect" where
  "client_effect api (StartGetAllClients vpn) =
     Some (rq_getAllClients api vpn, settle (\<lambda>content. Some (CompleteGetAllClients content)) ErrorGetAllClients)"
| "client_effect api (StartGetClient i) =
     Some (rq_getClient api i, settle (\<lambda>content. Some (CompleteGetClient content)) ErrorGetClient)"
| "client_effect api (StartDeleteClient i) =
     Some (rq_deleteClient api i, settle (\<lambda>content. Some (CompleteDeleteClient i)) ErrorDeleteClient)"
| "client_effect api (StartAddClient vpn clientId purposes) =
     Some (rq_addClient api vpn clientId purposes,
           settle (\<lambda>content. map_option (\<lambda>k. CompleteAddClient k vpn clientId purposes) (js_get content ''Id''))
             ErrorAddClient)"
| "client_effect api _ = None"

definition new_ClientResult :: js where
  "new_ClientResult = JObj [(''id'', JStr ''''), (''vpn'', JStr ''''), (''clientId'', JStr ''''),
     (''createDateTime'', Null), (''purposes'', JArr []), (''sessions'', JArr [])]"

definition added_client :: "js \<Rightarrow> js \<Rightarrow> string \<Rightarrow> string \<Rightarrow> js \<Rightarrow> js" where
  "added_client now i vpn clientId purposes =
     js_set ''createDateTime'' now (js_set ''purposes'' purposes (js_set ''clientId'' (JStr clientId)
       (js_set ''vpn'' (JStr vpn) (js_set ''id'' i new_ClientResult))))"

record client_lst_state =
  ClientLst :: "js list"

record client_state =
  Client :: js

definition initialClientLstState :: client_lst_state where
  "initialClientLstState = \<lparr>ClientLst = []\<rparr>"

definition initialClientState :: client_state where
  "initialClientState = \<lparr>Client = Null\<rparr>"

fun clientLstReducer :: "js \<Rightarrow> client_action \<Rightarrow> client_lst_state \<Rightarrow> client_lst_state res" where
  "clientLstReducer now (CompleteGetAllClients content) s =
     map_option (\<lambda>c. s\<lparr>ClientLst := c\<rparr>) (js_spread content)"
| "clientLstReducer now (CompleteAddClient i vpn clientId purposes) s =
     Some (s\<lparr>ClientLst := clone_list (ClientLst s) @ [added_client now i vpn clientId purposes]\<rparr>)"
| "clientLstReducer now (CompleteDeleteClient i) s =
     map_option (\<lambda>l. s\<lparr>ClientLst := l\<rparr>) (js_filterM (prop_is_not ''id'' (JStr i)) (clone_list (ClientLst s)))"
| "clientLstReducer now _ s = Some s"

fun clientReducer :: "client_action \<Rightarrow> client_state \<Rightarrow> client_state" where
  "clientReducer (CompleteGetClient content) s = s\<lparr>Client := obj_spread content\<rparr>"
| "clientReducer _ s = s"

section \<open>Application domains\<close>

datatype domain_action =
    StartGetAppDomain string
  | CompleteGetAppDomain js
  | ErrorGetAppDomain
  | StartGetAllAppDomains string
  | CompleteGetAllAppDomains js
  | ErrorGetAllAppDomains
  | StartAddAppDomain string string string string
  | CompleteAddAppDomain js string string string
  | ErrorAddAppDomain
  | StartDeleteAppDomain string
  | CompleteDeleteAppDomain string
  | ErrorDeleteAppDomain
  | UpdateApplicationDomain string js
  | CompleteUpdateApplicationDomain string js
  | ErrorUpdateApplicationDomain

text \<open>The arguments of \<open>StartAddAppDomain\<close> are vpn, name, description and root topic.\<close>

definition rq_addAppDomain :: "string \<Rightarrow> string \<Rightarrow> string \<Rightarrow> string \<Rightarrow> string \<Rightarrow> request" where
  "rq_addAppDomain api vpn name description rootTopic =
     http_post (api @ ''/domains'')
       (JObj [(''vpn'', JStr vpn), (''name'', JStr name), (''description'', JStr description),
              (''rootTopic'', JStr rootTopic)])"

definition rq_updateApplicationDomain :: "string \<Rightarrow> string \<Rightarrow> js \<Rightarrow> request" where
  "rq_updateApplicationDomain api i applications =
     http_put (api @ ''/domains/'' @ i) (JObj [(''applications'', applications)])"

definition rq_deleteApplicationDomain :: "string \<Rightarrow> string \<Rightarrow> request" where
  "rq_deleteApplicationDomain api i = http_delete (api @ ''/domains/'' @ i)"

definition rq_getAppDomains :: "string \<Rightarrow> string \<Rightarrow> request" where
  "rq_getAppDomains api vpn = http_get (api @ ''/domains/.search/'' @ vpn)"

definition rq_getAppDomain :: "string \<Rightarrow> string \<Rightarrow> request" where
  "rq_getAppDomain api i = http_get (api @ ''/domains/'' @ i)"

text \<open>The effect passes the root topic where the service expects the name, and so on.\<close>

fun domain_effect :: "string \<Rightarrow> domain_action \<Rightarrow> domain_action effect" where
  "domain_effect api (StartGetAppDomain i) =
     Some (rq_getAppDomain api i, settle (\<lambda>content. Some (CompleteGetAppDomain content)) ErrorGetAppDomain)"
| "domain_effect api (StartGetAllAppDomains vpn) =
     Some (rq_getAppDomains api vpn,
           settle (\<lambda>content. Some (CompleteGetAllAppDomains content)) ErrorGetAllAppDomains)"
| "domain_effect api (StartAddAppDomain vpn name description rootTopic) =
     Some (rq_addAppDomain api vpn rootTopic name description,
           settle (\<lambda>content. map_option (\<lambda>k. CompleteAddAppDomain k name description rootTopic) (js_get content ''Id''))
             ErrorAddAppDomain)"
| "domain_effect api (StartDeleteAppDomain i) =
     Some (rq_deleteApplicationDomain api i,
           settle (\<lambda>content. Some (CompleteDeleteAppDomain i)) ErrorDeleteAppDomain)"
| "domain_effect api (UpdateApplicationDomain i applications) =
     Some (rq_updateApplicationDomain api i applications,
           settle (\<lambda>content. Some (CompleteUpdateApplicationDomain i applications)) ErrorUpdateApplicationDomain)"
| "domain_effect api _ = None"

definition new_AppDomainResult :: js where
  "new_AppDomainResult = JObj [(''id'', JStr ''''), (''name'', JStr ''''), (''description'', JStr ''''),
     (''rootTopic'', JStr ''''), (''createDateTime'', Null), (''updateDateTime'', Null), (''applications'', JArr [])]"

definition added_domain :: "js \<Rightarrow> js \<Rightarrow> string \<Rightarrow> string \<Rightarrow> string \<Rightarrow> js" where
  "added_domain now i name description rootTopic =
     js_set ''updateDateTime'' now (js_set ''createDateTime'' now (js_set ''rootTopic'' (JStr rootTopic)
       (js_set ''description'' (JStr description) (js_set ''name'' (JStr name) (js_set ''id'' i new_AppDomainResult)))))"

record domains_state =
  ApplicationDomains :: "js list"

record domain_state =
  ApplicationDomain :: js

definition initialApplicationDomainsState :: domains_state where
  "initialApplicationDomainsState = \<lparr>ApplicationDomains = []\<rparr>"

definition initialApplicationDomainState :: domain_state where
  "initialApplicationDomainState = \<lparr>ApplicationDomain = Null\<rparr>"

fun applicationDomainsReducer :: "js \<Rightarrow> domain_action \<Rightarrow> domains_state \<Rightarrow> domains_state res" where
  "applicationDomainsReducer now (CompleteGetAllAppDomains content) s =
     map_option (\<lambda>c. s\<lparr>ApplicationDomains := c\<rparr>) (js_spread content)"
| "applicationDomainsReducer now (CompleteAddAppDomain i name description rootTopic) s =
     Some (s\<lparr>ApplicationDomains := clone_list (ApplicationDomains s) @ [added_domain now i name description rootTopic]\<rparr>)"
| "applicationDomainsReducer now (CompleteDeleteAppDomain i) s =
     map_option (\<lambda>l. s\<lparr>ApplicationDomains := l\<rparr>)
       (js_filterM (prop_is_not ''id'' (JStr i)) (clone_list (ApplicationDomains s)))"
| "applicationDomainsReducer now _ s = Some s"

fun applicationDomainReducer :: "domain_action \<Rightarrow> domain_state \<Rightarrow> domain_state" where
  "applicationDomainReducer (CompleteGetAppDomain content) s = s\<lparr>ApplicationDomain := obj_spread content\<rparr>"
| "applicationDomainReducer _ s = s"

section \<open>Message definitions\<close>

datatype message_action =
    GetLatestMessages string
  | CompleteGetLatestMessages js
  | ErrorGetLatestMessages
  | AddMessageDefinition string string string string
  | CompleteAddMessageDefinition js string string string string
  | ErrorAddMessageDefinition
  | UpdateMessageDefinition string string string
  | CompleteUpdateMessageDefinition string string string
  | ErrorUpdateMessageDefinition
  | PublishMessageDefinition string string
  | CompletePublishMessageDefinition string js
  | ErrorPublishMessageDefinition

definition rq_getLatestMessagesDef :: "string \<Rightarrow> string \<Rightarrow> request" where
  "rq_getLatestMessagesDef api appDomainId = http_get (api @ ''/messagedefs/.search/'' @ appDomainId @ ''/latest'')"

definition rq_addMessageDef :: "string \<Rightarrow> string \<Rightarrow> string \<Rightarrow> string \<Rightarrow> string \<Rightarrow> request" where
  "rq_addMessageDef api applicationDomainId name description jsonSchema =
     http_post (api @ ''/messagedefs'')
       (JObj [(''applicationDomainId'', JStr applicationDomainId), (''name'', JStr name),
              (''description'', JStr description), (''jsonSchema'', JStr jsonSchema)])"

definition rq_updateMessageDef :: "string \<Rightarrow> string \<Rightarrow> string \<Rightarrow> string \<Rightarrow> request" where
  "rq_updateMessageDef api i description jsonSchema =
     http_put (api @ ''/messagedefs/'' @ i)
       (JObj [(''description'', JStr description), (''jsonSchema'', JStr jsonSchema)])"

definition rq_publishMessageDef :: "string \<Rightarrow> string \<Rightarrow> request" where
  "rq_publishMessageDef api i = http_get (api @ ''/messagedefs/'' @ i @ ''/publish'')"

fun message_effect :: "string \<Rightarrow> message_action \<Rightarrow> message_action effect" where
  "message_effect api (GetLatestMessages appDomainId) =
     Some (rq_getLatestMessagesDef api appDomainId,
           settle (\<lambda>content. Some (CompleteGetLatestMessages content)) ErrorGetLatestMessages)"
| "message_effect api (AddMessageDefinition appDomainId name description jsonSchema) =
     Some (rq_addMessageDef api appDomainId name description jsonSchema,
           settle (\<lambda>content. map_option (\<lambda>k. CompleteAddMessageDefinition k appDomainId name description jsonSchema)
                     (js_get content ''Id'')) ErrorAddMessageDefinition)"
| "message_effect api (UpdateMessageDefinition i description jsonSchema) =
     Some (rq_updateMessageDef api i description jsonSchema,
           settle (\<lambda>content. Some (CompleteUpdateMessageDefinition i description jsonSchema)) ErrorUpdateMessageDefinition)"
| "message_effect api (PublishMessageDefinition i messageName) =
     Some (rq_publishMessageDef api i,
           settle (\<lambda>content. map_option (CompletePublishMessageDefinition i) (js_get content ''Id''))
             ErrorPublishMessageDefinition)"
| "message_effect api _ = None"

definition new_MessageDefinitionResult :: js where
  "new_MessageDefinitionResult = JObj [(''id'', JStr ''''), (''name'', JStr ''''), (''description'', JStr ''''),
     (''version'', JNum 0), (''createDateTime'', Null), (''updateDateTime'', Null), (''jsonSchema'', JStr '''')]"

definition added_message :: "js \<Rightarrow> js \<Rightarrow> string \<Rightarrow> string \<Rightarrow> string \<Rightarrow> js" where
  "added_message now i name description jsonSchema =
     js_set ''updateDateTime'' now (js_set ''createDateTime'' now (js_set ''jsonSchema'' (JStr jsonSchema)
       (js_set ''version'' (JNum 0) (js_set ''description'' (JStr description)
         (js_set ''name'' (JStr name) (js_set ''id'' i new_MessageDefinitionResult))))))"

text \<open>\<open>v + 1\<close>, where the code expects a number; a string would be extended.\<close>

fun js_succ :: "js \<Rightarrow> js" where
  "js_succ (JNum n) = JNum (n + 1)"
| "js_succ (JStr s) = JStr (s @ ''1'')"
| "js_succ v = v"

definition updated_message :: "js \<Rightarrow> string \<Rightarrow> string \<Rightarrow> js \<Rightarrow> js" where
  "updated_message now description jsonSchema m =
     js_set ''jsonSchema'' (JStr jsonSchema) (js_set ''description'' (JStr description) (js_set ''updateDateTime'' now m))"

definition published_message :: "js \<Rightarrow> js \<Rightarrow> js \<Rightarrow> js" where
  "published_message now newId m =
     js_set ''updateDateTime'' now (js_set ''createDateTime'' now
       (js_set ''version'' (js_succ (key_of ''version'' m))
         (js_set ''jsonSchema'' (key_of ''jsonSchema'' m) (js_set ''description'' (key_of ''description'' m)
           (js_set ''id'' newId m)))))"

record messages_state =
  MessageDefinitionLst :: "js list"

definition initialMessageDefinitionLstState :: messages_state where
  "initialMessageDefinitionLstState = \<lparr>MessageDefinitionLst = []\<rparr>"

text \<open>
  \<open>const m = lst.filter(m => m.id === id)[0]; m.f = ...\<close>: the first record with the id is changed
  in place, and the assignment throws if there is none.
\<close>

definition change_by_id :: "string \<Rightarrow> (js \<Rightarrow> js) \<Rightarrow> js list \<Rightarrow> js list res" where
  "change_by_id i f lst = do {
     ms \<leftarrow> js_filterM (prop_is ''id'' (JStr i)) lst;
     if ms = [] then TypeError
     else Some (update_first (\<lambda>m. prop_is ''id'' (JStr i) m = Some True) f lst)
   }"

fun messageDefLstReducer :: "js \<Rightarrow> message_action \<Rightarrow> messages_state \<Rightarrow> messages_state res" where
  "messageDefLstReducer now (CompleteGetLatestMessages content) s =
     map_option (\<lambda>c. s\<lparr>MessageDefinitionLst := c\<rparr>) (js_spread content)"
| "messageDefLstReducer now (CompleteAddMessageDefinition i appDomainId name description jsonSchema) s =
     Some (s\<lparr>MessageDefinitionLst :=
             clone_list (MessageDefinitionLst s) @ [added_message now i name description jsonSchema]\<rparr>)"
| "messageDefLstReducer now (CompleteUpdateMessageDefinition i description jsonSchema) s =
     map_option (\<lambda>l. s\<lparr>MessageDefinitionLst := l\<rparr>)
       (change_by_id i (updated_message now description jsonSchema) (clone_list (MessageDefinitionLst s)))"
| "messageDefLstReducer now (CompletePublishMessageDefinition i newId) s =
     map_option (\<lambda>l. s\<lparr>MessageDefinitionLst := l\<rparr>)
       (change_by_id i (published_message now newId) (clone_list (MessageDefinitionLst s)))"
| "messageDefLstReducer now _ s = Some s"

section \<open>The list stores refine maps\<close>

text \<open>
  The operations that complete an addition or a deletion, as instances of the contract of a keyed
  store: a record is described by the arguments of its action and the time of its creation.
\<close>

definition dated :: "js \<Rightarrow> bool" where
  "dated now \<longleftrightarrow> is_prim now \<and> now \<noteq> Undef"

definition put_vpn :: "js \<times> string \<times> string \<Rightarrow> vpn_lst_state \<Rightarrow> vpn_lst_state res" where
  "put_vpn = (\<lambda>(now, n, d). vpnLstReducer now (CompleteAddVpn n d))"

definition put_client :: "js \<times> string \<times> string \<times> string \<times> js \<Rightarrow> client_lst_state \<Rightarrow> client_lst_state res" where
  "put_client = (\<lambda>(now, i, v, c, p). clientLstReducer now (CompleteAddClient (JStr i) v c p))"

definition put_domain :: "js \<times> string \<times> string \<times> string \<times> string \<Rightarrow> domains_state \<Rightarrow> domains_state res" where
  "put_domain = (\<lambda>(now, i, n, d, t). applicationDomainsReducer now (CompleteAddAppDomain (JStr i) n d t))"

lemma dated_clone: "dated now \<Longrightarrow> json_clone now = now"
  by (cases now) (simp_all add: dated_def)

interpretation vpns: keyed_store VpnLst "''name''" "\<lambda>(now, n, d). added_vpn now n d" put_vpn
  "\<lambda>k. vpnLstReducer Null (CompleteDeleteVpn k)" "\<lambda>(now, n, d). dated now"
  by unfold_locales (auto simp: added_vpn_def new_VpnResult_def put_vpn_def dated_clone dated_def
      clone_records filterM_records)

interpretation clients: keyed_store ClientLst "''id''" "\<lambda>(now, i, v, c, p). added_client now (JStr i) v c p" put_client
  "\<lambda>k. clientLstReducer Null (CompleteDeleteClient k)"
  "\<lambda>(now, i, v, c, p). dated now \<and> p \<noteq> Undef \<and> json_clone p = p"
  by unfold_locales (auto simp: added_client_def new_ClientResult_def put_client_def dated_clone dated_def
      clone_records filterM_records)

interpretation domains: keyed_store ApplicationDomains "''id''" "\<lambda>(now, i, n, d, t). added_domain now (JStr i) n d t"
  put_domain "\<lambda>k. applicationDomainsReducer Null (CompleteDeleteAppDomain k)" "\<lambda>(now, i, n, d, t). dated now"
  by unfold_locales (auto simp: added_domain_def new_AppDomainResult_def put_domain_def dated_clone dated_def
      clone_records filterM_records)

text \<open>The specification of the list of vpns: a map from names to records.\<close>

fun vpn_spec :: "js \<Rightarrow> vpn_action \<Rightarrow> (js \<Rightarrow> js option) \<Rightarrow> js \<Rightarrow> js option" where
  "vpn_spec now (CompleteGetAllVpn (JArr xs)) m = as_map ''name'' xs"
| "vpn_spec now (CompleteAddVpn n d) m = m(JStr n \<mapsto> added_vpn now n d)"
| "vpn_spec now (CompleteDeleteVpn n) m = m(JStr n := None)"
| "vpn_spec now _ m = m"

text \<open>A loaded list has one record per name, and an added name is new: the server checks it.\<close>

fun vpn_allowed :: "vpn_action \<Rightarrow> (js \<Rightarrow> js option) \<Rightarrow> bool" where
  "vpn_allowed (CompleteGetAllVpn c) m = (case c of JArr xs \<Rightarrow> keyed ''name'' xs | _ \<Rightarrow> False)"
| "vpn_allowed (CompleteAddVpn n d) m = (m (JStr n) = None)"
| "vpn_allowed _ m = True"

fun all_allowed :: "js \<Rightarrow> vpn_action list \<Rightarrow> (js \<Rightarrow> js option) \<Rightarrow> bool" where
  "all_allowed now [] m = True"
| "all_allowed now (a # as) m = (vpn_allowed a m \<and> all_allowed now as (vpn_spec now a m))"

fun vpn_run :: "js \<Rightarrow> vpn_action list \<Rightarrow> vpn_lst_state \<Rightarrow> vpn_lst_state res" where
  "vpn_run now [] s = Some s"
| "vpn_run now (a # as) s = Option.bind (vpnLstReducer now a s) (vpn_run now as)"

lemma vpn_step:
  assumes "dated now" and "keyed ''name'' (VpnLst s)" and "vpn_allowed a (as_map ''name'' (VpnLst s))"
  shows "\<exists>s'. vpnLstReducer now a s = Some s' \<and> keyed ''name'' (VpnLst s') \<and>
    as_map ''name'' (VpnLst s') = vpn_spec now a (as_map ''name'' (VpnLst s))"
proof (cases a)
  case (CompleteGetAllVpn c)
  then show ?thesis using assms(3) by (cases c) auto
next
  case (CompleteAddVpn n d)
  have k: "key_of ''name'' (added_vpn now n d) = JStr n" by (simp add: added_vpn_def new_VpnResult_def)
  show ?thesis
    using vpns.put_refines [of s "(now, n, d)"] assms CompleteAddVpn k
    by (simp add: vpns.valid_def vpns.view_def put_vpn_def)
next
  case (CompleteDeleteVpn n)
  then show ?thesis
    using vpns.del_refines [of s n] assms by (simp add: vpns.valid_def vpns.view_def)
qed (use assms in simp_all)



text \<open>
  The lists of clients and of application domains refine maps from ids to records: completing an
  addition under a new id adds exactly one record and completing a deletion removes exactly one.
\<close>

theorem client_and_domain_lists_refine_maps:
  assumes "dated now" and "keyed ''id'' (ClientLst c)" and "keyed ''id'' (ApplicationDomains a)"
    and "as_map ''id'' (ClientLst c) (JStr i) = None" and "as_map ''id'' (ApplicationDomains a) (JStr i) = None"
  shows "(\<exists>c'. clientLstReducer now (CompleteAddClient (JStr i) v cid (JArr [])) c = Some c' \<and> keyed ''id'' (ClientLst c') \<and>
            as_map ''id'' (ClientLst c') = (as_map ''id'' (ClientLst c))(JStr i \<mapsto> added_client now (JStr i) v cid (JArr []))) \<and>
         (\<exists>c'. clientLstReducer now (CompleteDeleteClient k) c = Some c' \<and> keyed ''id'' (ClientLst c') \<and>
            as_map ''id'' (ClientLst c') = (as_map ''id'' (ClientLst c))(JStr k := None)) \<and>
         (\<exists>a'. applicationDomainsReducer now (CompleteAddAppDomain (JStr i) n d t) a = Some a' \<and>
            keyed ''id'' (ApplicationDomains a') \<and> as_map ''id'' (ApplicationDomains a') =
              (as_map ''id'' (ApplicationDomains a))(JStr i \<mapsto> added_domain now (JStr i) n d t)) \<and>
         (\<exists>a'. applicationDomainsReducer now (CompleteDeleteAppDomain k) a = Some a' \<and>
            keyed ''id'' (ApplicationDomains a') \<and> as_map ''id'' (ApplicationDomains a') =
              (as_map ''id'' (ApplicationDomains a))(JStr k := None))"
proof -
  have k: "key_of ''id'' (added_client now (JStr i) v cid (JArr [])) = JStr i"
    "key_of ''id'' (added_domain now (JStr i) n d t) = JStr i"
    by (simp_all add: added_client_def new_ClientResult_def added_domain_def new_AppDomainResult_def)
  show ?thesis
  proof (intro conjI)
    show "\<exists>c'. clientLstReducer now (CompleteAddClient (JStr i) v cid (JArr [])) c = Some c' \<and> keyed ''id'' (ClientLst c') \<and>
        as_map ''id'' (ClientLst c') = (as_map ''id'' (ClientLst c))(JStr i \<mapsto> added_client now (JStr i) v cid (JArr []))"
      using clients.put_refines [of c "(now, i, v, cid, JArr [])"] assms k
      by (simp add: clients.valid_def clients.view_def put_client_def)
    show "\<exists>c'. clientLstReducer now (CompleteDeleteClient k) c = Some c' \<and> keyed ''id'' (ClientLst c') \<and>
        as_map ''id'' (ClientLst c') = (as_map ''id'' (ClientLst c))(JStr k := None)"
      using clients.del_refines [of c k] assms by (simp add: clients.valid_def clients.view_def)
    show "\<exists>a'. applicationDomainsReducer now (CompleteAddAppDomain (JStr i) n d t) a = Some a' \<and>
        keyed ''id'' (ApplicationDomains a') \<and> as_map ''id'' (ApplicationDomains a') =
          (as_map ''id'' (ApplicationDomains a))(JStr i \<mapsto> added_domain now (JStr i) n d t)"
      using domains.put_refines [of a "(now, i, n, d, t)"] assms k
      by (simp add: domains.valid_def domains.view_def put_domain_def)
    show "\<exists>a'. applicationDomainsReducer now (CompleteDeleteAppDomain k) a = Some a' \<and>
        keyed ''id'' (ApplicationDomains a') \<and> as_map ''id'' (ApplicationDomains a') =
          (as_map ''id'' (ApplicationDomains a))(JStr k := None)"
      using domains.del_refines [of a k] assms by (simp add: domains.valid_def domains.view_def)
  qed
qed

theorem client_and_domain_lists_refine_maps_witness:
  "\<exists>c'. clientLstReducer (JStr ''now'') (CompleteAddClient (JStr ''1'') ''v'' ''c'' (JArr [])) initialClientLstState = Some c' \<and>
     keyed ''id'' (ClientLst c')"
  using client_and_domain_lists_refine_maps [of "JStr ''now''" initialClientLstState initialApplicationDomainsState
      "''1''" "''v''" "''c''" "''k''" "''n''" "''d''" "''t''"]
  by (auto simp: dated_def keyed_def initialClientLstState_def initialApplicationDomainsState_def as_map_def)

section \<open>Changing a message definition\<close>

lemma update_first_unique:
  "distinct (map f xs) \<Longrightarrow> update_first (\<lambda>x. f x = k) g xs = map (\<lambda>x. if f x = k then g x else x) xs"
proof (induction xs)
  case (Cons x xs)
  show ?case
  proof (cases "f x = k")
    case True
    with Cons.prems have "\<forall>y \<in> set xs. f y \<noteq> k" by (auto simp: image_iff)
    then show ?thesis using True by (auto intro!: map_idI [symmetric])
  next
    case False
    with Cons show ?thesis by simp
  qed
qed simp

lemma change_by_id_keyed:
  assumes "keyed ''id'' xs"
  shows "change_by_id i f xs =
    (if JStr i \<in> set (map (key_of ''id'') xs) then Some (map (\<lambda>x. if key_of ''id'' x = JStr i then f x else x) xs) else None)"
proof -
  have rec: "list_all is_record xs" using assms by (simp add: keyed_def)
  have "update_first (\<lambda>m. prop_is ''id'' (JStr i) m = Some True) f ys = update_first (\<lambda>m. key_of ''id'' m = JStr i) f ys"
    if "list_all is_record ys" for ys
    using that by (induction ys) (auto simp: prop_is_def js_get_record)
  then have "update_first (\<lambda>m. prop_is ''id'' (JStr i) m = Some True) f xs =
      map (\<lambda>x. if key_of ''id'' x = JStr i then f x else x) xs"
    using rec assms update_first_unique [of "key_of ''id''" xs] by (simp add: keyed_def)
  then show ?thesis
    by (force simp: change_by_id_def filterM_records(2) [OF rec] filter_empty_conv image_iff)
qed

text \<open>
  Completing the publication of a message definition gives exactly the record with the old id
  its new id and the next version number, and leaves every other record as it is; if no record has
  the old id, the reducer throws.
\<close>

theorem publish_changes_one_record:
  assumes "keyed ''id'' (MessageDefinitionLst s)"
  shows "messageDefLstReducer now (CompletePublishMessageDefinition i newId) s =
     (if JStr i \<in> set (map (key_of ''id'') (MessageDefinitionLst s))
      then Some \<lparr>MessageDefinitionLst = map (\<lambda>m. if key_of ''id'' m = JStr i then published_message now newId m else m)
                  (MessageDefinitionLst s)\<rparr>
      else None) \<and>
     (\<forall>m \<in> set (MessageDefinitionLst s). \<forall>v. key_of ''version'' m = JNum v \<longrightarrow>
        key_of ''id'' (published_message now newId m) = newId \<and>
        key_of ''version'' (published_message now newId m) = JNum (v + 1) \<and>
        key_of ''name'' (published_message now newId m) = key_of ''name'' m)"
proof (intro conjI ballI allI impI)
  have "clone_list (MessageDefinitionLst s) = MessageDefinitionLst s"
    using assms by (simp add: clone_records keyed_def)
  then show "messageDefLstReducer now (CompletePublishMessageDefinition i newId) s =
     (if JStr i \<in> set (map (key_of ''id'') (MessageDefinitionLst s))
      then Some \<lparr>MessageDefinitionLst = map (\<lambda>m. if key_of ''id'' m = JStr i then published_message now newId m else m)
                  (MessageDefinitionLst s)\<rparr>
      else None)"
    by (simp add: change_by_id_keyed [OF assms])
next
  fix m v
  assume "m \<in> set (MessageDefinitionLst s)" and v: "key_of ''version'' m = JNum v"
  have "\<exists>kvs. m = JObj kvs" using v by (cases m rule: js.exhaust) simp_all
  then obtain kvs where "m = JObj kvs" ..
  then show "key_of ''id'' (published_message now newId m) = newId"
    "key_of ''version'' (published_message now newId m) = JNum (v + 1)"
    "key_of ''name'' (published_message now newId m) = key_of ''name'' m"
    using v by (simp_all add: published_message_def)
qed

definition example_messages :: messages_state where
  "example_messages = \<lparr>MessageDefinitionLst = [JObj [(''id'', JStr ''1''), (''name'', JStr ''m''), (''version'', JNum 0)]]\<rparr>"

theorem publish_changes_one_record_witness:
  "messageDefLstReducer Null (CompletePublishMessageDefinition ''2'' (JStr ''3'')) example_messages = None"
  using publish_changes_one_record [of example_messages Null "''2''" "JStr ''3''"]
  by (simp add: example_messages_def keyed_def)

end
