(* ===== verification/Store_Workflows.thy ===== *)
theory Store_Workflows
  imports Store_Core
begin

text \<open>
  The stores of functions, state machines, state machine instances, event mesh servers and the
  server status (src/stores/functions, statemachines, statemachineinstances, eventmeshservers,
  server): actions, requests, effects and reducers. \<open>yaml\<close> is the printer of the package yaml.
\<close>

text \<open>\<open>new SearchResult()\<close>: the fields without a value are not yet properties of the object.\<close>

definition new_SearchResult :: js where
  "new_SearchResult = JObj [(''startIndex'', Undef), (''totalLength'', Undef), (''count'', Undef), (''content'', JArr [])]"

section \<open>Functions\<close>

datatype function_action =
    StartSearchFunctions string string int int
  | CompleteSearchFunctions js
  | ErrorSearchFunctions
  | StartGetConfiguration string
  | CompleteGetConfiguration js
  | ErrorGetConfiguration
  | StartInvoke string js
  | CompleteInvoke js
  | ErrorInvoke
  | StartGetFunction string
  | CompleteGetFunction js
  | ErrorGetFunction
  | StartDeleteFunction string
  | CompleteDeleteFunction
  | ErrorDeleteFunction
  | StartAddFunction string string string string
  | CompleteAddFunction string string string string
  | ErrorAddFunction
  | StartGetThreads string rat rat
  | CompleteGetThreads js
  | ErrorGetThreads
  | StartGetVirtualMemoryBytes string rat rat
  | CompleteGetVirtualMemoryBytes js
  | ErrorGetVirtualMemoryBytes
  | StartGetCpuUsage string rat rat int
  | CompleteGetCpuUsage js
  | ErrorGetCpuUsage
  | StartGetRequestDuration string rat rat int
  | CompleteGetRequestDuration js
  | ErrorGetRequestDuration
  | StartGetDetails string
  | CompleteGetDetails js
  | ErrorGetDetails
  | StartGetTotalRequests string rat
  | CompleteGetTotalRequests js
  | ErrorGetTotalRequests

definition rq_searchFunctions :: "string \<Rightarrow> int \<Rightarrow> int \<Rightarrow> string \<Rightarrow> string \<Rightarrow> request" where
  "rq_searchFunctions api startIndex count order direction =
     http_post (api @ ''/functions/.search'')
       (JObj [(''startIndex'', JNum (of_int startIndex)), (''count'', JNum (of_int count)),
              (''orderBy'', JStr order), (''order'', JStr direction)])"

definition rq_getConfiguration :: "string \<Rightarrow> string \<Rightarrow> request" where
  "rq_getConfiguration api name = accepting (http_get (api @ ''/functions/'' @ name @ ''/configuration''))"

definition rq_invoke :: "string \<Rightarrow> string \<Rightarrow> js \<Rightarrow> request" where
  "rq_invoke api name r = http_post (api @ ''/functions/'' @ name @ ''/invoke'') r"

definition rq_getFunction :: "string \<Rightarrow> string \<Rightarrow> request" where
  "rq_getFunction api name = accepting (http_get (api @ ''/functions/'' @ name))"

definition rq_deleteFunction :: "string \<Rightarrow> string \<Rightarrow> request" where
  "rq_deleteFunction api name = accepting (http_delete (api @ ''/functions/'' @ name))"

definition rq_addFunction :: "string \<Rightarrow> string \<Rightarrow> string \<Rightarrow> string \<Rightarrow> string \<Rightarrow> request" where
  "rq_addFunction api name description img version =
     http_post (api @ ''/functions'')
       (JObj [(''name'', JStr name), (''description'', JStr description), (''image'', JStr img), (''version'', JStr version)])"

definition rq_range :: "string \<Rightarrow> string \<Rightarrow> string \<Rightarrow> rat \<Rightarrow> rat \<Rightarrow> request" where
  "rq_range api name query startDate endDate =
     accepting (http_get (api @ ''/functions/'' @ name @ ''/monitoring/range?query='' @ query @ ''&start='' @
       seconds_dec startDate @ ''&end='' @ seconds_dec endDate @ ''&step=14''))"

definition rq_getThreads :: "string \<Rightarrow> string \<Rightarrow> rat \<Rightarrow> rat \<Rightarrow> request" where
  "rq_getThreads api name startDate endDate =
     rq_range api name (''process_num_threads{job=%22'' @ name @ ''%22}'') startDate endDate"

definition rq_getVirtualMemoryBytes :: "string \<Rightarrow> string \<Rightarrow> rat \<Rightarrow> rat \<Rightarrow> request" where
  "rq_getVirtualMemoryBytes api name startDate endDate =
     rq_range api name (''process_virtual_memory_bytes{job=%22'' @ name @ ''%22}'') startDate endDate"

definition apostrophe :: string where
  "apostrophe = [CHR 0x27]"

definition rq_getCpuUsage :: "string \<Rightarrow> string \<Rightarrow> rat \<Rightarrow> rat \<Rightarrow> int \<Rightarrow> request" where
  "rq_getCpuUsage api name startDate endDate duration =
     rq_range api name (''avg(rate(process_cpu_seconds_total{job='' @ apostrophe @ name @ apostrophe @ ''}['' @
       int_dec duration @ ''m]))'') startDate endDate"

definition rq_getRequestDuration :: "string \<Rightarrow> string \<Rightarrow> rat \<Rightarrow> rat \<Rightarrow> int \<Rightarrow> request" where
  "rq_getRequestDuration api name startDate endDate duration =
     rq_range api name (''avg(rate(request_duration_seconds_bucket{job='' @ apostrophe @ name @ apostrophe @ ''}['' @
       int_dec duration @ ''m]))'') startDate endDate"

definition rq_getDetails :: "string \<Rightarrow> string \<Rightarrow> request" where
  "rq_getDetails api name = accepting (http_get (api @ ''/functions/'' @ name @ ''/details''))"

definition rq_getTotalRequests :: "string \<Rightarrow> string \<Rightarrow> rat \<Rightarrow> request" where
  "rq_getTotalRequests api name startDate =
     accepting (http_get (api @ ''/functions/'' @ name @ ''/monitoring?query=total_requests&time='' @ seconds_dec startDate))"

text \<open>The arguments of \<open>StartSearchFunctions\<close> are order, direction, count and start index.\<close>

fun function_effect :: "string \<Rightarrow> function_action \<Rightarrow> function_action effect" where
  "function_effect api (StartSearchFunctions order direction count startIndex) =
     Some (rq_searchFunctions api startIndex count order direction,
           settle (\<lambda>content. Some (CompleteSearchFunctions content)) ErrorSearchFunctions)"
| "function_effect api (StartGetConfiguration name) =
     Some (rq_getConfiguration api name, settle (\<lambda>content. Some (CompleteGetConfiguration content)) ErrorGetConfiguration)"
| "function_effect api (StartInvoke name r) =
     Some (rq_invoke api name r, settle (\<lambda>content. Some (CompleteInvoke content)) ErrorInvoke)"
| "function_effect api (StartGetFunction name) =
     Some (rq_getFunction api name, settle (\<lambda>content. Some (CompleteGetFunction content)) ErrorGetFunction)"
| "function_effect api (StartDeleteFunction name) =
     Some (rq_deleteFunction api name, settle (\<lambda>content. Some CompleteDeleteFunction) ErrorDeleteFunction)"
| "function_effect api (StartAddFunction name description img version) =
     Some (rq_addFunction api name description img version,
           settle (\<lambda>content. Some (CompleteAddFunction name description img version)) ErrorAddFunction)"
| "function_effect api (StartGetThreads name s e) =
     Some (rq_getThreads api name s e, settle (\<lambda>content. Some (CompleteGetThreads content)) ErrorGetThreads)"
| "function_effect api (StartGetVirtualMemoryBytes name s e) =
     Some (rq_getVirtualMemoryBytes api name s e,
           settle (\<lambda>content. Some (CompleteGetVirtualMemoryBytes content)) ErrorGetVirtualMemoryBytes)"
| "function_effect api (StartGetCpuUsage name s e duration) =
     Some (rq_getCpuUsage api name s e duration, settle (\<lambda>content. Some (CompleteGetCpuUsage content)) ErrorGetCpuUsage)"
| "function_effect api (StartGetRequestDuration name s e duration) =
     Some (rq_getRequestDuration api name s e duration,
           settle (\<lambda>content. Some (CompleteGetRequestDuration content)) ErrorGetRequestDuration)"
| "function_effect api (StartGetDetails name) =
     Some (rq_getDetails api name, settle (\<lambda>content. Some (CompleteGetDetails content)) ErrorGetDetails)"
| "function_effect api (StartGetTotalRequests name time) =
     Some (rq_getTotalRequests api name time,
           settle (\<lambda>content. Some (CompleteGetTotalRequests content)) ErrorGetTotalRequests)"
| "function_effect api _ = None"

record search_functions_state =
  Functions :: js

record function_state =
  Configuration :: js
  Function :: js
  Threads :: js
  VirtualMemoryBytes :: js
  CpuUsage :: js
  RequestDuration :: js
  Details :: js
  TotalRequests :: js

definition initialSearchFunctionsState :: search_functions_state where
  "initialSearchFunctionsState = \<lparr>Functions = new_SearchResult\<rparr>"

definition initialFunctionState :: function_state where
  "initialFunctionState = \<lparr>Configuration = Null, Function = Null, Threads = Null, VirtualMemoryBytes = Null,
     CpuUsage = Null, RequestDuration = Null, Details = Null, TotalRequests = Null\<rparr>"

fun searchFunctionsReducer :: "function_action \<Rightarrow> search_functions_state \<Rightarrow> search_functions_state" where
  "searchFunctionsReducer (CompleteSearchFunctions content) s = s\<lparr>Functions := obj_spread content\<rparr>"
| "searchFunctionsReducer _ s = s"

fun functionReducer :: "function_action \<Rightarrow> function_state \<Rightarrow> function_state" where
  "functionReducer (CompleteGetConfiguration content) s = s\<lparr>Configuration := obj_spread content\<rparr>"
| "functionReducer (CompleteGetFunction content) s = s\<lparr>Function := obj_spread content\<rparr>"
| "functionReducer (CompleteGetThreads content) s = s\<lparr>Threads := content\<rparr>"
| "functionReducer (CompleteGetVirtualMemoryBytes content) s = s\<lparr>VirtualMemoryBytes := content\<rparr>"
| "functionReducer (CompleteGetCpuUsage content) s = s\<lparr>CpuUsage := content\<rparr>"
| "functionReducer (CompleteGetRequestDuration content) s = s\<lparr>RequestDuration := content\<rparr>"
| "functionReducer (CompleteGetDetails content) s = s\<lparr>Details := content\<rparr>"
| "functionReducer (CompleteGetTotalRequests content) s = s\<lparr>TotalRequests := content\<rparr>"
| "functionReducer _ s = s"

section \<open>State machines\<close>

datatype sm_action =
    StartSearchStateMachines string string int int string
  | CompleteSearchStateMachines js
  | ErrorSearchStateMachines
  | StartGetJson string
  | CompleteGetJson js
  | ErrorGetJson
  | StartAddEmpty string string string
  | CompleteAddEmpty js
  | ErrorAddEmpty
  | StartUpdate string js
  | CompleteUpdate js
  | ErrorUpdate
  | StartLaunch string js js
  | CompleteLaunch js js
  | ErrorLaunch
  | StartUpdateInfo string string string
  | CompleteUpdateInfo string string string
  | ErrorUpdateInfo

definition search_body :: "int \<Rightarrow> int \<Rightarrow> string \<Rightarrow> string \<Rightarrow> string \<Rightarrow> js" where
  "search_body startIndex count order direction vpn =
     JObj [(''startIndex'', JNum (of_int startIndex)), (''count'', JNum (of_int count)),
           (''orderBy'', JStr order), (''order'', JStr direction), (''vpn'', JStr vpn)]"

definition rq_searchStateMachines :: "string \<Rightarrow> int \<Rightarrow> int \<Rightarrow> string \<Rightarrow> string \<Rightarrow> string \<Rightarrow> request" where
  "rq_searchStateMachines api startIndex count order direction vpn =
     http_post (api @ ''/statemachines/.search'') (search_body startIndex count order direction vpn)"

definition rq_getJson :: "string \<Rightarrow> string \<Rightarrow> request" where
  "rq_getJson api i = http_get (api @ ''/statemachines/'' @ i)"

definition rq_addEmpty :: "string \<Rightarrow> string \<Rightarrow> string \<Rightarrow> string \<Rightarrow> request" where
  "rq_addEmpty api name description vpn =
     http_post (api @ ''/statemachines/empty'')
       (JObj [(''name'', JStr name), (''description'', JStr description), (''vpn'', JStr vpn)])"

definition rq_update :: "(js \<Rightarrow> string) \<Rightarrow> string \<Rightarrow> string \<Rightarrow> js \<Rightarrow> request" where
  "rq_update yaml api i stateMachine =
     \<lparr>rq_method = PUT, rq_url = api @ ''/statemachines/'' @ i,
      rq_body = JStr (yaml (JObj [(''workflowDefinition'', stateMachine)])),
      rq_headers = [(''Content-Type'', ''text/yaml'')]\<rparr>"

definition rq_updateInfo :: "string \<Rightarrow> string \<Rightarrow> string \<Rightarrow> string \<Rightarrow> request" where
  "rq_updateInfo api i name description =
     http_put (api @ ''/statemachines/'' @ i @ ''/info'') (JObj [(''name'', JStr name), (''description'', JStr description)])"

definition rq_launch :: "string \<Rightarrow> string \<Rightarrow> js \<Rightarrow> js \<Rightarrow> request" where
  "rq_launch api i input parameters =
     http_post (api @ ''/statemachines/start'') (JObj [(''id'', JStr i), (''input'', input), (''parameters'', parameters)])"

fun sm_effect :: "(js \<Rightarrow> string) \<Rightarrow> string \<Rightarrow> sm_action \<Rightarrow> sm_action effect" where
  "sm_effect yaml api (StartSearchStateMachines order direction count startIndex vpn) =
     Some (rq_searchStateMachines api startIndex count order direction vpn,
           settle (\<lambda>content. Some (CompleteSearchStateMachines content)) ErrorSearchStateMachines)"
| "sm_effect yaml api (StartGetJson i) =
     Some (rq_getJson api i, settle (\<lambda>content. Some (CompleteGetJson content)) ErrorGetJson)"
| "sm_effect yaml api (StartAddEmpty name description vpn) =
     Some (rq_addEmpty api name description vpn,
           settle (\<lambda>content. map_option CompleteAddEmpty (js_get content ''id'')) ErrorAddEmpty)"
| "sm_effect yaml api (StartUpdate i stateMachine) =
     Some (rq_update yaml api i stateMachine,
           settle (\<lambda>content. map_option CompleteUpdate (js_get content ''id'')) ErrorUpdate)"
| "sm_effect yaml api (StartUpdateInfo i name description) =
     Some (rq_updateInfo api i name description,
           settle (\<lambda>content. Some (CompleteUpdateInfo i name description)) ErrorUpdateInfo)"
| "sm_effect yaml api (StartLaunch i input parameters) =
     Some (rq_launch api i input parameters,
           settle (\<lambda>content. do { k \<leftarrow> js_get content ''id''; t \<leftarrow> js_get content ''launchDateTime''; Some (CompleteLaunch k t) })
             ErrorLaunch)"
| "sm_effect yaml api _ = None"

record search_sm_state =
  StateMachines :: js

record sm_store_state =
  StateMachine :: js

definition initialSearchStateMachines :: search_sm_state where
  "initialSearchStateMachines = \<lparr>StateMachines = new_SearchResult\<rparr>"

definition initialStateMachine :: sm_store_state where
  "initialStateMachine = \<lparr>StateMachine = Null\<rparr>"

fun searchStateMachinesReducer :: "sm_action \<Rightarrow> search_sm_state \<Rightarrow> search_sm_state" where
  "searchStateMachinesReducer (CompleteSearchStateMachines content) s = s\<lparr>StateMachines := obj_spread content\<rparr>"
| "searchStateMachinesReducer _ s = s"

fun stateMachineReducer :: "sm_action \<Rightarrow> sm_store_state \<Rightarrow> sm_store_state" where
  "stateMachineReducer (CompleteGetJson content) s = s\<lparr>StateMachine := obj_spread content\<rparr>"
| "stateMachineReducer (CompleteUpdateInfo i name description) s =
     s\<lparr>StateMachine := js_set ''description'' (JStr description)
         (js_set ''name'' (JStr name) (obj_spread (StateMachine s)))\<rparr>"
| "stateMachineReducer _ s = s"

section \<open>State machine instances\<close>

datatype instance_action =
    StartSearchInstances string string int int string
  | CompleteSearchInstances js
  | ErrorSearchInstances
  | StartGetInstance string
  | CompleteGetInstance js
  | ErrorGetInstance
  | StartReactivate string
  | CompleteReactivate
  | ErrorReactivate

definition rq_searchInstances :: "string \<Rightarrow> int \<Rightarrow> int \<Rightarrow> string \<Rightarrow> string \<Rightarrow> string \<Rightarrow> request" where
  "rq_searchInstances api startIndex count order direction vpn =
     http_post (api @ ''/statemachineinstances/.search'') (search_body startIndex count order direction vpn)"

definition rq_getInstance :: "string \<Rightarrow> string \<Rightarrow> request" where
  "rq_getInstance api i = accepting (http_get (api @ ''/statemachineinstances/'' @ i))"

definition rq_reactivate :: "string \<Rightarrow> string \<Rightarrow> request" where
  "rq_reactivate api i = accepting (http_get (api @ ''/statemachineinstances/'' @ i @ ''/reactivate''))"

fun instance_effect :: "string \<Rightarrow> instance_action \<Rightarrow> instance_action effect" where
  "instance_effect api (StartSearchInstances order direction count startIndex vpn) =
     Some (rq_searchInstances api startIndex count order direction vpn,
           settle (\<lambda>content. Some (CompleteSearchInstances content)) ErrorSearchInstances)"
| "instance_effect api (StartGetInstance i) =
     Some (rq_getInstance api i, settle (\<lambda>content. Some (CompleteGetInstance content)) ErrorGetInstance)"
| "instance_effect api (StartReactivate i) =
     Some (rq_reactivate api i, settle (\<lambda>content. Some CompleteReactivate) ErrorReactivate)"
| "instance_effect api _ = None"

record search_instances_state =
  StateMachineInstances :: js

record instance_store_state =
  StateMachineInstance :: js

definition initialSearchStateMachineInstances :: search_instances_state where
  "initialSearchStateMachineInstances = \<lparr>StateMachineInstances = new_SearchResult\<rparr>"

definition new_StateMachineInstanceDetails :: js where
  "new_StateMachineInstanceDetails = JObj [(''id'', JStr ''''), (''workflowDefId'', JStr ''''),
     (''workflowDefName'', JStr ''''), (''workflowDefDescription'', JStr ''''), (''status'', JStr ''''),
     (''createDateTime'', Undef), (''output'', Undef), (''states'', JArr [])]"

definition initialStateMachineInstanceState :: instance_store_state where
  "initialStateMachineInstanceState = \<lparr>StateMachineInstance = new_StateMachineInstanceDetails\<rparr>"

fun searchStateMachineInstancesReducer :: "instance_action \<Rightarrow> search_instances_state \<Rightarrow> search_instances_state" where
  "searchStateMachineInstancesReducer (CompleteSearchInstances content) s = s\<lparr>StateMachineInstances := obj_spread content\<rparr>"
| "searchStateMachineInstancesReducer _ s = s"

fun stateMachineInstanceReducer :: "instance_action \<Rightarrow> instance_store_state \<Rightarrow> instance_store_state" where
  "stateMachineInstanceReducer (CompleteGetInstance content) s = s\<lparr>StateMachineInstance := obj_spread content\<rparr>"
| "stateMachineInstanceReducer _ s = s"

section \<open>Event mesh servers and server status\<close>

datatype mesh_action =
    StartAddServer bool string rat
  | CompleteAddServer js
  | ErrorAddServer
  | StartGetAllServers
  | CompleteGetAllServers js
  | ErrorGetAllServers
  | StartAddBridge string rat string rat
  | CompleteAddBridge
  | ErrorAddBridge

definition rq_addServer :: "string \<Rightarrow> bool \<Rightarrow> string \<Rightarrow> rat \<Rightarrow> request" where
  "rq_addServer api isLocalhost urn port =
     http_post (api @ ''/eventmesh'') (JObj [(''isLocalhost'', JBool isLocalhost), (''urn'', JStr urn), (''port'', JNum port)])"

definition rq_getAllServers :: "string \<Rightarrow> request" where
  "rq_getAllServers api = accepting (http_get (api @ ''/eventmesh''))"

definition rq_addServerBridge :: "string \<Rightarrow> string \<Rightarrow> rat \<Rightarrow> string \<Rightarrow> rat \<Rightarrow> request" where
  "rq_addServerBridge api src fromPort dst toPort =
     http_post (api @ ''/eventmesh/bridge'')
       (JObj [(''from'', JObj [(''urn'', JStr src), (''port'', JNum fromPort)]),
              (''to'', JObj [(''urn'', JStr dst), (''port'', JNum toPort)])])"

fun mesh_effect :: "string \<Rightarrow> mesh_action \<Rightarrow> mesh_action effect" where
  "mesh_effect api (StartAddServer isLocalhost urn port) =
     Some (rq_addServer api isLocalhost urn port, settle (\<lambda>content. Some (CompleteAddServer content)) ErrorAddServer)"
| "mesh_effect api StartGetAllServers =
     Some (rq_getAllServers api, settle (\<lambda>content. Some (CompleteGetAllServers content)) ErrorGetAllServers)"
| "mesh_effect api (StartAddBridge src fromPort dst toPort) =
     Some (rq_addServerBridge api src fromPort dst toPort, settle (\<lambda>content. Some CompleteAddBridge) ErrorAddBridge)"
| "mesh_effect api _ = None"

record mesh_state =
  EventMeshServers :: "js list"

definition initialEventMeshServersState :: mesh_state where
  "initialEventMeshServersState = \<lparr>EventMeshServers = []\<rparr>"

fun searchEventMeshServersReducer :: "mesh_action \<Rightarrow> mesh_state \<Rightarrow> mesh_state res" where
  "searchEventMeshServersReducer (CompleteGetAllServers content) s =
     map_option (\<lambda>c. s\<lparr>EventMeshServers := c\<rparr>) (js_spread content)"
| "searchEventMeshServersReducer _ s = Some s"

datatype server_action = StartGetServerStatus | CompleteGetServerStatus js | ErrorGetServerStatus

definition rq_getStatus :: "string \<Rightarrow> request" where
  "rq_getStatus api = http_get (api @ ''/server/status'')"

fun server_effect :: "string \<Rightarrow> server_action \<Rightarrow> server_action effect" where
  "server_effect api StartGetServerStatus =
     Some (rq_getStatus api, settle (\<lambda>content. Some (CompleteGetServerStatus content)) ErrorGetServerStatus)"
| "server_effect api _ = None"

record server_state =
  Status :: js

definition initialServerState :: server_state where
  "initialServerState = \<lparr>Status = JObj [(''isRunning'', JBool False)]\<rparr>"

fun serverReducer :: "server_action \<Rightarrow> server_state \<Rightarrow> server_state" where
  "serverReducer (CompleteGetServerStatus content) s = s\<lparr>Status := obj_spread content\<rparr>"
| "serverReducer _ s = s"

end
