(* ===== verification/App_Store.thy ===== *)
theory App_Store
  imports Store_Mesh Store_Workflows
begin

text \<open>
  The application's store (src/stores/appstate.ts): the state, the combination of the reducers, the
  selectors, the combination of the effects, and the run time: actions are dispatched by the pages,
  requests are answered in any order (\<open>mergeMap\<close>), and a response is dispatched as an action.
\<close>

section \<open>State, reducer and effects\<close>

datatype action =
    VpnA vpn_action
  | ClientA client_action
  | DomainA domain_action
  | MessageA message_action
  | FunctionA function_action
  | SmA sm_action
  | InstanceA instance_action
  | MeshA mesh_action
  | ServerA server_action

record app_state =
  functions_st :: search_functions_state
  function_st :: function_state
  stateMachines :: search_sm_state
  stateMachine :: sm_store_state
  stateMachineInstances :: search_instances_state
  stateMachineInstance :: instance_store_state
  eventMeshServers :: mesh_state
  server :: server_state
  vpns_st :: vpn_lst_state
  vpn_st :: vpn_state
  clients_st :: client_lst_state
  client_st :: client_state
  appDomains :: domains_state
  appDomain :: domain_state
  messageDefs :: messages_state
  sessionStorage :: storage

definition initial_app :: "storage \<Rightarrow> app_state" where
  "initial_app st = \<lparr>functions_st = initialSearchFunctionsState, function_st = initialFunctionState,
     stateMachines = initialSearchStateMachines, stateMachine = initialStateMachine,
     stateMachineInstances = initialSearchStateMachineInstances,
     stateMachineInstance = initialStateMachineInstanceState, eventMeshServers = initialEventMeshServersState,
     server = initialServerState, vpns_st = initialVpnLstState, vpn_st = initialVpnState st,
     clients_st = initialClientLstState, client_st = initialClientState,
     appDomains = initialApplicationDomainsState, appDomain = initialApplicationDomainState,
     messageDefs = initialMessageDefinitionLstState, sessionStorage = st\<rparr>"

text \<open>An action is handled by the reducers of its own store; every other part stays the same object.\<close>

fun appReducer :: "js \<Rightarrow> action \<Rightarrow> app_state \<Rightarrow> app_state res" where
  "appReducer now (VpnA a) s = do {
     l \<leftarrow> vpnLstReducer now a (vpns_st s);
     let (v, st) = vpnReducer a (vpn_st s, sessionStorage s);
     Some (s\<lparr>vpns_st := l, vpn_st := v, sessionStorage := st\<rparr>)
   }"
| "appReducer now (ClientA a) s =
     map_option (\<lambda>l. s\<lparr>clients_st := l, client_st := clientReducer a (client_st s)\<rparr>)
       (clientLstReducer now a (clients_st s))"
| "appReducer now (DomainA a) s =
     map_option (\<lambda>l. s\<lparr>appDomains := l, appDomain := applicationDomainReducer a (appDomain s)\<rparr>)
       (applicationDomainsReducer now a (appDomains s))"
| "appReducer now (MessageA a) s =
     map_option (\<lambda>l. s\<lparr>messageDefs := l\<rparr>) (messageDefLstReducer now a (messageDefs s))"
| "appReducer now (FunctionA a) s =
     Some (s\<lparr>functions_st := searchFunctionsReducer a (functions_st s), function_st := functionReducer a (function_st s)\<rparr>)"
| "appReducer now (SmA a) s =
     Some (s\<lparr>stateMachines := searchStateMachinesReducer a (stateMachines s),
             stateMachine := stateMachineReducer a (stateMachine s)\<rparr>)"
| "appReducer now (InstanceA a) s =
     Some (s\<lparr>stateMachineInstances := searchStateMachineInstancesReducer a (stateMachineInstances s),
             stateMachineInstance := stateMachineInstanceReducer a (stateMachineInstance s)\<rparr>)"
| "appReducer now (MeshA a) s =
     map_option (\<lambda>l. s\<lparr>eventMeshServers := l\<rparr>) (searchEventMeshServersReducer a (eventMeshServers s))"
| "appReducer now (ServerA a) s = Some (s\<lparr>server := serverReducer a (server s)\<rparr>)"

definition lift_effect :: "('a \<Rightarrow> action) \<Rightarrow> 'a effect \<Rightarrow> action effect" where
  "lift_effect f e = map_option (\<lambda>(rq, k). (rq, \<lambda>r. f (k r))) e"

fun app_effect :: "(js \<Rightarrow> string) \<Rightarrow> string \<Rightarrow> action \<Rightarrow> action effect" where
  "app_effect yaml api (VpnA a) = lift_effect VpnA (vpn_effect api a)"
| "app_effect yaml api (ClientA a) = lift_effect ClientA (client_effect api a)"
| "app_effect yaml api (DomainA a) = lift_effect DomainA (domain_effect api a)"
| "app_effect yaml api (MessageA a) = lift_effect MessageA (message_effect api a)"
| "app_effect yaml api (FunctionA a) = lift_effect FunctionA (function_effect api a)"
| "app_effect yaml api (SmA a) = lift_effect SmA (sm_effect yaml api a)"
| "app_effect yaml api (InstanceA a) = lift_effect InstanceA (instance_effect api a)"
| "app_effect yaml api (MeshA a) = lift_effect MeshA (mesh_effect api a)"
| "app_effect yaml api (ServerA a) = lift_effect ServerA (server_effect api a)"

section \<open>Selectors\<close>

text \<open>\<open>state.X === null ? null : state.X\<close> and \<open>!state.X ? null : state.X\<close>; the slice itself is always there.\<close>

definition not_null :: "js \<Rightarrow> js" where
  "not_null v = (if v = Null then Null else v)"

definition if_truthy :: "js \<Rightarrow> js" where
  "if_truthy v = (if truthy v then v else Null)"

definition selectFunctionsResult :: "app_state \<Rightarrow> js" where
  "selectFunctionsResult s = not_null (Functions (functions_st s))"

definition selectFunctionConfigurationResult :: "app_state \<Rightarrow> js" where
  "selectFunctionConfigurationResult s = not_null (Configuration (function_st s))"

definition selectFunctionResult :: "app_state \<Rightarrow> js" where
  "selectFunctionResult s = not_null (Function (function_st s))"

definition selectFunctionThreadsResult :: "app_state \<Rightarrow> js" where
  "selectFunctionThreadsResult s = not_null (Threads (function_st s))"

definition selectFunctionVirtualMemoryBytesResult :: "app_state \<Rightarrow> js" where
  "selectFunctionVirtualMemoryBytesResult s = not_null (VirtualMemoryBytes (function_st s))"

definition selectCpuUsageResult :: "app_state \<Rightarrow> js" where
  "selectCpuUsageResult s = not_null (CpuUsage (function_st s))"

definition selectRequestDurationResult :: "app_state \<Rightarrow> js" where
  "selectRequestDurationResult s = not_null (RequestDuration (function_st s))"

definition selectDetailsResult :: "app_state \<Rightarrow> js" where
  "selectDetailsResult s = not_null (Details (function_st s))"

definition selectTotalRequests :: "app_state \<Rightarrow> js" where
  "selectTotalRequests s = not_null (TotalRequests (function_st s))"

definition selectStateMachinesResult :: "app_state \<Rightarrow> js" where
  "selectStateMachinesResult s = if_truthy (StateMachines (stateMachines s))"

definition selectStateMachineResult :: "app_state \<Rightarrow> js" where
  "selectStateMachineResult s = if_truthy (StateMachine (stateMachine s))"

definition selectStateMachineInstancesResult :: "app_state \<Rightarrow> js" where
  "selectStateMachineInstancesResult s = if_truthy (StateMachineInstances (stateMachineInstances s))"

definition selectStateMachineInstanceResult :: "app_state \<Rightarrow> js" where
  "selectStateMachineInstanceResult s = if_truthy (StateMachineInstance (stateMachineInstance s))"

definition selectEventMeshServersResult :: "app_state \<Rightarrow> js" where
  "selectEventMeshServersResult s = if_truthy (JArr (EventMeshServers (eventMeshServers s)))"

definition selectServerStatusResult :: "app_state \<Rightarrow> js" where
  "selectServerStatusResult s = if_truthy (Status (server s))"

definition selectVpnLstResult :: "app_state \<Rightarrow> js" where
  "selectVpnLstResult s = if_truthy (JArr (VpnLst (vpns_st s)))"

definition selectVpnResult :: "app_state \<Rightarrow> js" where
  "selectVpnResult s = if_truthy (Vpn (vpn_st s))"

definition selectActiveVpnResult :: "app_state \<Rightarrow> js" where
  "selectActiveVpnResult s = if_truthy (selectedVpn (vpn_st s))"

definition selectClientsResult :: "app_state \<Rightarrow> js" where
  "selectClientsResult s = if_truthy (JArr (ClientLst (clients_st s)))"

definition selectClientResult :: "app_state \<Rightarrow> js" where
  "selectClientResult s = if_truthy (Client (client_st s))"

definition selectAppDomainsResult :: "app_state \<Rightarrow> js" where
  "selectAppDomainsResult s = if_truthy (JArr (ApplicationDomains (appDomains s)))"

definition selectAppDomainResult :: "app_state \<Rightarrow> js" where
  "selectAppDomainResult s = if_truthy (ApplicationDomain (appDomain s))"

definition selectMessageDefsResult :: "app_state \<Rightarrow> js" where
  "selectMessageDefsResult s = if_truthy (JArr (MessageDefinitionLst (messageDefs s)))"

section \<open>Run time\<close>

record runtime =
  rt_state :: app_state
  rt_pending :: "(request \<times> (outcome \<Rightarrow> action)) list"

definition dispatch :: "(js \<Rightarrow> string) \<Rightarrow> string \<Rightarrow> js \<Rightarrow> action \<Rightarrow> runtime \<Rightarrow> runtime res" where
  "dispatch yaml api now a rt = do {
     s \<leftarrow> appReducer now a (rt_state rt);
     Some \<lparr>rt_state = s, rt_pending = rt_pending rt @ (case app_effect yaml api a of None \<Rightarrow> [] | Some e \<Rightarrow> [e])\<rparr>
   }"

text \<open>The \<open>i\<close>-th pending request is answered with \<open>r\<close>.\<close>

definition respond :: "(js \<Rightarrow> string) \<Rightarrow> string \<Rightarrow> js \<Rightarrow> nat \<Rightarrow> outcome \<Rightarrow> runtime \<Rightarrow> runtime res" where
  "respond yaml api now i r rt =
     dispatch yaml api now (snd (rt_pending rt ! i) r)
       (rt\<lparr>rt_pending := take i (rt_pending rt) @ drop (Suc i) (rt_pending rt)\<rparr>)"

inductive rt_step :: "(js \<Rightarrow> string) \<Rightarrow> string \<Rightarrow> runtime \<Rightarrow> runtime \<Rightarrow> bool"
  for yaml :: "js \<Rightarrow> string" and api :: string where
  user: "dispatch yaml api now a rt = Some rt' \<Longrightarrow> rt_step yaml api rt rt'"
| answer: "i < length (rt_pending rt) \<Longrightarrow> respond yaml api now i r rt = Some rt' \<Longrightarrow> rt_step yaml api rt rt'"

inductive rt_reachable :: "(js \<Rightarrow> string) \<Rightarrow> string \<Rightarrow> runtime \<Rightarrow> bool"
  for yaml :: "js \<Rightarrow> string" and api :: string where
  boot: "rt_reachable yaml api \<lparr>rt_state = initial_app st, rt_pending = []\<rparr>"
| later: "rt_reachable yaml api rt \<Longrightarrow> rt_step yaml api rt rt' \<Longrightarrow> rt_reachable yaml api rt'"

inductive_cases rt_stepE: "rt_step yaml api rt rt'"

section \<open>Effects\<close>

text \<open>No effect listens to the actions that effects emit: the contract of each store's effect.\<close>

locale settled_effect =
  fixes effect :: "'a \<Rightarrow> 'a effect"
  assumes settled: "effect a = Some (rq, k) \<Longrightarrow> effect (k r) = None"
begin

lemma lifted: "lift_effect f (effect a) = Some (rq, k) \<Longrightarrow> \<exists>b. k r = f b \<and> effect b = None"
  using settled by (auto simp: lift_effect_def)

end

interpretation vpn_ef: settled_effect "vpn_effect api"
  by unfold_locales (erule vpn_effect.elims; auto simp: settle_def split: outcome.split option.split)

interpretation client_ef: settled_effect "client_effect api"
  by unfold_locales (erule client_effect.elims; auto simp: settle_def split: outcome.split option.split)

interpretation domain_ef: settled_effect "domain_effect api"
  by unfold_locales (erule domain_effect.elims; auto simp: settle_def split: outcome.split option.split)

interpretation message_ef: settled_effect "message_effect api"
  by unfold_locales (erule message_effect.elims; auto simp: settle_def split: outcome.split option.split)

interpretation function_ef: settled_effect "function_effect api"
  by unfold_locales (erule function_effect.elims; auto simp: settle_def split: outcome.split option.split)

interpretation sm_ef: settled_effect "sm_effect yaml api"
  by unfold_locales (erule sm_effect.elims; auto simp: settle_def split: outcome.split option.split Option.bind_splits)

interpretation instance_ef: settled_effect "instance_effect api"
  by unfold_locales (erule instance_effect.elims; auto simp: settle_def split: outcome.split option.split)

interpretation mesh_ef: settled_effect "mesh_effect api"
  by unfold_locales (erule mesh_effect.elims; auto simp: settle_def split: outcome.split option.split)

interpretation server_ef: settled_effect "server_effect api"
  by unfold_locales (erule server_effect.elims; auto simp: settle_def split: outcome.split option.split)

interpretation app_ef: settled_effect "app_effect yaml api"
proof
  fix a rq k r
  assume a: "app_effect yaml api a = Some (rq, k)"
  show "app_effect yaml api (k r) = None"
  proof (cases a)
    case (VpnA b)
    with a vpn_ef.lifted [of VpnA api b rq k r] show ?thesis by (auto simp: lift_effect_def)
  next
    case (ClientA b)
    with a client_ef.lifted [of ClientA api b rq k r] show ?thesis by (auto simp: lift_effect_def)
  next
    case (DomainA b)
    with a domain_ef.lifted [of DomainA api b rq k r] show ?thesis by (auto simp: lift_effect_def)
  next
    case (MessageA b)
    with a message_ef.lifted [of MessageA api b rq k r] show ?thesis by (auto simp: lift_effect_def)
  next
    case (FunctionA b)
    with a function_ef.lifted [of FunctionA api b rq k r] show ?thesis by (auto simp: lift_effect_def)
  next
    case (SmA b)
    with a sm_ef.lifted [of SmA yaml api b rq k r] show ?thesis by (auto simp: lift_effect_def)
  next
    case (InstanceA b)
    with a instance_ef.lifted [of InstanceA api b rq k r] show ?thesis by (auto simp: lift_effect_def)
  next
    case (MeshA b)
    with a mesh_ef.lifted [of MeshA api b rq k r] show ?thesis by (auto simp: lift_effect_def)
  next
    case (ServerA b)
    with a server_ef.lifted [of ServerA api b rq k r] show ?thesis by (auto simp: lift_effect_def)
  qed
qed

section \<open>Runs\<close>

definition rt_inv :: "(js \<Rightarrow> string) \<Rightarrow> string \<Rightarrow> runtime \<Rightarrow> bool" where
  "rt_inv yaml api rt \<longleftrightarrow>
     (\<forall>p \<in> set (rt_pending rt). \<exists>a. app_effect yaml api a = Some p) \<and>
     selectedVpn (vpn_st (rt_state rt)) = getItem ''selectedVpn'' (sessionStorage (rt_state rt))"

lemma appReducer_selected:
  "appReducer now a s = Some s' \<Longrightarrow> selectedVpn (vpn_st s) = getItem ''selectedVpn'' (sessionStorage s) \<Longrightarrow>
   selectedVpn (vpn_st s') = getItem ''selectedVpn'' (sessionStorage s')"
proof (induction now a s rule: appReducer.induct)
  case (1 now a s)
  then show ?case
    by (cases a) (auto simp: Let_def getItem_def split: Option.bind_splits)
qed auto

lemma dispatch_inv: "dispatch yaml api now a rt = Some rt' \<Longrightarrow> rt_inv yaml api rt \<Longrightarrow> rt_inv yaml api rt'"
  by (auto simp: dispatch_def rt_inv_def dest: appReducer_selected split: Option.bind_splits option.splits)

lemma answered_inv:
  "rt_inv yaml api rt \<Longrightarrow> rt_inv yaml api (rt\<lparr>rt_pending := take i (rt_pending rt) @ drop (Suc i) (rt_pending rt)\<rparr>)"
  by (auto simp: rt_inv_def dest: in_set_takeD in_set_dropD)

lemma rt_step_inv: "rt_step yaml api rt rt' \<Longrightarrow> rt_inv yaml api rt \<Longrightarrow> rt_inv yaml api rt'"
  by (auto elim!: rt_stepE simp: respond_def dest: dispatch_inv intro: dispatch_inv [OF _ answered_inv])

lemma rt_reachable_inv: "rt_reachable yaml api rt \<Longrightarrow> rt_inv yaml api rt"
proof (induction rule: rt_reachable.induct)
  case (boot st)
  show ?case by (simp add: rt_inv_def initial_app_def initialVpnState_def)
next
  case (later rt rt')
  then show ?case by (blast intro: rt_step_inv)
qed

text \<open>
  C17. In every reachable state of the store, over all dispatches and all orders of responses, the
  selected vpn of the store is the one saved in the session storage, so that a reload of the page
  selects the same vpn again.
\<close>

theorem selected_vpn_survives_reload:
  assumes "rt_reachable yaml api rt"
  shows "selectedVpn (vpn_st (rt_state rt)) = getItem ''selectedVpn'' (sessionStorage (rt_state rt)) \<and>
    selectActiveVpnResult (initial_app (sessionStorage (rt_state rt))) = selectActiveVpnResult (rt_state rt)"
  using rt_reachable_inv [OF assms]
  by (simp add: rt_inv_def selectActiveVpnResult_def initial_app_def initialVpnState_def)

text \<open>
  C18. Each dispatched action starts at most one request, each response settles exactly one request
  and starts none: answering one of the pending requests always leaves one pending request less.
\<close>

theorem responses_drain:
  assumes "rt_reachable yaml api rt" and "i < length (rt_pending rt)" and "respond yaml api now i r rt = Some rt'"
  shows "length (rt_pending rt') + 1 = length (rt_pending rt)"
proof -
  have "rt_pending rt ! i \<in> set (rt_pending rt)" using assms(2) by simp
  then obtain a where "app_effect yaml api a = Some (fst (rt_pending rt ! i), snd (rt_pending rt ! i))"
    using rt_reachable_inv [OF assms(1)] unfolding rt_inv_def by fastforce
  then have "app_effect yaml api (snd (rt_pending rt ! i) r) = None" by (rule app_ef.settled)
  then show ?thesis using assms(2,3)
    by (auto simp: respond_def dispatch_def split: Option.bind_splits)
qed

text \<open>Two runs for the examples: a vpn is selected; a vpn is requested.\<close>

definition boot_rt :: runtime where
  "boot_rt = \<lparr>rt_state = initial_app (\<lambda>_. None), rt_pending = []\<rparr>"

definition example_yaml :: "js \<Rightarrow> string" where
  "example_yaml v = ''''"

definition selected_rt :: runtime where
  "selected_rt = the (dispatch example_yaml ''api'' Null (VpnA (SelectVpn ''v'')) boot_rt)"

definition requested_rt :: runtime where
  "requested_rt = the (dispatch example_yaml ''api'' Null (VpnA (StartGetVpn ''v'')) boot_rt)"

lemma example_runs:
  "rt_reachable example_yaml ''api'' selected_rt" "rt_reachable example_yaml ''api'' requested_rt"
proof -
  have "dispatch example_yaml ''api'' Null (VpnA (SelectVpn ''v'')) boot_rt = Some selected_rt"
    "dispatch example_yaml ''api'' Null (VpnA (StartGetVpn ''v'')) boot_rt = Some requested_rt"
    by (simp_all add: selected_rt_def requested_rt_def dispatch_def)
  then show "rt_reachable example_yaml ''api'' selected_rt" "rt_reachable example_yaml ''api'' requested_rt"
    unfolding boot_rt_def by (blast intro: rt_reachable.intros rt_step.user)+
qed

theorem selected_vpn_survives_reload_witness:
  "selectActiveVpnResult (initial_app (sessionStorage (rt_state selected_rt))) = JStr ''v''"
  using selected_vpn_survives_reload [OF example_runs(1)]
  by (simp add: selected_rt_def dispatch_def selectActiveVpnResult_def if_truthy_def)

theorem responses_drain_witness:
  "\<exists>rt'. respond example_yaml ''api'' Null 0 Failure requested_rt = Some rt' \<and> length (rt_pending rt') + 1 = 1"
proof -
  have len: "length (rt_pending requested_rt) = 1"
    by (simp add: requested_rt_def dispatch_def boot_rt_def lift_effect_def)
  obtain rt' where "respond example_yaml ''api'' Null 0 Failure requested_rt = Some rt'"
    by (simp add: respond_def dispatch_def requested_rt_def boot_rt_def lift_effect_def settle_def)
  then show ?thesis using responses_drain [OF example_runs(2), of 0 Null Failure rt'] len by auto
qed

text \<open>
  Responses are applied in the order in which they arrive: if a second vpn is requested before the
  first is answered and the answers arrive in the reverse order, the page shows the first vpn.
\<close>

theorem stale_response_wins:
  assumes "rt_pending rt = []"
  shows "do {
      rt1 \<leftarrow> dispatch yaml api now (VpnA (StartGetVpn a)) rt;
      rt2 \<leftarrow> dispatch yaml api now (VpnA (StartGetVpn b)) rt1;
      rt3 \<leftarrow> respond yaml api now 1 (Success (JObj vb)) rt2;
      rt4 \<leftarrow> respond yaml api now 0 (Success (JObj va)) rt3;
      Some (selectVpnResult (rt_state rt4), rt_pending rt4)
    } = Some (JObj va, [])"
  using assms
  by (simp add: respond_def dispatch_def lift_effect_def settle_def selectVpnResult_def if_truthy_def)

theorem stale_response_wins_witness:
  "do {
      rt1 \<leftarrow> dispatch example_yaml ''api'' Null (VpnA (StartGetVpn ''a'')) boot_rt;
      rt2 \<leftarrow> dispatch example_yaml ''api'' Null (VpnA (StartGetVpn ''b'')) rt1;
      rt3 \<leftarrow> respond example_yaml ''api'' Null 1 (Success (JObj [(''name'', JStr ''b'')])) rt2;
      rt4 \<leftarrow> respond example_yaml ''api'' Null 0 (Success (JObj [(''name'', JStr ''a'')])) rt3;
      Some (selectVpnResult (rt_state rt4), rt_pending rt4)
    } = Some (JObj [(''name'', JStr ''a'')], [])"
  using stale_response_wins [of boot_rt example_yaml "''api''" Null "''a''" "''b''"]
  by (simp add: boot_rt_def)

text \<open>
  If the list of message definitions is reloaded while a publication is pending and no longer
  contains the published definition, the answer to the publication makes the reducer throw.
\<close>

theorem late_publication_throws:
  assumes "keyed ''id'' (MessageDefinitionLst (messageDefs (rt_state rt)))"
    and "JStr i \<notin> set (map (key_of ''id'') (MessageDefinitionLst (messageDefs (rt_state rt))))"
    and "app_effect yaml api (MessageA (PublishMessageDefinition i nm)) = Some (rt_pending rt ! k)"
  shows "respond yaml api now k (Success (JObj [(''Id'', newId)])) rt = None"
proof -
  have cl: "clone_list (MessageDefinitionLst (messageDefs (rt_state rt))) = MessageDefinitionLst (messageDefs (rt_state rt))"
    using assms(1) by (simp add: clone_records keyed_def)
  have "snd (rt_pending rt ! k) (Success (JObj [(''Id'', newId)])) = MessageA (CompletePublishMessageDefinition i newId)"
    using assms(3) by (auto simp: lift_effect_def settle_def dest!: sym [of "(_, _)"])
  then show ?thesis
    using assms(2) cl by (simp add: respond_def dispatch_def change_by_id_keyed [OF assms(1)])
qed

definition publishing_rt :: runtime where
  "publishing_rt = the (dispatch example_yaml ''api'' Null (MessageA (PublishMessageDefinition ''1'' ''m'')) boot_rt)"

theorem late_publication_throws_witness:
  "respond example_yaml ''api'' Null 0 (Success (JObj [(''Id'', JStr ''2'')])) publishing_rt = None"
proof -
  have s: "MessageDefinitionLst (messageDefs (rt_state publishing_rt)) = []"
    by (simp add: publishing_rt_def dispatch_def boot_rt_def initial_app_def initialMessageDefinitionLstState_def)
  have p: "app_effect example_yaml ''api'' (MessageA (PublishMessageDefinition ''1'' ''m'')) = Some (rt_pending publishing_rt ! 0)"
    by (simp add: publishing_rt_def dispatch_def boot_rt_def lift_effect_def)
  show ?thesis using late_publication_throws [OF _ _ p] s by (simp add: keyed_def)
qed

text \<open>
  The request that creates an application domain carries the root topic as its name, the name as
  its description and the description as its root topic, while the store shows the record with the
  fields the user entered.
\<close>

theorem add_domain_request_is_permuted:
  "\<exists>rq k. app_effect yaml api (DomainA (StartAddAppDomain vpn name description rootTopic)) = Some (rq, k) \<and>
     key_of ''name'' (rq_body rq) = JStr rootTopic \<and> key_of ''description'' (rq_body rq) = JStr name \<and>
     key_of ''rootTopic'' (rq_body rq) = JStr description \<and>
     k (Success (JObj [(''Id'', i)])) = DomainA (CompleteAddAppDomain i name description rootTopic)"
  by (simp add: lift_effect_def rq_addAppDomain_def http_post_def settle_def)

text \<open>
  What a response loads is what the selector of its store then yields, whatever the state was
  before: lists as sent, objects as copies with the same properties.
\<close>

theorem selectors_yield_loaded_content:
  "map_option selectVpnLstResult (appReducer now (VpnA (CompleteGetAllVpn (JArr xs))) s) = Some (JArr xs) \<and>
   map_option selectVpnResult (appReducer now (VpnA (CompleteGetVpn (JObj o1))) s) = Some (JObj o1) \<and>
   map_option selectClientsResult (appReducer now (ClientA (CompleteGetAllClients (JArr xs))) s) = Some (JArr xs) \<and>
   map_option selectClientResult (appReducer now (ClientA (CompleteGetClient (JObj o1))) s) = Some (JObj o1) \<and>
   map_option selectAppDomainsResult (appReducer now (DomainA (CompleteGetAllAppDomains (JArr xs))) s) = Some (JArr xs) \<and>
   map_option selectAppDomainResult (appReducer now (DomainA (CompleteGetAppDomain (JObj o1))) s) = Some (JObj o1) \<and>
   map_option selectMessageDefsResult (appReducer now (MessageA (CompleteGetLatestMessages (JArr xs))) s) = Some (JArr xs) \<and>
   map_option selectFunctionsResult (appReducer now (FunctionA (CompleteSearchFunctions (JObj o1))) s) = Some (JObj o1) \<and>
   map_option selectFunctionResult (appReducer now (FunctionA (CompleteGetFunction (JObj o1))) s) = Some (JObj o1) \<and>
   map_option selectFunctionConfigurationResult (appReducer now (FunctionA (CompleteGetConfiguration (JObj o1))) s) = Some (JObj o1) \<and>
   map_option selectFunctionThreadsResult (appReducer now (FunctionA (CompleteGetThreads v)) s) = Some v \<and>
   map_option selectFunctionVirtualMemoryBytesResult (appReducer now (FunctionA (CompleteGetVirtualMemoryBytes v)) s) = Some v \<and>
   map_option selectCpuUsageResult (appReducer now (FunctionA (CompleteGetCpuUsage v)) s) = Some v \<and>
   map_option selectRequestDurationResult (appReducer now (FunctionA (CompleteGetRequestDuration v)) s) = Some v \<and>
   map_option selectDetailsResult (appReducer now (FunctionA (CompleteGetDetails v)) s) = Some v \<and>
   map_option selectTotalRequests (appReducer now (FunctionA (CompleteGetTotalRequests v)) s) = Some v \<and>
   map_option selectStateMachinesResult (appReducer now (SmA (CompleteSearchStateMachines (JObj o1))) s) = Some (JObj o1) \<and>
   map_option selectStateMachineResult (appReducer now (SmA (CompleteGetJson (JObj o1))) s) = Some (JObj o1) \<and>
   map_option selectStateMachineInstancesResult (appReducer now (InstanceA (CompleteSearchInstances (JObj o1))) s) = Some (JObj o1) \<and>
   map_option selectStateMachineInstanceResult (appReducer now (InstanceA (CompleteGetInstance (JObj o1))) s) = Some (JObj o1) \<and>
   map_option selectEventMeshServersResult (appReducer now (MeshA (CompleteGetAllServers (JArr xs))) s) = Some (JArr xs) \<and>
   map_option selectServerStatusResult (appReducer now (ServerA (CompleteGetServerStatus (JObj o1))) s) = Some (JObj o1)"
  by (simp add: selectVpnLstResult_def selectVpnResult_def selectClientsResult_def selectClientResult_def
      selectAppDomainsResult_def selectAppDomainResult_def selectMessageDefsResult_def selectFunctionsResult_def
      selectFunctionResult_def selectFunctionConfigurationResult_def selectFunctionThreadsResult_def
      selectFunctionVirtualMemoryBytesResult_def selectCpuUsageResult_def selectRequestDurationResult_def
      selectDetailsResult_def selectTotalRequests_def selectStateMachinesResult_def selectStateMachineResult_def
      selectStateMachineInstancesResult_def selectStateMachineInstanceResult_def selectEventMeshServersResult_def
      selectServerStatusResult_def if_truthy_def not_null_def Let_def)

end
