(* ===== verification/Message_Dialog.thy ===== *)
theory Message_Dialog
  imports App_Store Dialog_Action
begin

text \<open>
  The messages of an application domain: the dialog that adds or edits a message definition
  (components/messages/add-message.component.ts) and the list that opens it and dispatches the
  actions (components/messages/messages.component.ts). \<open>parse\<close> and \<open>stringify\<close> stand for the functions
  of \<open>JSON\<close>, \<open>blank\<close> for \<open>Validators.required\<close>. \<open>None\<close> is a \<open>TypeError\<close> or a \<open>SyntaxError\<close>.
\<close>

section \<open>The dialog\<close>

record message_form =
  mf_name :: js
  mf_description :: js
  mf_messageJsonSchema :: js
  mf_jsonSchema :: js
  mf_isEditable :: bool
  mf_listening :: bool

definition new_AddMessageDef :: message_form where
  "new_AddMessageDef = \<lparr>mf_name = JStr '''', mf_description = JStr '''', mf_messageJsonSchema = JStr '''',
     mf_jsonSchema = Null, mf_isEditable = False, mf_listening = False\<rparr>"

definition cloudEvtProperties :: "string list" where
  "cloudEvtProperties = [''id'', ''source'', ''type'']"

definition example_property :: "string \<Rightarrow> js" where
  "example_property e = JObj [(''type'', JStr ''string''), (''example'', JStr e)]"

definition cloud_event :: "(string \<times> js) list" where
  "cloud_event = [(''id'', example_property ''A234-1234-1234''), (''source'', example_property ''urn:com.asyncapi.examples.user''),
     (''type'', example_property ''com.github.pull.create'')]"

text \<open>\<open>for (var k in ps) { if (!cloudEvtProperties.includes(k)) { acc[k] = ps[k]; } }\<close>\<close>

definition copy_properties :: "js \<Rightarrow> (string \<times> js) list \<Rightarrow> (string \<times> js) list" where
  "copy_properties ps acc =
     fold (\<lambda>(k, v) acc. if k \<in> set cloudEvtProperties then acc else AList.update k v acc) (children ps) acc"

definition typed_schema :: "(js \<Rightarrow> js res) \<Rightarrow> js \<Rightarrow> js" where
  "typed_schema parse str = (if truthy str then case parse str of Some v \<Rightarrow> v | None \<Rightarrow> JObj [] else JObj [])"

definition envelope :: "js \<Rightarrow> js \<Rightarrow> js" where
  "envelope properties required =
     JObj (put_truthy ''required'' required
       [(''$schema'', JStr ''http://json-schema.org/schema''), (''type'', JStr ''object''),
        (''properties'', JObj (if truthy properties then copy_properties properties cloud_event else cloud_event))])"

definition refreshJsonSchema :: "(js \<Rightarrow> js res) \<Rightarrow> (js \<Rightarrow> js) \<Rightarrow> message_form \<Rightarrow> message_form res" where
  "refreshJsonSchema parse stringify f =
     (let messageJsonSchema = typed_schema parse (mf_messageJsonSchema f)
      in do {
        properties \<leftarrow> js_get messageJsonSchema ''properties'';
        required \<leftarrow> js_get messageJsonSchema ''required'';
        Some (f\<lparr>mf_jsonSchema := stringify (envelope properties required)\<rparr>)
      })"

definition message_part :: "js \<Rightarrow> js \<Rightarrow> js" where
  "message_part properties required =
     (if truthy properties
      then let ps = copy_properties properties []
           in JObj (put_truthy ''required'' required (if ps \<noteq> [] then [(''properties'', JObj ps)] else []))
      else JObj [])"

definition extractJsonMessage :: "(js \<Rightarrow> js res) \<Rightarrow> (js \<Rightarrow> js) \<Rightarrow> js \<Rightarrow> js res" where
  "extractJsonMessage parse stringify jsonSchemaStr =
     (if \<not> truthy jsonSchemaStr then Some (stringify (JObj []))
      else do {
        jsonSchema \<leftarrow> parse jsonSchemaStr;
        properties \<leftarrow> js_get jsonSchema ''properties'';
        required \<leftarrow> js_get jsonSchema ''required'';
        Some (stringify (message_part properties required))
      })"

text \<open>The constructor, then \<open>ngOnInit\<close>; \<open>Undef\<close> is a dialog without data.\<close>

definition mf_open :: "(js \<Rightarrow> js res) \<Rightarrow> (js \<Rightarrow> js) \<Rightarrow> js \<Rightarrow> message_form res" where
  "mf_open parse stringify message =
     (let f = new_AddMessageDef
      in if \<not> truthy message then Some (f\<lparr>mf_listening := True\<rparr>)
         else do {
           nm \<leftarrow> js_get message ''name'';
           ds \<leftarrow> js_get message ''description'';
           sch \<leftarrow> js_get message ''jsonSchema'';
           m \<leftarrow> extractJsonMessage parse stringify sch;
           f' \<leftarrow> refreshJsonSchema parse stringify (f\<lparr>mf_name := nm, mf_description := ds, mf_messageJsonSchema := m\<rparr>);
           Some (f'\<lparr>mf_isEditable := True, mf_listening := True\<rparr>)
         })"

definition mf_ngOnDestroy :: "message_form \<Rightarrow> message_form" where
  "mf_ngOnDestroy f = f\<lparr>mf_listening := False\<rparr>"

text \<open>Typing into the field of the message's schema\<close>

definition mf_set_schema :: "(js \<Rightarrow> js res) \<Rightarrow> (js \<Rightarrow> js) \<Rightarrow> js \<Rightarrow> message_form \<Rightarrow> message_form res" where
  "mf_set_schema parse stringify v f =
     (let f' = f\<lparr>mf_messageJsonSchema := v\<rparr> in if mf_listening f then refreshJsonSchema parse stringify f' else Some f')"

text \<open>\<open>save\<close>: the value that the dialog closes with, or nothing if it stays open\<close>

definition mf_save :: "(js \<Rightarrow> bool) \<Rightarrow> message_form \<Rightarrow> js option" where
  "mf_save blank f =
     (if blank (mf_name f) \<or> blank (mf_description f) then None
      else Some (JObj [(''name'', mf_name f), (''description'', mf_description f),
             (''messageJsonSchema'', mf_messageJsonSchema f), (''jsonSchema'', mf_jsonSchema f)]))"

section \<open>The list\<close>

record messages_panel =
  mp_appDomainId :: js
  mp_messages :: js

definition new_MessagesVpn :: messages_panel where
  "new_MessagesVpn = \<lparr>mp_appDomainId = JStr '''', mp_messages = JArr []\<rparr>"

definition mp_refresh :: "(js \<Rightarrow> string) \<Rightarrow> messages_panel \<Rightarrow> action option" where
  "mp_refresh show p =
     (if \<not> truthy (mp_appDomainId p) then None
      else Some (MessageA (GetLatestMessages (js_string show (mp_appDomainId p)))))"

text \<open>The setter of \<open>appDomainId\<close>\<close>

definition mp_set_appDomainId :: "(js \<Rightarrow> string) \<Rightarrow> js \<Rightarrow> messages_panel \<Rightarrow> messages_panel \<times> action option" where
  "mp_set_appDomainId show v p =
     (if \<not> truthy v then (p, None)
      else let p' = p\<lparr>mp_appDomainId := v\<rparr> in (p', mp_refresh show p'))"

text \<open>The subscription to \<open>selectMessageDefsResult\<close>\<close>

definition mp_loaded :: "app_state \<Rightarrow> messages_panel \<Rightarrow> messages_panel" where
  "mp_loaded s p = (let r = selectMessageDefsResult s in if \<not> truthy r then p else p\<lparr>mp_messages := r\<rparr>)"

text \<open>The messages that the subscriptions to actions show\<close>

fun mp_notice :: "action \<Rightarrow> string option" where
  "mp_notice (MessageA (CompleteAddMessageDefinition i d n ds sch)) = Some ''vpn.messages.messageDefAdded''"
| "mp_notice (MessageA ErrorAddMessageDefinition) = Some ''vpn.messages.errorAddMessageDef''"
| "mp_notice (MessageA (CompleteUpdateMessageDefinition i ds sch)) = Some ''vpn.messages.messagDefUpdated''"
| "mp_notice (MessageA ErrorUpdateMessageDefinition) = Some ''vpn.messages.errorUpdateMessageDef''"
| "mp_notice (MessageA (CompletePublishMessageDefinition i k)) = Some ''vpn.messages.messageDefPublished''"
| "mp_notice (MessageA ErrorPublishMessageDefinition) = Some ''vpn.messages.errorPublishMessage''"
| "mp_notice a = None"

definition publishMessage :: "(js \<Rightarrow> string) \<Rightarrow> js \<Rightarrow> action res" where
  "publishMessage show message = do {
     i \<leftarrow> js_get message ''id'';
     nm \<leftarrow> js_get message ''name'';
     Some (MessageA (PublishMessageDefinition (js_string show i) (js_string show nm)))
   }"

text \<open>\<open>editMessage\<close> and \<open>addMessage\<close>, with what the dialog has been closed with\<close>

definition editMessage :: "(js \<Rightarrow> string) \<Rightarrow> js \<Rightarrow> js option \<Rightarrow> action option res" where
  "editMessage show message e =
     (case e of
        None \<Rightarrow> Some None
      | Some v \<Rightarrow> do {
          i \<leftarrow> js_get message ''id'';
          ds \<leftarrow> js_get v ''description'';
          sch \<leftarrow> js_get v ''jsonSchema'';
          Some (Some (MessageA (UpdateMessageDefinition (js_string show i) (js_string show ds) (js_string show sch))))
        })"

definition addMessage :: "(js \<Rightarrow> string) \<Rightarrow> messages_panel \<Rightarrow> js option \<Rightarrow> action option res" where
  "addMessage show p e =
     (case e of
        None \<Rightarrow> Some None
      | Some v \<Rightarrow>
          (if \<not> truthy (mp_appDomainId p) then Some None
           else do {
             nm \<leftarrow> js_get v ''name'';
             ds \<leftarrow> js_get v ''description'';
             sch \<leftarrow> js_get v ''jsonSchema'';
             Some (Some (MessageA (AddMessageDefinition (js_string show (mp_appDomainId p)) (js_string show nm) (js_string show ds) (js_string show sch))))
           }))"


section \<open>Editing a message again\<close>

lemma json_value_JObj: "json_value (JObj kvs) \<longleftrightarrow> (\<forall>(k, v) \<in> set kvs. json_value v)"
proof
  assume j: "json_value (JObj kvs)"
  then have e: "map (\<lambda>(k, v). (k, json_clone v)) (filter (\<lambda>(k, v). v \<noteq> Undef) kvs) = kvs" by (simp add: json_value_def)
  then have "length (filter (\<lambda>(k, v). v \<noteq> Undef) kvs) = length kvs" by (metis length_map)
  then have f: "filter (\<lambda>(k, v). v \<noteq> Undef) kvs = kvs" by (metis length_filter_less nless_le filter_True)
  then have "map (\<lambda>(k, v). (k, json_clone v)) kvs = map (\<lambda>x. x) kvs" using e by simp
  then have "\<forall>(k, v) \<in> set kvs. json_clone v = v" by (auto simp only: map_eq_conv split_paired_all prod.case)
  moreover have "\<forall>(k, v) \<in> set kvs. v \<noteq> Undef" using f by (simp add: filter_id_conv)
  ultimately show "\<forall>(k, v) \<in> set kvs. json_value v" by (auto simp: json_value_def)
next
  assume a: "\<forall>(k, v) \<in> set kvs. json_value v"
  then have "filter (\<lambda>(k, v). v \<noteq> Undef) kvs = kvs" by (auto simp: filter_id_conv json_value_def)
  moreover have "map (\<lambda>(k, v). (k, json_clone v)) kvs = kvs" using a by (induction kvs) (auto simp: json_value_def)
  ultimately show "json_value (JObj kvs)" by (simp add: json_value_def)
qed

definition own_properties :: "(string \<times> js) list \<Rightarrow> (string \<times> js) list" where
  "own_properties ps = filter (\<lambda>(k, v). k \<notin> set cloudEvtProperties) ps"

lemma copy_properties_own:
  "distinct (map fst (acc @ own_properties ps)) \<Longrightarrow> copy_properties (JObj ps) acc = acc @ own_properties ps"
proof (induction ps arbitrary: acc)
  case (Cons kv ps)
  obtain k v where kv: "kv = (k, v)" by (cases kv)
  show ?case
  proof (cases "k \<in> set cloudEvtProperties")
    case True
    then show ?thesis using Cons kv by (simp add: copy_properties_def own_properties_def)
  next
    case False
    then have "k \<notin> fst ` set acc" using Cons.prems kv by (auto simp: own_properties_def)
    then show ?thesis using False Cons.IH [of "acc @ [(k, v)]"] Cons.prems kv
      by (simp add: copy_properties_def own_properties_def map_fst_update_new)
  qed
qed (simp add: copy_properties_def own_properties_def)

lemma own_cloud: "own_properties (cloud_event @ own_properties ps) = own_properties ps"
  by (auto simp: own_properties_def cloud_event_def cloudEvtProperties_def)

lemma distinct_cloud:
  assumes "distinct (map fst ps)"
  shows "distinct (map fst (cloud_event @ own_properties ps))" and "distinct (map fst (own_properties ps))"
proof -
  show d: "distinct (map fst (own_properties ps))" using assms by (simp add: own_properties_def distinct_map_filter)
  have "fst ` set cloud_event \<inter> fst ` set (own_properties ps) = {}"
    by (auto simp: own_properties_def cloud_event_def cloudEvtProperties_def)
  then show "distinct (map fst (cloud_event @ own_properties ps))" using d by (simp add: cloud_event_def)
qed

lemma example_property_value [simp]: "json_value (example_property e)"
  by (simp add: json_value_def example_property_def)

lemma schema_value:
  assumes "json_value (JObj ps)" and "json_value r \<or> \<not> truthy r"
  shows "json_value (JObj (put_truthy ''required'' r [(''$schema'', JStr a), (''type'', JStr b), (''properties'', JObj (cloud_event @ own_properties ps))]))"
    and "json_value (JObj (put_truthy ''required'' r (if own_properties ps = [] then [] else [(''properties'', JObj (own_properties ps))])))"
proof -
  have o: "json_value (JObj (own_properties ps))" using assms(1) by (auto simp: json_value_JObj own_properties_def)
  then have c: "json_value (JObj (cloud_event @ own_properties ps))" by (auto simp: json_value_JObj cloud_event_def)
  have s: "json_value (JStr x)" for x by (simp add: json_value_def)
  show "json_value (JObj (put_truthy ''required'' r [(''$schema'', JStr a), (''type'', JStr b), (''properties'', JObj (cloud_event @ own_properties ps))]))"
    using c s assms(2) by (subst json_value_JObj) (auto simp: put_truthy_def)
  show "json_value (JObj (put_truthy ''required'' r (if own_properties ps = [] then [] else [(''properties'', JObj (own_properties ps))])))"
    using o assms(2) by (subst json_value_JObj) (auto simp: put_truthy_def)
qed


lemma put_falsy: "\<not> truthy v \<Longrightarrow> put_truthy k v kvs = kvs"
  by (simp add: put_truthy_def)

lemma typed_value: "json_laws stringify parse \<Longrightarrow> parse t = Some (JObj kvs) \<Longrightarrow> json_value (obj_lookup kvs k) \<or> \<not> truthy (obj_lookup kvs k)"
proof (cases "obj_lookup kvs k = Undef")
  case False
  assume "json_laws stringify parse" and "parse t = Some (JObj kvs)"
  then have "json_value (JObj kvs)" by (auto simp: json_laws_def)
  moreover have "(k, obj_lookup kvs k) \<in> set kvs"
    using False by (auto simp: obj_lookup_def split: option.splits dest: map_of_SomeD)
  ultimately show ?thesis by (auto simp: json_value_JObj)
qed simp

text \<open>
  C39. What the dialog of a message definition stores can be edited again: for a schema that is typed
  as an object with properties, saving, opening the stored definition and saving it again gives the
  same name, description and stored schema, and the schema shown for editing has exactly the typed
  properties except those named \<open>id\<close>, \<open>source\<close> and \<open>type\<close>, which the dialog replaces by those of a cloud
  event, and the typed list of required properties. Every other key of the typed schema is lost.
\<close>

theorem message_dialog_roundtrip:
  assumes laws: "json_laws stringify parse" and t: "truthy t" "parse t = Some (JObj kvs)" "obj_lookup kvs ''properties'' = JObj ps"
    and d: "distinct (map fst ps)" and f: "mf_listening f" "\<not> blank (mf_name f)" "\<not> blank (mf_description f)"
  shows "\<exists>f1 e f2. mf_set_schema parse stringify t f = Some f1 \<and> mf_save blank f1 = Some e \<and> mf_open parse stringify e = Some f2 \<and>
    mf_name f2 = mf_name f \<and> mf_description f2 = mf_description f \<and> mf_jsonSchema f2 = mf_jsonSchema f1 \<and>
    parse (mf_messageJsonSchema f2) = Some (JObj (put_truthy ''required'' (obj_lookup kvs ''required'')
      (if own_properties ps = [] then [] else [(''properties'', JObj (own_properties ps))])))"
proof -
  let ?r = "obj_lookup kvs ''required''"
  let ?stored = "JObj (put_truthy ''required'' ?r [(''$schema'', JStr ''http://json-schema.org/schema''), (''type'', JStr ''object''), (''properties'', JObj (cloud_event @ own_properties ps))])"
  let ?own = "JObj (put_truthy ''required'' ?r (if own_properties ps = [] then [] else [(''properties'', JObj (own_properties ps))]))"
  have r: "json_value ?r \<or> \<not> truthy ?r" and jp: "json_value (JObj ps)"
    using typed_value [OF laws t(2)] t(3) by (metis, metis truthy.simps(7))
  note sv = schema_value [OF jp r]
  have own: "own_properties (own_properties ps) = own_properties ps" by (auto simp: own_properties_def)
  have env: "envelope (JObj ps) ?r = ?stored"
    using distinct_cloud(1) [OF d] by (simp add: envelope_def copy_properties_own)
  let ?f1 = "f\<lparr>mf_messageJsonSchema := t, mf_jsonSchema := stringify ?stored\<rparr>"
  have 1: "mf_set_schema parse stringify t f = Some ?f1"
    using t f(1) by (simp add: mf_set_schema_def refreshJsonSchema_def typed_schema_def env)
  let ?e = "JObj [(''name'', mf_name f), (''description'', mf_description f), (''messageJsonSchema'', t), (''jsonSchema'', stringify ?stored)]"
  have 2: "mf_save blank ?f1 = Some ?e" using f by (simp add: mf_save_def)
  have ex: "extractJsonMessage parse stringify (stringify ?stored) = Some (stringify ?own)"
    using stringify_parse [OF laws sv(1)] distinct_cloud [OF d]
    by (simp add: extractJsonMessage_def message_part_def copy_properties_own own_cloud put_falsy)
  have "typed_schema parse (stringify ?own) = ?own" using stringify_parse [OF laws sv(2)] by (simp add: typed_schema_def)
  moreover have "envelope (if own_properties ps = [] then Undef else JObj (own_properties ps)) (if truthy ?r then ?r else Undef) = ?stored"
    using distinct_cloud [OF d] by (auto simp: envelope_def copy_properties_own own put_truthy_def)
  ultimately have ref: "refreshJsonSchema parse stringify (g\<lparr>mf_messageJsonSchema := stringify ?own\<rparr>) =
      Some (g\<lparr>mf_messageJsonSchema := stringify ?own, mf_jsonSchema := stringify ?stored\<rparr>)" for g
    by (auto simp: refreshJsonSchema_def put_truthy_def split: if_splits)
  have "mf_open parse stringify ?e = Some (new_AddMessageDef\<lparr>mf_name := mf_name f, mf_description := mf_description f,
      mf_messageJsonSchema := stringify ?own, mf_jsonSchema := stringify ?stored, mf_isEditable := True, mf_listening := True\<rparr>)"
    by (simp add: mf_open_def ex ref)
  then show ?thesis using 1 2 stringify_parse [OF laws sv(2)] by simp
qed

definition example_typed :: js where
  "example_typed = JArr [JObj [(''title'', JStr ''t''), (''properties'', JObj [(''id'', Null), (''x'', JNum 1)]), (''required'', JArr [JStr ''x''])]]"

theorem message_dialog_roundtrip_witness:
  "\<exists>f1 e f2. mf_set_schema unboxed boxed example_typed (new_AddMessageDef\<lparr>mf_name := JStr ''n'', mf_description := JStr ''d'', mf_listening := True\<rparr>) = Some f1 \<and>
     mf_save (\<lambda>v. v = JStr '''') f1 = Some e \<and> mf_open unboxed boxed e = Some f2 \<and>
     unboxed (mf_messageJsonSchema f2) = Some (JObj [(''properties'', JObj [(''x'', JNum 1)]), (''required'', JArr [JStr ''x''])])"
  using message_dialog_roundtrip [OF boxed_laws, of example_typed
      "[(''title'', JStr ''t''), (''properties'', JObj [(''id'', Null), (''x'', JNum 1)]), (''required'', JArr [JStr ''x''])]" "[(''id'', Null), (''x'', JNum 1)]"
      "new_AddMessageDef\<lparr>mf_name := JStr ''n'', mf_description := JStr ''d'', mf_listening := True\<rparr>" "\<lambda>v. v = JStr ''''"]
  by (auto simp: example_typed_def unboxed_def own_properties_def cloudEvtProperties_def put_truthy_def)

end
