(* ===== verification/Jq_Completion.thy ===== *)
theory Jq_Completion
  imports Expression_Editor Store_Core "HOL-Library.Sublist"
begin

text \<open>
  The completion of jq expressions in the expression editor
  (components/monaco-editor/languages/jq/jq-contribution.ts): the properties that it finds in the
  document of the text model, and what it suggests for the text before the cursor. \<open>None\<close> is a
  \<open>TypeError\<close>. The keys of an object are distinct, and a document is what \<open>JSON.parse\<close> gives.
\<close>

section \<open>Values as keyed collections\<close>


text \<open>\<open>isArray\<close>: an array with an element of type object\<close>

fun isArray :: "js \<Rightarrow> bool" where
  "isArray (JArr xs) = (\<exists>r \<in> set xs. typeof_object r)"
| "isArray v = False"

lemma in_children_size: "(k, v) \<in> set (children j) \<Longrightarrow> typeof_object j \<Longrightarrow> size v < size j"
proof (cases j)
  case (JArr xs)
  moreover assume "(k, v) \<in> set (children j)"
  ultimately have "v \<in> set xs" by (auto dest: in_indexed)
  then show ?thesis using JArr size_list_estimation' [of v xs "size v" size] by auto
next
  case (JObj kvs)
  moreover assume "(k, v) \<in> set (children j)"
  ultimately have "(k, v) \<in> set kvs" by simp
  then show ?thesis using JObj size_list_estimation' [of "(k, v)" kvs "size v" "size_prod (\<lambda>_. 0) size"] by auto
qed auto

lemma obj_lookup_in: "obj_lookup kvs k \<noteq> Undef \<Longrightarrow> (k, obj_lookup kvs k) \<in> set kvs"
  by (induction kvs) (auto split: if_splits)

lemma js_index_size: "js_index j k = Some v \<Longrightarrow> typeof_object v \<Longrightarrow> typeof_object j \<and> size v < size j"
proof -
  assume a: "js_index j k = Some v" "typeof_object v"
  have n: "v \<noteq> Undef" using a(2) by auto
  show ?thesis
  proof (cases j)
    case (JArr xs)
    then have "v = obj_lookup (children j) k" using a by (auto split: if_splits)
    then show ?thesis using obj_lookup_in [of "children j" k] n in_children_size [of k v j] JArr by simp
  next
    case (JObj kvs)
    then have "v = obj_lookup (children j) k" using a by (auto split: if_splits)
    then show ?thesis using obj_lookup_in [of "children j" k] n in_children_size [of k v j] JObj by simp
  next
    case (JStr s)
    then have "v = obj_lookup (children j) k" using a by (auto split: if_splits)
    then have "(k, v) \<in> set (children j)" using obj_lookup_in [of "children j" k] n by simp
    then have "v \<in> set (map (\<lambda>c. JStr [c]) s)" using JStr by (auto dest: in_indexed)
    then show ?thesis using a(2) by auto
  qed (use a n in auto)
qed

section \<open>The properties of a document\<close>

text \<open>\<open>if (!path) { path = key; } else { path = path + '.' + key; }\<close>, with the empty string for \<open>null\<close>\<close>

definition extend_path :: "string \<Rightarrow> string \<Rightarrow> string" where
  "extend_path path key = (if path = [] then key else path @ ''.'' @ key)"

function getProperties :: "string \<Rightarrow> js \<Rightarrow> string \<Rightarrow> string list res" where
  "getProperties key json path =
     (case js_index json key of
        None \<Rightarrow> TypeError
      | Some val \<Rightarrow>
          (let path' = (if isArray json then ''[]'' else extend_path path key);
               result = (if isArray json then [] else [path'])
           in if typeof_object val
              then map_option (\<lambda>rs. result @ concat rs) (those (map (\<lambda>(k, v). getProperties k v path') (children val)))
              else Some result))"
  by pat_completeness auto
termination
proof (relation "measure (\<lambda>(key, json, path). size json)", goal_cases)
  case (2 key json path val path' result x k v)
  then have "size v < size val" using in_children_size by force
  then show ?case using js_index_size [OF 2(1) 2(4)] by simp
qed simp

declare getProperties.simps [simp del]

definition getAllProperties :: "js \<Rightarrow> string list res" where
  "getAllProperties json = map_option concat (those (map (\<lambda>(key, v). getProperties key json []) (children json)))"

section \<open>The suggestions\<close>

record suggestion =
  sg_label :: string
  sg_kind :: string
  sg_insertText :: string

definition fixed_suggestions :: "suggestion list" where
  "fixed_suggestions =
     [\<lparr>sg_label = ''keys'', sg_kind = ''Text'', sg_insertText = ''keys''\<rparr>,
      \<lparr>sg_label = ''|'', sg_kind = ''Text'', sg_insertText = ''|''\<rparr>,
      \<lparr>sg_label = ''length'', sg_kind = ''Text'', sg_insertText = ''length''\<rparr>,
      \<lparr>sg_label = ''has'', sg_kind = ''Keyword'', sg_insertText = ''has(${1:key})''\<rparr>]"

fun join_with :: "string \<Rightarrow> string list \<Rightarrow> string" where
  "join_with sep [] = []"
| "join_with sep [w] = w"
| "join_with sep (w # ws) = w @ sep @ join_with sep ws"

text \<open>\<open>text.split(/\.+/).filter(w => w !== '').join('.')\<close>\<close>

definition full_path :: "string \<Rightarrow> string" where
  "full_path t = join_with ''.'' (filter (\<lambda>w. w \<noteq> []) (js_split CHR ''.'' t))"

definition insert_text :: "string \<Rightarrow> string" where
  "insert_text p =
     (let str = remove1 CHR '']'' (remove1 CHR ''['' p)
      in if str \<noteq> [] \<and> hd str = CHR ''.'' then tl str else str)"

definition property_suggestion :: "string \<Rightarrow> suggestion" where
  "property_suggestion p = \<lparr>sg_label = p, sg_kind = ''Text'', sg_insertText = insert_text p\<rparr>"

text \<open>\<open>provideCompletionItems\<close>, for the document of the model and the text before the cursor\<close>

definition provideCompletionItems :: "js \<Rightarrow> string \<Rightarrow> suggestion list res" where
  "provideCompletionItems json textUntilPosition =
     (if \<not> truthy json then Some fixed_suggestions
      else map_option (\<lambda>ps. fixed_suggestions @ map property_suggestion (filter (prefix (full_path textUntilPosition)) ps))
             (getAllProperties json))"

section \<open>The paths of a document\<close>

text \<open>The reference: the paths from the root to every value inside a document\<close>

function paths :: "js \<Rightarrow> string list list" where
  "paths j = (if typeof_object j then concat (map (\<lambda>(k, v). [k] # map ((#) k) (paths v)) (children j)) else [])"
  by pat_completeness auto
termination
  by (relation "measure size") (auto simp: in_children_size)

declare paths.simps [simp del]

text \<open>The children of a child that the completion lists: not \<open>null\<close>, no array of objects, and without
  an object under their own name\<close>

definition simple_child :: "string \<Rightarrow> js \<Rightarrow> bool" where
  "simple_child k v \<longleftrightarrow> \<not> isArray v \<and> (case js_index v k of None \<Rightarrow> False | Some w \<Rightarrow> \<not> typeof_object w)"

definition simple_value :: "js \<Rightarrow> bool" where
  "simple_value v \<longleftrightarrow> (\<forall>(k, w) \<in> set (if typeof_object v then children v else []). simple_child k w)"

definition dotted :: "string list \<Rightarrow> string" where
  "dotted ws = join_with ''.'' ws"

lemma concat_single: "concat (map (\<lambda>(a, b). [f a b]) xs) = map (\<lambda>(a, b). f a b) xs"
  by (induction xs) auto

lemma simple_child_properties: "simple_child k v \<Longrightarrow> getProperties k v path = Some [extend_path path k]"
  by (auto simp: simple_child_def getProperties.simps split: option.splits)

lemma value_properties:
  assumes "simple_value v" and "js_index j k = Some v" and "\<not> isArray j" and "extend_path path k \<noteq> []"
  shows "getProperties k j path = Some (extend_path path k # (if typeof_object v then map (\<lambda>(k2, w). extend_path path k @ ''.'' @ k2) (children v) else []))"
proof (cases "typeof_object v")
  case True
  let ?p = "extend_path path k"
  have "those (map (\<lambda>(k2, w). getProperties k2 w ?p) (children v)) = Some (map (\<lambda>(k2, w). [?p @ ''.'' @ k2]) (children v))"
    using assms(1,4) True by (intro those_map_eq_Some) (auto simp: simple_value_def simple_child_properties extend_path_def)
  then show ?thesis using True assms(2,3)
    by (subst getProperties.simps) (simp add: Let_def comp_def concat_single)
next
  case False
  then show ?thesis using assms(2,3) by (subst getProperties.simps) (simp add: Let_def)
qed

lemma short_paths:
  "filter (\<lambda>p. length p \<le> 2) (map ((#) k) (paths v)) = (if typeof_object v then map (\<lambda>(k2, w). [k, k2]) (children v) else [])"
proof -
  have "filter (\<lambda>p. length p \<le> Suc 0) (paths v) = (if typeof_object v then map (\<lambda>(k2, w). [k2]) (children v) else [])"
  proof -
    have *: "filter (\<lambda>p. length p \<le> Suc 0) ([k] # map ((#) k) (paths w)) = [[k]]" for k w
    proof -
      have "[] \<notin> set (paths w)" by (subst paths.simps) auto
      then show ?thesis by (auto simp: filter_map comp_def filter_empty_conv)
    qed
    show ?thesis
    proof (cases "typeof_object v")
      case True
      then have "paths v = concat (map (\<lambda>(k, w). [k] # map ((#) k) (paths w)) (children v))" by (simp add: paths.simps [of v])
      then show ?thesis using True by (simp add: filter_concat comp_def case_prod_unfold * concat_map_singleton del: filter.simps)
    qed (simp add: paths.simps [of v])
  qed
  then show ?thesis by (simp add: filter_map comp_def case_prod_unfold)
qed


lemma short_paths_object:
  "map dotted (filter (\<lambda>p. length p \<le> 2) (paths (JObj kvs))) =
     concat (map (\<lambda>(k, v). k # (if typeof_object v then map (\<lambda>(k2, w). k @ ''.'' @ k2) (children v) else [])) kvs)"
proof -
  have "map dotted (filter (\<lambda>p. length p \<le> 2) ([k] # map ((#) k) (paths v))) =
    k # (if typeof_object v then map (\<lambda>(k2, w). k @ ''.'' @ k2) (children v) else [])" for k v
    using short_paths [of k v] by (simp add: dotted_def comp_def case_prod_unfold)
  then show ?thesis by (simp add: paths.simps [of "JObj kvs"] filter_concat map_concat comp_def case_prod_unfold del: filter.simps)
qed

lemma full_path_typed:
  "list_all (\<lambda>w. w \<noteq> [] \<and> CHR ''.'' \<notin> set w) ws \<Longrightarrow> full_path (CHR ''.'' # dotted ws) = dotted ws"
proof -
  assume ws: "list_all (\<lambda>w. w \<noteq> [] \<and> CHR ''.'' \<notin> set w) ws"
  have "filter (\<lambda>w. w \<noteq> []) (js_split CHR ''.'' (dotted ws)) = ws"
    using ws unfolding dotted_def by (induction "''.''" ws rule: join_with.induct) (simp_all add: js_split_none js_split_append)
  then show ?thesis by (simp add: full_path_def dotted_def)
qed

text \<open>
  C38. The completion of jq expressions against the reference definition of the paths of a document:
  for an object whose values have only simple children, the properties found are the paths of at most
  two keys, in the order of the document, and for a typed path the suggestions are the four fixed
  ones and then exactly those paths that begin with it.
\<close>

theorem completion_lists_short_paths:
  assumes "distinct (map fst kvs)" and "\<forall>(k, v) \<in> set kvs. k \<noteq> [] \<and> simple_value v"
    and "list_all (\<lambda>w. w \<noteq> [] \<and> CHR ''.'' \<notin> set w) ws"
  shows "getAllProperties (JObj kvs) = Some (map dotted (filter (\<lambda>p. length p \<le> 2) (paths (JObj kvs)))) \<and>
    provideCompletionItems (JObj kvs) (CHR ''.'' # dotted ws) =
      Some (fixed_suggestions @ map property_suggestion
        (filter (prefix (dotted ws)) (map dotted (filter (\<lambda>p. length p \<le> 2) (paths (JObj kvs))))))"
proof -
  have *: "getProperties k (JObj kvs) [] = Some (k # (if typeof_object v then map (\<lambda>(k2, w). k @ ''.'' @ k2) (children v) else []))"
    if "(k, v) \<in> set kvs" for k v
  proof -
    have "js_index (JObj kvs) k = Some v" using that assms(1) by (simp add: obj_lookup_def)
    moreover have "k \<noteq> []" "simple_value v" using that assms(2) by auto
    ultimately show ?thesis using value_properties [of v "JObj kvs" k "[]"] by (simp add: extend_path_def)
  qed
  have 1: "getAllProperties (JObj kvs) = Some (map dotted (filter (\<lambda>p. length p \<le> 2) (paths (JObj kvs))))"
  proof -
    have "those (map (\<lambda>(k, v). getProperties k (JObj kvs) []) kvs) =
      Some (map (\<lambda>(k, v). k # (if typeof_object v then map (\<lambda>(k2, w). k @ ''.'' @ k2) (children v) else [])) kvs)"
      using * by (intro those_map_eq_Some) auto
    then show ?thesis unfolding short_paths_object by (simp add: getAllProperties_def)
  qed
  then show ?thesis using full_path_typed [OF assms(3)] by (simp add: provideCompletionItems_def)
qed

definition example_jq_document :: "(string \<times> js) list" where
  "example_jq_document = [(''user'', JObj [(''name'', JStr ''n''), (''home'', JObj [(''city'', JStr ''c'')])]), (''age'', JNum 1)]"

theorem completion_lists_short_paths_witness:
  "getAllProperties (JObj example_jq_document) = Some [''user'', ''user.name'', ''user.home'', ''age''] \<and>
   [''user'', ''home'', ''city''] \<in> set (paths (JObj example_jq_document))"
proof -
  have s: "simple_value (JObj [(''name'', JStr ''n''), (''home'', JObj [(''city'', JStr ''c'')])])" "simple_value (JNum 1)"
    by (simp_all add: simple_value_def simple_child_def obj_lookup_def indexed_def nat_dec.simps)
  have "distinct (map fst example_jq_document)" "\<forall>(k, v) \<in> set example_jq_document. k \<noteq> [] \<and> simple_value v"
    using s by (simp_all add: example_jq_document_def)
  from completion_lists_short_paths [OF this, of "[]"] show ?thesis
    by (simp add: example_jq_document_def paths.simps dotted_def)
qed


lemma those_None: "None \<in> set ys \<Longrightarrow> those ys = None"
  by (induction ys) (auto split: option.splits)

text \<open>A document with a \<open>null\<close> inside one of its values has no completion: collecting the properties throws.\<close>

lemma nested_null_throws:
  assumes "distinct (map fst kvs)" and "(k, v) \<in> set kvs" and "typeof_object v" and "(k2, Null) \<in> set (children v)"
  shows "getAllProperties (JObj kvs) = None"
proof -
  have "js_index (JObj kvs) k = Some v" using assms(1,2) by (simp add: obj_lookup_def)
  moreover have "None \<in> set (map (\<lambda>(k2, w). getProperties k2 w (extend_path [] k)) (children v))"
    using assms(4) by (auto simp: getProperties.simps [of _ Null] image_iff intro!: bexI [where x = "(k2, Null)"])
  then have "those (map (\<lambda>(k2, w). getProperties k2 w (extend_path [] k)) (children v)) = None" by (rule those_None)
  ultimately have "getProperties k (JObj kvs) [] = None" using assms(3) by (subst getProperties.simps) (simp add: Let_def)
  then have "None \<in> set (map (\<lambda>(key, w). getProperties key (JObj kvs) []) kvs)"
    using assms(2) by (auto simp: image_iff intro!: bexI [where x = "(k, v)"])
  then show ?thesis by (simp add: getAllProperties_def those_None)
qed

end
