(* ===== verification/Workflow_Page.thy ===== *)
theory Workflow_Page
  imports App_Store Dialog_Function
begin

text \<open>
  The page that edits a workflow (app/statemachines/edit/edit.component.ts) with its form of general
  information (info/info.component.ts) and the page of an application domain
  (asyncapi/asyncapieditor.component.ts, app/vpns/view/appdomains/view/editor/editor.component.ts),
  together with the application's store: the pages dispatch actions, and react to the values that
  selectors emit and to the actions that the reducers have processed. A selector emits a new value
  after an action whose reducer makes a new object. \<open>None\<close> is a \<open>TypeError\<close>.
\<close>

section \<open>The page and the store\<close>

record workflow_page =
  wp_def :: "sm_state option sm_model"
  wp_isLoading :: bool
  wp_id :: js
  wp_action :: string

record session =
  ss_page :: workflow_page
  ss_rt :: runtime

text \<open>The subscription to \<open>selectStateMachineResult\<close>\<close>

definition page_loaded :: "app_state \<Rightarrow> workflow_page \<Rightarrow> workflow_page res" where
  "page_loaded s p =
     (let r = selectStateMachineResult s
      in if \<not> truthy r then Some p else map_option (\<lambda>m. p\<lparr>wp_def := m\<rparr>) (build r))"

fun emits_stateMachine :: "action \<Rightarrow> bool" where
  "emits_stateMachine (SmA (CompleteGetJson content)) = True"
| "emits_stateMachine (SmA (CompleteUpdateInfo i name description)) = True"
| "emits_stateMachine a = False"

text \<open>The subscriptions to the processed actions, without the messages that they show\<close>

fun page_react :: "action \<Rightarrow> workflow_page \<Rightarrow> workflow_page" where
  "page_react (SmA (CompleteUpdate i)) p = p\<lparr>wp_isLoading := False, wp_id := i\<rparr>"
| "page_react (SmA ErrorUpdate) p = p\<lparr>wp_isLoading := False\<rparr>"
| "page_react (SmA (CompleteLaunch i t)) p = p\<lparr>wp_isLoading := False\<rparr>"
| "page_react (SmA ErrorLaunch) p = p\<lparr>wp_isLoading := False\<rparr>"
| "page_react a p = p"

text \<open>\<open>init\<close>: the action that asks for the document\<close>

definition load_action :: "(js \<Rightarrow> string) \<Rightarrow> js \<Rightarrow> action" where
  "load_action show i = SmA (StartGetJson (js_string show i))"

fun reload_after :: "action \<Rightarrow> bool" where
  "reload_after (SmA (CompleteUpdate i)) = True"
| "reload_after a = False"

text \<open>An action reaches the reducers, then the selectors, then the subscribers of actions.\<close>

definition ss_dispatch :: "(js \<Rightarrow> string) \<Rightarrow> (js \<Rightarrow> string) \<Rightarrow> string \<Rightarrow> js \<Rightarrow> action \<Rightarrow> session \<Rightarrow> session res" where
  "ss_dispatch show yaml api now a s = do {
     rt \<leftarrow> dispatch yaml api now a (ss_rt s);
     p \<leftarrow> (if emits_stateMachine a then page_loaded (rt_state rt) (ss_page s) else Some (ss_page s));
     let p' = page_react a p;
     rt' \<leftarrow> (if reload_after a then dispatch yaml api now (load_action show (wp_id p')) rt else Some rt);
     Some \<lparr>ss_page = p', ss_rt = rt'\<rparr>
   }"

definition ss_respond :: "(js \<Rightarrow> string) \<Rightarrow> (js \<Rightarrow> string) \<Rightarrow> string \<Rightarrow> js \<Rightarrow> nat \<Rightarrow> outcome \<Rightarrow> session \<Rightarrow> session res" where
  "ss_respond show yaml api now i r s =
     (let rt = ss_rt s
      in ss_dispatch show yaml api now (snd (rt_pending rt ! i) r)
           (s\<lparr>ss_rt := rt\<lparr>rt_pending := take i (rt_pending rt) @ drop (Suc i) (rt_pending rt)\<rparr>\<rparr>))"

text \<open>\<open>ngOnInit\<close>: the selector first emits what the store holds from before.\<close>

definition page_open :: "(js \<Rightarrow> string) \<Rightarrow> (js \<Rightarrow> string) \<Rightarrow> string \<Rightarrow> js \<Rightarrow> js \<Rightarrow> string \<Rightarrow> runtime \<Rightarrow> session res" where
  "page_open show yaml api now i act rt = do {
     p \<leftarrow> page_loaded (rt_state rt) \<lparr>wp_def = new_StateMachineModel, wp_isLoading = False, wp_id = JStr '''', wp_action = ''''\<rparr>;
     let p' = p\<lparr>wp_id := i, wp_action := act\<rparr>;
     rt' \<leftarrow> dispatch yaml api now (load_action show i) rt;
     Some \<lparr>ss_page = p', ss_rt = rt'\<rparr>
   }"

definition getTooltip :: "string \<Rightarrow> string" where
  "getTooltip act =
     (if act = ''workflow'' \<or> act = ''events'' then ''Update Serverless workflow''
      else if act = ''asyncapi'' then ''Update AsyncApi''
      else if act = ''info'' then ''Information'' else '''')"

section \<open>The form of general information\<close>

record info_form =
  if_id :: js
  if_name :: js
  if_description :: js
  if_version :: js
  if_applicationDomainId :: js
  if_vpn :: js
  if_isLoading :: bool

text \<open>The setter of \<open>stateMachine\<close>\<close>

definition info_init :: "js \<Rightarrow> sm_state option sm_model \<Rightarrow> info_form \<Rightarrow> info_form" where
  "info_init i m f = f\<lparr>if_id := i, if_name := m_name m, if_description := m_description m, if_version := m_version m,
     if_applicationDomainId := m_applicationDomainId m, if_vpn := m_vpn m\<rparr>"

text \<open>The subscriptions of the form; \<open>reset\<close> sets all controls to \<open>null\<close>.\<close>

fun info_react :: "action \<Rightarrow> info_form \<Rightarrow> info_form" where
  "info_react (SmA ErrorUpdateInfo) f = f\<lparr>if_isLoading := False\<rparr>"
| "info_react (SmA (CompleteUpdateInfo i name description)) f =
     \<lparr>if_id = Null, if_name = Null, if_description = Null, if_version = Null, if_applicationDomainId = Null, if_vpn = Null, if_isLoading = False\<rparr>"
| "info_react a f = f"

definition info_update :: "(js \<Rightarrow> string) \<Rightarrow> (js \<Rightarrow> bool) \<Rightarrow> js \<Rightarrow> sm_state option sm_model \<Rightarrow> info_form \<Rightarrow> info_form \<times> action option" where
  "info_update show blank i m f =
     (if \<not> truthy (m_id m) \<or> blank (if_name f) \<or> blank (if_description f) then (f, None)
      else (f\<lparr>if_isLoading := True\<rparr>,
            Some (SmA (StartUpdateInfo (js_string show i) (js_string show (if_name f)) (js_string show (if_description f))))))"

section \<open>The page of an application domain\<close>

record domain_page =
  dm_appDomainId :: js
  dm_rootTopic :: js
  dm_vpnName :: js
  dm_applications :: js
  dm_messages :: js

definition new_AsyncApiPage :: domain_page where
  "new_AsyncApiPage = \<lparr>dm_appDomainId = JStr '''', dm_rootTopic = JStr '''', dm_vpnName = JStr '''', dm_applications = JArr [], dm_messages = JArr []\<rparr>"

text \<open>The subscriptions to \<open>selectAppDomainResult\<close> and \<open>selectMessageDefsResult\<close>\<close>

definition domain_loaded :: "app_state \<Rightarrow> domain_page \<Rightarrow> domain_page res" where
  "domain_loaded s p =
     (let r = selectAppDomainResult s
      in if \<not> truthy r then Some p
         else do {
           t \<leftarrow> js_get r ''rootTopic'';
           apps \<leftarrow> js_get r ''applications'';
           if apps = Undef then TypeError else Some (p\<lparr>dm_rootTopic := t, dm_applications := json_clone apps\<rparr>)
         })"

definition messages_loaded :: "app_state \<Rightarrow> domain_page \<Rightarrow> domain_page" where
  "messages_loaded s p =
     (let r = selectMessageDefsResult s in if \<not> truthy r then p else p\<lparr>dm_messages := r\<rparr>)"

text \<open>The setter of \<open>stateMachine\<close> and \<open>refresh\<close>: the two actions that it dispatches\<close>

definition domain_open :: "(js \<Rightarrow> string) \<Rightarrow> sm_state option sm_model \<Rightarrow> domain_page \<Rightarrow> domain_page \<times> action list" where
  "domain_open show m p =
     (if truthy (m_id m) \<and> truthy (m_applicationDomainId m)
      then (p\<lparr>dm_appDomainId := m_applicationDomainId m, dm_vpnName := m_vpn m\<rparr>,
            [DomainA (StartGetAppDomain (js_string show (m_applicationDomainId m))),
             MessageA (GetLatestMessages (js_string show (m_applicationDomainId m)))])
      else (p, []))"

definition domain_update :: "(js \<Rightarrow> string) \<Rightarrow> domain_page \<Rightarrow> action" where
  "domain_update show p = DomainA (UpdateApplicationDomain (js_string show (dm_appDomainId p)) (dm_applications p))"

section \<open>Saving and launching\<close>

text \<open>\<open>update\<close>, with the child components that the current tab shows\<close>

definition page_update ::
    "(js \<Rightarrow> string) \<Rightarrow> (js \<Rightarrow> bool) \<Rightarrow> (js \<Rightarrow> string) \<Rightarrow> string \<Rightarrow> js \<Rightarrow> domain_page option \<Rightarrow> info_form option \<Rightarrow> session \<Rightarrow> session res" where
  "page_update show blank yaml api now editor info s =
     (let p = ss_page s
      in if wp_action p = ''asyncapi'' \<and> editor \<noteq> None
         then ss_dispatch show yaml api now (domain_update show (the editor)) s
         else if wp_action p = ''info'' \<and> info \<noteq> None
         then (case snd (info_update show blank (wp_id p) (wp_def p) (the info)) of
                 None \<Rightarrow> Some s | Some a \<Rightarrow> ss_dispatch show yaml api now a s)
         else do {
           json \<leftarrow> getJson (wp_def p);
           ss_dispatch show yaml api now (SmA (StartUpdate (js_string show (wp_id p)) json)) (s\<lparr>ss_page := p\<lparr>wp_isLoading := True\<rparr>\<rparr>)
         })"

text \<open>The answer of the launching dialog: the document that is typed in, and parameters\<close>

definition page_launch :: "(js \<Rightarrow> string) \<Rightarrow> (js \<Rightarrow> string) \<Rightarrow> string \<Rightarrow> js \<Rightarrow> (js \<times> js) option \<Rightarrow> session \<Rightarrow> session res" where
  "page_launch show yaml api now opt s =
     (case opt of
        None \<Rightarrow> Some s
      | Some (json, parameters) \<Rightarrow>
          (let p = ss_page s
           in if \<not> truthy json \<or> \<not> truthy (m_id (wp_def p)) then Some s
              else ss_dispatch show yaml api now (SmA (StartLaunch (js_string show (wp_id p)) json parameters)) (s\<lparr>ss_page := p\<lparr>wp_isLoading := True\<rparr>\<rparr>)))"

section \<open>Saving and showing again\<close>

lemma plain_dispatch:
  "\<not> emits_stateMachine a \<Longrightarrow> \<not> reload_after a \<Longrightarrow> ss_dispatch show yaml api now a s =
     map_option (\<lambda>rt. \<lparr>ss_page = page_react a (ss_page s), ss_rt = rt\<rparr>) (dispatch yaml api now a (ss_rt s))"
  by (cases "dispatch yaml api now a (ss_rt s)") (simp_all add: ss_dispatch_def)

lemma dispatch_sm:
  "dispatch yaml api now (SmA a) rt = Some \<lparr>rt_state = (rt_state rt)
       \<lparr>stateMachines := searchStateMachinesReducer a (stateMachines (rt_state rt)), stateMachine := stateMachineReducer a (stateMachine (rt_state rt))\<rparr>,
     rt_pending = rt_pending rt @ (case sm_effect yaml api a of None \<Rightarrow> [] | Some (rq, k) \<Rightarrow> [(rq, \<lambda>r. SmA (k r))])\<rparr>"
  by (simp add: dispatch_def lift_effect_def split: option.split)

lemma load_dispatch:
  assumes "js_get r ''id'' = Some i"
  shows "ss_dispatch show yaml api now (SmA (settle (\<lambda>content. map_option CompleteUpdate (js_get content ''id'')) ErrorUpdate (Success r))) s =
    Some \<lparr>ss_page = (ss_page s)\<lparr>wp_isLoading := False, wp_id := i\<rparr>,
      ss_rt = (ss_rt s)\<lparr>rt_pending := rt_pending (ss_rt s) @ [(rq_getJson api (js_string show i), \<lambda>r. SmA (settle (\<lambda>content. Some (CompleteGetJson content)) ErrorGetJson r))]\<rparr>\<rparr>"
  using assms by (simp add: ss_dispatch_def settle_def dispatch_sm load_action_def)

lemma getJson_object: "getJson (defined m) = Some j \<Longrightarrow> \<exists>kvs. j = JObj kvs"
  by (auto simp: getJson_defined)

text \<open>
  C28. Saving the workflow of the page, over all steps: the page sends the document, the answer makes
  it ask for the document, and when the server answers with what it was sent, the page shows exactly
  the normalised document, no longer loading and with no request left over, whatever other requests
  were pending. When the server refuses the update, the page keeps the document as it was edited.
\<close>

theorem saved_workflow_is_shown_again:
  assumes "document_ok m" and "wp_def (ss_page s) = defined m" and "wp_action (ss_page s) \<notin> {''asyncapi'', ''info''}"
    and "js_get r ''id'' = Some i"
  shows "\<exists>json s1 s2 s3 s4. getJson (defined m) = Some json \<and>
    page_update show blank yaml api now editor info s = Some s1 \<and>
    map fst (rt_pending (ss_rt s1)) = map fst (rt_pending (ss_rt s)) @ [rq_update yaml api (js_string show (wp_id (ss_page s))) json] \<and>
    ss_respond show yaml api now (length (rt_pending (ss_rt s))) (Success r) s1 = Some s2 \<and>
    map fst (rt_pending (ss_rt s2)) = map fst (rt_pending (ss_rt s)) @ [rq_getJson api (js_string show i)] \<and>
    ss_respond show yaml api now (length (rt_pending (ss_rt s))) (Success json) s2 = Some s3 \<and>
    wp_def (ss_page s3) = norm_model m \<and> \<not> wp_isLoading (ss_page s3) \<and> wp_id (ss_page s3) = i \<and> rt_pending (ss_rt s3) = rt_pending (ss_rt s) \<and>
    ss_respond show yaml api now (length (rt_pending (ss_rt s))) Failure s1 = Some s4 \<and>
    ss_page s4 = (ss_page s)\<lparr>wp_isLoading := False\<rparr>"
proof -
  obtain json where j: "getJson (defined m) = Some json" "build json = Some (norm_model m)"
    using document_reload_aux [OF assms(1)] by (auto split: Option.bind_splits)
  obtain kvs where o: "json = JObj kvs" using getJson_object [OF j(1)] by blast
  let ?ps = "rt_pending (ss_rt s)"
  define k where "k = (\<lambda>r. SmA (settle (\<lambda>content. map_option CompleteUpdate (js_get content ''id'')) ErrorUpdate r))"
  define s1 where "s1 = \<lparr>ss_page = (ss_page s)\<lparr>wp_isLoading := True\<rparr>,
    ss_rt = (ss_rt s)\<lparr>rt_pending := ?ps @ [(rq_update yaml api (js_string show (wp_id (ss_page s))) json, k)]\<rparr>\<rparr>"
  define g where "g = (\<lambda>r. SmA (settle (\<lambda>content. Some (CompleteGetJson content)) ErrorGetJson r))"
  define s2 where "s2 = \<lparr>ss_page = (ss_page s)\<lparr>wp_isLoading := False, wp_id := i\<rparr>,
    ss_rt = (ss_rt s)\<lparr>rt_pending := ?ps @ [(rq_getJson api (js_string show i), g)]\<rparr>\<rparr>"
  define s3 where "s3 = \<lparr>ss_page = (ss_page s)\<lparr>wp_isLoading := False, wp_id := i, wp_def := norm_model m\<rparr>,
    ss_rt = (ss_rt s)\<lparr>rt_state := (rt_state (ss_rt s))\<lparr>stateMachine := (stateMachine (rt_state (ss_rt s)))\<lparr>StateMachine := json\<rparr>\<rparr>\<rparr>\<rparr>"
  have 1: "page_update show blank yaml api now editor info s = Some s1"
    using assms(2,3) j(1) by (simp add: page_update_def Let_def plain_dispatch dispatch_sm s1_def k_def)
  have 2: "ss_respond show yaml api now (length ?ps) (Success r) s1 = Some s2"
    by (simp add: ss_respond_def s1_def k_def load_dispatch [OF assms(4)] s2_def g_def)
  have 3: "ss_respond show yaml api now (length ?ps) (Success json) s2 = Some s3"
    using j(2) by (simp add: ss_respond_def s2_def g_def settle_def ss_dispatch_def dispatch_sm page_loaded_def
        selectStateMachineResult_def if_truthy_def o s3_def)
  have 4: "\<exists>s4. ss_respond show yaml api now (length ?ps) Failure s1 = Some s4 \<and> ss_page s4 = (ss_page s)\<lparr>wp_isLoading := False\<rparr>"
    by (simp add: ss_respond_def s1_def k_def settle_def ss_dispatch_def dispatch_sm)
  show ?thesis using j(1) 1 2 3 4 by (auto simp: s1_def s2_def s3_def)
qed

definition example_session :: session where
  "example_session = \<lparr>ss_page = \<lparr>wp_def = defined example_model, wp_isLoading = False, wp_id = JStr ''7'', wp_action = ''workflow''\<rparr>,
     ss_rt = \<lparr>rt_state = initial_app Map.empty, rt_pending = []\<rparr>\<rparr>"

lemma example_model_ok: "document_ok example_model"
  by (simp add: document_ok_def example_model_def new_StateMachineModel_def function_ok_def saved_events_def)

theorem saved_workflow_is_shown_again_witness:
  "\<exists>json s1 s2 s3. page_update (\<lambda>_. '''') (\<lambda>v. v = JStr '''') (\<lambda>_. ''yaml'') ''api'' Null None None example_session = Some s1 \<and>
     ss_respond (\<lambda>_. '''') (\<lambda>_. ''yaml'') ''api'' Null 0 (Success (JObj [(''id'', JStr ''8'')])) s1 = Some s2 \<and>
     ss_respond (\<lambda>_. '''') (\<lambda>_. ''yaml'') ''api'' Null 0 (Success json) s2 = Some s3 \<and>
     wp_def (ss_page s3) = norm_model example_model"
  using saved_workflow_is_shown_again [OF example_model_ok, of example_session "JObj [(''id'', JStr ''8'')]" "JStr ''8''" "\<lambda>_. ''''" "\<lambda>v. v = JStr ''''" "\<lambda>_. ''yaml''"
      "''api''" Null None None]
  by (auto simp: example_session_def)

section \<open>Renaming a workflow\<close>

lemma rename_json:
  "getJson (defined m) = Some j \<Longrightarrow>
   Some (js_set ''description'' ds (js_set ''name'' nm j)) = getJson (defined (m\<lparr>m_name := nm, m_description := ds\<rparr>))"
  by (auto simp: getJson_defined put_if_def saved_events_def update_Some_unfold)

text \<open>
  When the name and the description of the workflow have been stored, the page replaces its
  document by the one it loaded last, with the new name and description: whatever was edited since
  then is lost, without having been saved.
\<close>

theorem info_update_discards_edits:
  assumes "document_ok m" and "getJson (defined m) = Some (StateMachine (stateMachine (rt_state (ss_rt s))))"
  shows "\<exists>s'. ss_dispatch show yaml api now (SmA (CompleteUpdateInfo i nm ds)) s = Some s' \<and>
    ss_page s' = (ss_page s)\<lparr>wp_def := norm_model (m\<lparr>m_name := JStr nm, m_description := JStr ds\<rparr>)\<rparr>"
proof -
  let ?j = "StateMachine (stateMachine (rt_state (ss_rt s)))" and ?m = "m\<lparr>m_name := JStr nm, m_description := JStr ds\<rparr>"
  let ?r = "js_set ''description'' (JStr ds) (js_set ''name'' (JStr nm) ?j)"
  obtain kvs where o: "?j = JObj kvs" using getJson_object [OF assms(2)] by blast
  have "document_ok ?m" using assms(1) by (simp add: document_ok_def saved_events_def)
  then have "build ?r = Some (norm_model ?m)"
    using document_reload_aux [of ?m] rename_json [OF assms(2), of "JStr ds" "JStr nm", symmetric] by simp
  moreover have "obj_spread ?j = ?j" "truthy ?r" by (simp_all add: o)
  ultimately show ?thesis
    by (simp add: ss_dispatch_def dispatch_sm page_loaded_def selectStateMachineResult_def if_truthy_def)
qed

theorem info_update_discards_edits_witness:
  "\<exists>s'. ss_dispatch (\<lambda>_. '''') (\<lambda>_. '''') ''api'' Null (SmA (CompleteUpdateInfo ''7'' ''n'' ''d''))
      (example_session\<lparr>ss_rt := \<lparr>rt_state = (initial_app Map.empty)\<lparr>stateMachine := \<lparr>StateMachine = the (getJson (defined example_model))\<rparr>\<rparr>, rt_pending = []\<rparr>,
         ss_page := (ss_page example_session)\<lparr>wp_def := new_StateMachineModel\<rparr>\<rparr>) = Some s' \<and>
     m_states (wp_def (ss_page s')) = m_states (norm_model example_model)"
proof -
  have j: "getJson (defined example_model) = Some (the (getJson (defined example_model)))" by (simp add: getJson_defined)
  let ?s = "example_session\<lparr>ss_rt := \<lparr>rt_state = (initial_app Map.empty)\<lparr>stateMachine := \<lparr>StateMachine = the (getJson (defined example_model))\<rparr>\<rparr>, rt_pending = []\<rparr>,
      ss_page := (ss_page example_session)\<lparr>wp_def := new_StateMachineModel\<rparr>\<rparr>"
  have "getJson (defined example_model) = Some (StateMachine (stateMachine (rt_state (ss_rt ?s))))" using j by simp
  from info_update_discards_edits [OF example_model_ok this, of "\<lambda>_. ''''" "\<lambda>_. ''''" "''api''" Null "''7''" "''n''" "''d''"]
  show ?thesis by (auto simp: norm_model_def)
qed

end
