(* ===== verification/Site_Pages.thy ===== *)
theory Site_Pages
  imports Workflow_Page
begin

text \<open>
  The pages of the web site around a vpn (app/vpns), a function (app/functions/view) and an instance
  of a workflow (app/statemachineinstances/view), and the pipe that translates labels
  (app/pipes/translateobj.pipe.ts). A page is a record; a handler gives the changed record and the
  actions it dispatches, a subscription to actions the message it shows. \<open>show\<close>, \<open>blank\<close>: conversion
  to a string and \<open>Validators.required\<close>. \<open>None\<close> is a \<open>TypeError\<close>.
\<close>

section \<open>The list of vpns\<close>

record vpn_list_page =
  vl_isLoading :: bool
  vl_vpns :: js

text \<open>The subscriptions to actions and to \<open>selectVpnLstResult\<close>, which emits a new list after three actions\<close>

fun vpn_list_notice :: "vpn_action \<Rightarrow> string option" where
  "vpn_list_notice (CompleteAddVpn nm ds) = Some ''vpn.messages.vpnAdded''"
| "vpn_list_notice (CompleteDeleteVpn nm) = Some ''vpn.messages.vpnRemoved''"
| "vpn_list_notice ErrorDeleteVpn = Some ''vpn.messages.errorRemoveVpn''"
| "vpn_list_notice ErrorAddVpn = Some ''vpn.messages.errorAddVpn''"
| "vpn_list_notice a = None"

fun vpn_list_react :: "action \<Rightarrow> vpn_list_page \<Rightarrow> vpn_list_page" where
  "vpn_list_react (VpnA ErrorGetAllVpn) p = p\<lparr>vl_isLoading := False\<rparr>"
| "vpn_list_react (VpnA a) p = (if vpn_list_notice a = None then p else p\<lparr>vl_isLoading := False\<rparr>)"
| "vpn_list_react a p = p"

fun emits_vpns :: "action \<Rightarrow> bool" where
  "emits_vpns (VpnA (CompleteGetAllVpn content)) = True"
| "emits_vpns (VpnA (CompleteAddVpn nm ds)) = True"
| "emits_vpns (VpnA (CompleteDeleteVpn nm)) = True"
| "emits_vpns a = False"

definition vpn_list_loaded :: "app_state \<Rightarrow> vpn_list_page \<Rightarrow> vpn_list_page" where
  "vpn_list_loaded s p = (let r = selectVpnLstResult s in if \<not> truthy r then p else p\<lparr>vl_vpns := r, vl_isLoading := False\<rparr>)"

definition vpn_list_refresh :: "vpn_list_page \<Rightarrow> vpn_list_page \<times> action list" where
  "vpn_list_refresh p = (p\<lparr>vl_isLoading := True\<rparr>, [VpnA StartGetAllVpn])"

definition vpn_list_open :: "app_state \<Rightarrow> vpn_list_page \<times> action list" where
  "vpn_list_open s = vpn_list_refresh (vpn_list_loaded s \<lparr>vl_isLoading = False, vl_vpns = JArr []\<rparr>)"

definition add_vpn_save :: "(js \<Rightarrow> bool) \<Rightarrow> js \<Rightarrow> js \<Rightarrow> js option" where
  "add_vpn_save blank nm ds = (if blank nm \<or> blank ds then None else Some (JObj [(''name'', nm), (''description'', ds)]))"

definition addVpn :: "(js \<Rightarrow> string) \<Rightarrow> js option \<Rightarrow> vpn_list_page \<Rightarrow> (vpn_list_page \<times> action list) res" where
  "addVpn show answer p =
     (case answer of
        None \<Rightarrow> Some (p, [])
      | Some e \<Rightarrow> do {
          nm \<leftarrow> js_get e ''name'';
          ds \<leftarrow> js_get e ''description'';
          Some (p\<lparr>vl_isLoading := True\<rparr>, [VpnA (StartAddVpn (js_string show nm) (js_string show ds))])
        })"

definition removeVpn :: "(js \<Rightarrow> string) \<Rightarrow> js \<Rightarrow> vpn_list_page \<Rightarrow> (vpn_list_page \<times> action list) res" where
  "removeVpn show vpn p = map_option (\<lambda>nm. (p\<lparr>vl_isLoading := True\<rparr>, [VpnA (DeleteVpn (js_string show nm))])) (js_get vpn ''name'')"

section \<open>A vpn\<close>

definition vpn_view_refresh :: "(js \<Rightarrow> string) \<Rightarrow> js \<Rightarrow> action list" where
  "vpn_view_refresh show nm = (if truthy nm then [VpnA (StartGetVpn (js_string show nm))] else [])"

text \<open>The message that is shown and the page that is navigated to\<close>

fun vpn_info_react :: "action \<Rightarrow> (string \<times> string option) option" where
  "vpn_info_react (VpnA (CompleteDeleteVpn nm)) = Some (''vpn.messages.vpnRemoved'', Some ''/vpns'')"
| "vpn_info_react (VpnA ErrorDeleteVpn) = Some (''vpn.messages.errorRemoveVpn'', None)"
| "vpn_info_react a = None"

definition vpn_info_loaded :: "app_state \<Rightarrow> js \<Rightarrow> js" where
  "vpn_info_loaded s vpn = (let r = selectVpnResult s in if \<not> truthy r then vpn else r)"

definition vpn_info_delete :: "(js \<Rightarrow> string) \<Rightarrow> js \<Rightarrow> action" where
  "vpn_info_delete show nm = VpnA (DeleteVpn (js_string show nm))"

section \<open>The clients of a vpn\<close>

record clients_page =
  cp_clients :: js
  cp_name :: js

fun clients_notice :: "action \<Rightarrow> string option" where
  "clients_notice (ClientA (CompleteAddClient i v c ps)) = Some ''vpn.messages.clientAdded''"
| "clients_notice (ClientA ErrorAddClient) = Some ''vpn.messages.errorAddClient''"
| "clients_notice (ClientA (CompleteDeleteClient i)) = Some ''vpn.messages.clientRemoved''"
| "clients_notice (ClientA ErrorDeleteClient) = Some ''vpn.messages.errorRemoveClient''"
| "clients_notice a = None"

definition clients_emitted :: "app_state \<Rightarrow> clients_page \<Rightarrow> clients_page" where
  "clients_emitted s p = (let r = selectClientsResult s in if \<not> truthy r then p else p\<lparr>cp_clients := r\<rparr>)"

definition clients_open :: "(js \<Rightarrow> string) \<Rightarrow> js \<Rightarrow> app_state \<Rightarrow> clients_page \<times> action list" where
  "clients_open show nm s =
     ((clients_emitted s \<lparr>cp_clients = JArr [], cp_name = JStr ''''\<rparr>)\<lparr>cp_name := nm\<rparr>, [ClientA (StartGetAllClients (js_string show nm))])"

definition clients_getPurpose :: "js \<Rightarrow> string" where
  "clients_getPurpose purpose = (if purpose = JNum 1 then ''Subscribe'' else if purpose = JNum 2 then ''Publish'' else '''')"

text \<open>\<open>parseInt\<close> on a string: an optional sign and digits, up to the first other character; \<open>None\<close> is \<open>NaN\<close>.\<close>

fun leading_digits :: "string \<Rightarrow> nat option \<Rightarrow> nat option" where
  "leading_digits [] acc = acc"
| "leading_digits (c # cs) acc =
     (let n = of_char c :: nat
      in if 48 \<le> n \<and> n \<le> 57 then leading_digits cs (Some (10 * (case acc of None \<Rightarrow> 0 | Some m \<Rightarrow> m) + (n - 48))) else acc)"

definition js_parseInt :: "string \<Rightarrow> int option" where
  "js_parseInt s =
     (case dropWhile (\<lambda>c. c = CHR '' '') s of
        [] \<Rightarrow> None
      | c # cs \<Rightarrow> (if c = CHR ''-'' then map_option (\<lambda>n. - int n) (leading_digits cs None)
                  else if c = CHR ''+'' then map_option int (leading_digits cs None)
                  else map_option int (leading_digits (c # cs) None)))"

text \<open>A \<open>NaN\<close> is sent as \<open>null\<close>.\<close>

definition parsed_purpose :: "(js \<Rightarrow> string) \<Rightarrow> js \<Rightarrow> js" where
  "parsed_purpose show v = (case js_parseInt (js_string show v) of None \<Rightarrow> Null | Some i \<Rightarrow> JNum (of_int i))"

definition add_client_save :: "(js \<Rightarrow> bool) \<Rightarrow> js \<Rightarrow> js \<Rightarrow> js option" where
  "add_client_save blank clientId purposes =
     (if blank clientId \<or> blank purposes then None else Some (JObj [(''clientId'', clientId), (''purposes'', purposes)]))"

definition addClient :: "(js \<Rightarrow> string) \<Rightarrow> js option \<Rightarrow> clients_page \<Rightarrow> action list res" where
  "addClient show answer p =
     (case answer of
        None \<Rightarrow> Some []
      | Some e \<Rightarrow> do {
          ps \<leftarrow> js_get e ''purposes'';
          purposes \<leftarrow> js_map (\<lambda>v. Some (parsed_purpose show v)) ps;
          clientId \<leftarrow> js_get e ''clientId'';
          Some [ClientA (StartAddClient (js_string show (cp_name p)) (js_string show clientId) (JArr purposes))]
        })"

definition removeClient :: "(js \<Rightarrow> string) \<Rightarrow> js \<Rightarrow> action list res" where
  "removeClient show client = map_option (\<lambda>i. [ClientA (StartDeleteClient (js_string show i))]) (js_get client ''id'')"

text \<open>The page of a client, and the list of its sessions\<close>

definition client_view_loaded :: "app_state \<Rightarrow> js \<Rightarrow> js res" where
  "client_view_loaded s clientId = (let r = selectClientResult s in if \<not> truthy r then Some clientId else js_get r ''clientId'')"

definition client_view_refresh :: "(js \<Rightarrow> string) \<Rightarrow> js \<Rightarrow> action list" where
  "client_view_refresh show clientId = [ClientA (StartGetClient (js_string show clientId))]"

definition sessions_loaded :: "app_state \<Rightarrow> js \<Rightarrow> js res" where
  "sessions_loaded s sessions = (let r = selectClientResult s in if \<not> truthy r then Some sessions else js_get r ''sessions'')"

section \<open>The application domains of a vpn\<close>

record domains_page =
  dl_appDomains :: js
  dl_name :: js

fun domains_notice :: "action \<Rightarrow> string option" where
  "domains_notice (DomainA (CompleteAddAppDomain i n d r)) = Some ''vpn.messages.appDomainAdded''"
| "domains_notice (DomainA ErrorAddAppDomain) = Some ''vpn.messages.errorAddAppDomain''"
| "domains_notice (DomainA (CompleteDeleteAppDomain i)) = Some ''vpn.messages.appDomainRemoved''"
| "domains_notice (DomainA ErrorDeleteAppDomain) = Some ''vpn.messages.errorRemoveAppDomain''"
| "domains_notice a = None"

definition domains_emitted :: "app_state \<Rightarrow> domains_page \<Rightarrow> domains_page" where
  "domains_emitted s p = (let r = selectAppDomainsResult s in if \<not> truthy r then p else p\<lparr>dl_appDomains := r\<rparr>)"

definition domains_open :: "(js \<Rightarrow> string) \<Rightarrow> js \<Rightarrow> app_state \<Rightarrow> domains_page \<times> action list" where
  "domains_open show nm s =
     ((domains_emitted s \<lparr>dl_appDomains = JArr [], dl_name = JStr ''''\<rparr>)\<lparr>dl_name := nm\<rparr>, [DomainA (StartGetAllAppDomains (js_string show nm))])"

definition add_domain_save :: "(js \<Rightarrow> bool) \<Rightarrow> js \<Rightarrow> js \<Rightarrow> js \<Rightarrow> js option" where
  "add_domain_save blank nm ds rt =
     (if blank nm \<or> blank ds \<or> blank rt then None else Some (JObj [(''name'', nm), (''description'', ds), (''rootTopic'', rt)]))"

definition addAppDomain :: "(js \<Rightarrow> string) \<Rightarrow> js option \<Rightarrow> domains_page \<Rightarrow> action list res" where
  "addAppDomain show answer p =
     (case answer of
        None \<Rightarrow> Some []
      | Some e \<Rightarrow> do {
          nm \<leftarrow> js_get e ''name'';
          ds \<leftarrow> js_get e ''description'';
          rt \<leftarrow> js_get e ''rootTopic'';
          Some [DomainA (StartAddAppDomain (js_string show (dl_name p)) (js_string show nm) (js_string show ds) (js_string show rt))]
        })"

definition removeAppDomain :: "(js \<Rightarrow> string) \<Rightarrow> js \<Rightarrow> action list res" where
  "removeAppDomain show d = map_option (\<lambda>i. [DomainA (StartDeleteAppDomain (js_string show i))]) (js_get d ''id'')"

text \<open>The page of a domain, and its editor, which shares the handlers of the store's values with the page of a workflow\<close>

definition domain_view_loaded :: "app_state \<Rightarrow> js \<Rightarrow> js res" where
  "domain_view_loaded s nm = (let r = selectAppDomainResult s in if \<not> truthy r then Some nm else js_get r ''name'')"

definition domain_view_refresh :: "(js \<Rightarrow> string) \<Rightarrow> js \<Rightarrow> action list" where
  "domain_view_refresh show i = [DomainA (StartGetAppDomain (js_string show i))]"

definition editor_domain_loaded :: "app_state \<Rightarrow> domain_page \<Rightarrow> domain_page res" where
  "editor_domain_loaded s p = domain_loaded s p"

definition editor_messages_loaded :: "app_state \<Rightarrow> domain_page \<Rightarrow> domain_page" where
  "editor_messages_loaded s p = messages_loaded s p"

definition editor_domain_open :: "(js \<Rightarrow> string) \<Rightarrow> js \<Rightarrow> js \<Rightarrow> app_state \<Rightarrow> (domain_page \<times> action list) res" where
  "editor_domain_open show vpn i s =
     map_option (\<lambda>p. ((editor_messages_loaded s p)\<lparr>dm_vpnName := vpn, dm_appDomainId := i\<rparr>, [MessageA (GetLatestMessages (js_string show i))]))
       (editor_domain_loaded s new_AsyncApiPage)"

fun editor_domain_notice :: "action \<Rightarrow> string option" where
  "editor_domain_notice (DomainA (CompleteUpdateApplicationDomain i apps)) = Some ''vpn.messages.applicationDomainUpdated''"
| "editor_domain_notice (DomainA ErrorUpdateApplicationDomain) = Some ''vpn.messages.errorUpdateApplicationDomain''"
| "editor_domain_notice a = None"

definition editor_domain_save :: "(js \<Rightarrow> string) \<Rightarrow> domain_page \<Rightarrow> action" where
  "editor_domain_save show p = DomainA (UpdateApplicationDomain (js_string show (dm_appDomainId p)) (dm_applications p))"

section \<open>A function\<close>

fun function_info_react :: "action \<Rightarrow> (string \<times> string option) option" where
  "function_info_react (FunctionA CompleteDeleteFunction) = Some (''functions.messages.functionRemoved'', Some ''/functions'')"
| "function_info_react (FunctionA ErrorDeleteFunction) = Some (''functions.messages.errorRemoveFunction'', None)"
| "function_info_react a = None"

definition function_info_loaded :: "app_state \<Rightarrow> js \<Rightarrow> js" where
  "function_info_loaded s f = (let r = selectFunctionResult s in if \<not> truthy r then f else r)"

definition function_info_delete :: "(js \<Rightarrow> string) \<Rightarrow> js \<Rightarrow> action" where
  "function_info_delete show nm = FunctionA (StartDeleteFunction (js_string show nm))"

definition function_view_loaded :: "app_state \<Rightarrow> js \<times> js \<Rightarrow> (js \<times> js) res" where
  "function_view_loaded s p =
     (let r = selectFunctionResult s
      in if \<not> truthy r then Some p else do { nm \<leftarrow> js_get r ''name''; i \<leftarrow> js_get r ''id''; Some (nm, i) })"

definition function_view_refresh :: "(js \<Rightarrow> string) \<Rightarrow> js \<Rightarrow> action" where
  "function_view_refresh show nm = FunctionA (StartGetFunction (js_string show nm))"

section \<open>An instance of a workflow\<close>

record instance_page =
  np_def :: "sm_state option sm_model"
  np_instance :: js
  np_isLoading :: bool

definition instance_refreshLoading :: "instance_page \<Rightarrow> instance_page res" where
  "instance_refreshLoading p = do {
     i \<leftarrow> js_get (np_instance p) ''id'';
     Some (if truthy (m_id (np_def p)) \<and> truthy i then p\<lparr>np_isLoading := False\<rparr> else p)
   }"

definition instance_emitted :: "app_state \<Rightarrow> instance_page \<Rightarrow> instance_page res" where
  "instance_emitted s p =
     (let r = selectStateMachineInstanceResult s in if \<not> truthy r then Some p else instance_refreshLoading (p\<lparr>np_instance := r\<rparr>))"

definition definition_emitted :: "app_state \<Rightarrow> instance_page \<Rightarrow> instance_page res" where
  "definition_emitted s p =
     (let r = selectStateMachineResult s
      in if \<not> truthy r then Some p else Option.bind (build r) (\<lambda>m. instance_refreshLoading (p\<lparr>np_def := m\<rparr>)))"

fun instance_view_react :: "action \<Rightarrow> instance_page \<Rightarrow> instance_page" where
  "instance_view_react (SmA ErrorGetJson) p = p\<lparr>np_isLoading := False\<rparr>"
| "instance_view_react (InstanceA ErrorGetInstance) p = p\<lparr>np_isLoading := False\<rparr>"
| "instance_view_react (InstanceA CompleteReactivate) p = p\<lparr>np_isLoading := False\<rparr>"
| "instance_view_react (InstanceA ErrorReactivate) p = p\<lparr>np_isLoading := False\<rparr>"
| "instance_view_react a p = p"

text \<open>\<open>ngOnInit\<close>: both selectors first emit what the store holds from before.\<close>

definition instance_view_open :: "(js \<Rightarrow> string) \<Rightarrow> js \<Rightarrow> js \<Rightarrow> app_state \<Rightarrow> (instance_page \<times> action list) res" where
  "instance_view_open show i instid s = do {
     p \<leftarrow> instance_emitted s \<lparr>np_def = new_StateMachineModel, np_instance = new_StateMachineInstanceDetails, np_isLoading = False\<rparr>;
     p' \<leftarrow> definition_emitted s p;
     Some (p'\<lparr>np_isLoading := True\<rparr>, [SmA (StartGetJson (js_string show i)), InstanceA (StartGetInstance (js_string show instid))])
   }"

definition instance_reactivate :: "(js \<Rightarrow> string) \<Rightarrow> instance_page \<Rightarrow> (instance_page \<times> action list) res" where
  "instance_reactivate show p =
     map_option (\<lambda>i. (p\<lparr>np_isLoading := True\<rparr>, [InstanceA (StartReactivate (js_string show i))])) (js_get (np_instance p) ''id'')"

section \<open>Tabs and labels\<close>

text \<open>The tabs with the document of a workflow as JSON and as YAML\<close>

definition json_tab :: "(js \<Rightarrow> js) \<Rightarrow> sm_state option sm_model \<Rightarrow> js res" where
  "json_tab stringify m = map_option stringify (getJson m)"

definition yaml_tab :: "(js \<Rightarrow> string) \<Rightarrow> sm_state option sm_model \<Rightarrow> string res" where
  "yaml_tab yaml m = map_option yaml (getJson m)"

text \<open>The pipe: the description in the current language\<close>

definition translateobj :: "js \<Rightarrow> js \<Rightarrow> js res" where
  "translateobj lng translations =
     (if \<not> truthy translations then Some Null
      else do {
        l \<leftarrow> js_index translations ''length'';
        if l = JNum 0 then Some Null
        else case translations of
          JArr ts \<Rightarrow> do {
            fs \<leftarrow> js_filterM (prop_is ''Language'' lng) ts;
            case fs of [t] \<Rightarrow> js_get t ''Description'' | _ \<Rightarrow> Some (JStr ''unknown'')
          }
        | _ \<Rightarrow> TypeError
      })"

end
