(* ===== verification/Search_Lists.thy ===== *)
theory Search_Lists
  imports App_Store Dialog_Function
begin

text \<open>
  The three pages that list search results: workflows (app/statemachines/list/list.component.ts),
  functions (app/functions/list/list.component.ts) and instances of workflows
  (app/statemachineinstances/list/list.component.ts), with the dialogs that add a workflow and a
  function. A page asks for a window of the results, given by its paginator, and shows what the
  selector of its store emits. \<open>blank\<close> stands for \<open>Validators.required\<close>.
\<close>

section \<open>The pages\<close>

text \<open>What the pages read of \<open>MatPaginator\<close> and \<open>MatSort\<close>\<close>

record paginator =
  pageIndex :: nat
  pageSize :: nat

record sorter =
  sort_active :: string
  sort_direction :: string

record list_page =
  lst_activeVpn :: js
  lst_paginator :: "paginator option"
  lst_sort :: "sorter option"
  lst_content :: js
  lst_length :: js
  lst_isLoading :: bool

definition new_ListPage :: list_page where
  "new_ListPage = \<lparr>lst_activeVpn = JStr '''', lst_paginator = None, lst_sort = None, lst_content = JArr [], lst_length = Undef, lst_isLoading = False\<rparr>"

definition page_startIndex :: "paginator \<Rightarrow> int" where
  "page_startIndex g = (if pageIndex g \<noteq> 0 \<and> pageSize g \<noteq> 0 then int (pageIndex g) * int (pageSize g) else 0)"

definition page_count :: "paginator \<Rightarrow> int" where
  "page_count g = (if pageSize g \<noteq> 0 then int (pageSize g) else 5)"

definition page_order :: "sorter \<Rightarrow> string" where
  "page_order s = (if sort_active s \<noteq> [] then sort_active s else ''createDateTime'')"

definition page_direction :: "sorter \<Rightarrow> string" where
  "page_direction s = (if sort_direction s \<noteq> [] then sort_direction s else ''desc'')"

text \<open>\<open>refresh\<close>, for the creator of the search action: order, direction, count, start index and vpn\<close>

definition list_refresh ::
    "(js \<Rightarrow> string) \<Rightarrow> (string \<Rightarrow> string \<Rightarrow> int \<Rightarrow> int \<Rightarrow> string \<Rightarrow> action) \<Rightarrow> list_page \<Rightarrow> action option" where
  "list_refresh show start p =
     (case (lst_paginator p, lst_sort p) of
        (Some g, Some s) \<Rightarrow> Some (start (page_order s) (page_direction s) (page_count g) (page_startIndex g) (js_string show (lst_activeVpn p)))
      | _ \<Rightarrow> None)"

definition search_stateMachines :: "string \<Rightarrow> string \<Rightarrow> int \<Rightarrow> int \<Rightarrow> string \<Rightarrow> action" where
  "search_stateMachines order direction n startIndex vpn = SmA (StartSearchStateMachines order direction n startIndex vpn)"

definition search_functions :: "string \<Rightarrow> string \<Rightarrow> int \<Rightarrow> int \<Rightarrow> string \<Rightarrow> action" where
  "search_functions order direction n startIndex vpn = FunctionA (StartSearchFunctions order direction n startIndex)"

definition search_instances :: "string \<Rightarrow> string \<Rightarrow> int \<Rightarrow> int \<Rightarrow> string \<Rightarrow> action" where
  "search_instances order direction n startIndex vpn = InstanceA (StartSearchInstances order direction n startIndex vpn)"

text \<open>The subscription to the results of the search\<close>

definition list_loaded :: "js \<Rightarrow> list_page \<Rightarrow> list_page res" where
  "list_loaded r p =
     (if \<not> truthy r then Some p
      else do {
        content \<leftarrow> js_get r ''content'';
        total \<leftarrow> js_get r ''totalLength'';
        Some (if \<not> truthy content then p else p\<lparr>lst_content := content, lst_length := total\<rparr>)
      })"

text \<open>The subscription to \<open>selectActiveVpnResult\<close>, which the list of functions does not have\<close>

definition list_vpn ::
    "(js \<Rightarrow> string) \<Rightarrow> (string \<Rightarrow> string \<Rightarrow> int \<Rightarrow> int \<Rightarrow> string \<Rightarrow> action) \<Rightarrow> app_state \<Rightarrow> list_page \<Rightarrow> list_page \<times> action option" where
  "list_vpn show start s p =
     (let vpn = selectActiveVpnResult s
      in if \<not> truthy vpn then (p, None)
         else let p' = p\<lparr>lst_activeVpn := vpn\<rparr> in (p', list_refresh show start p'))"

text \<open>\<open>ngAfterViewInit\<close>: the controls are there from now on, and the first page is asked for.\<close>

definition list_view_init ::
    "(js \<Rightarrow> string) \<Rightarrow> (string \<Rightarrow> string \<Rightarrow> int \<Rightarrow> int \<Rightarrow> string \<Rightarrow> action) \<Rightarrow> paginator \<Rightarrow> sorter \<Rightarrow> list_page \<Rightarrow> list_page \<times> action option" where
  "list_view_init show start g s p =
     (let p' = p\<lparr>lst_paginator := Some g, lst_sort := Some s\<rparr> in (p', list_refresh show start p'))"

text \<open>An event of the paginator or of a column header\<close>

definition list_turn ::
    "(js \<Rightarrow> string) \<Rightarrow> (string \<Rightarrow> string \<Rightarrow> int \<Rightarrow> int \<Rightarrow> string \<Rightarrow> action) \<Rightarrow> nat \<Rightarrow> list_page \<Rightarrow> list_page \<times> action option" where
  "list_turn show start i p =
     (let p' = p\<lparr>lst_paginator := map_option (\<lambda>g. g\<lparr>pageIndex := i\<rparr>) (lst_paginator p)\<rparr> in (p', list_refresh show start p'))"

definition list_sort ::
    "(js \<Rightarrow> string) \<Rightarrow> (string \<Rightarrow> string \<Rightarrow> int \<Rightarrow> int \<Rightarrow> string \<Rightarrow> action) \<Rightarrow> sorter \<Rightarrow> list_page \<Rightarrow> list_page \<times> action option" where
  "list_sort show start s p =
     (let p' = p\<lparr>lst_sort := map_option (\<lambda>_. s) (lst_sort p)\<rparr> in (p', list_refresh show start p'))"

text \<open>The subscriptions to actions: the message that is shown, and whether the list is refreshed\<close>

fun sm_list_notice :: "action \<Rightarrow> (string \<times> bool) option" where
  "sm_list_notice (SmA (CompleteAddEmpty content)) = Some (''stateMachines.messages.stateMachineAdded'', True)"
| "sm_list_notice (SmA ErrorAddEmpty) = Some (''stateMachines.messages.errorAddStateMachine'', False)"
| "sm_list_notice a = None"

fun function_list_notice :: "action \<Rightarrow> (string \<times> bool) option" where
  "function_list_notice (FunctionA (CompleteAddFunction nm ds img v)) = Some (''functions.messages.functionAdded'', True)"
| "function_list_notice (FunctionA ErrorAddFunction) = Some (''functions.messages.errorAddFunction'', False)"
| "function_list_notice a = None"

definition list_react ::
    "(js \<Rightarrow> string) \<Rightarrow> (string \<Rightarrow> string \<Rightarrow> int \<Rightarrow> int \<Rightarrow> string \<Rightarrow> action) \<Rightarrow> (action \<Rightarrow> (string \<times> bool) option) \<Rightarrow> action \<Rightarrow> list_page \<Rightarrow> action option" where
  "list_react show start notice a p =
     (case notice a of Some (_, True) \<Rightarrow> list_refresh show start p | _ \<Rightarrow> None)"

fun instance_list_react :: "action \<Rightarrow> list_page \<Rightarrow> list_page" where
  "instance_list_react (InstanceA CompleteReactivate) p = p\<lparr>lst_isLoading := False\<rparr>"
| "instance_list_react (InstanceA ErrorReactivate) p = p\<lparr>lst_isLoading := False\<rparr>"
| "instance_list_react a p = p"

definition list_reactivate :: "string \<Rightarrow> list_page \<Rightarrow> list_page \<times> action" where
  "list_reactivate i p = (p\<lparr>lst_isLoading := True\<rparr>, InstanceA (StartReactivate i))"

section \<open>The dialogs that add an entry\<close>

text \<open>\<open>save\<close>: the dialog closes with the values of its form if the form is valid.\<close>

definition add_sm_save :: "(js \<Rightarrow> bool) \<Rightarrow> js \<Rightarrow> js \<Rightarrow> js option" where
  "add_sm_save blank nm ds =
     (if blank nm \<or> blank ds then None else Some (JObj [(''name'', nm), (''description'', ds)]))"

definition add_function_save :: "(js \<Rightarrow> bool) \<Rightarrow> js \<Rightarrow> js \<Rightarrow> js \<Rightarrow> js \<Rightarrow> js option" where
  "add_function_save blank nm ds img v =
     (if blank nm \<or> blank img \<or> blank v then None
      else Some (JObj [(''name'', nm), (''description'', ds), (''image'', img), (''version'', v)]))"

definition addStateMachine :: "(js \<Rightarrow> string) \<Rightarrow> list_page \<Rightarrow> js option \<Rightarrow> action option res" where
  "addStateMachine show p answer =
     (case answer of
        None \<Rightarrow> Some None
      | Some opt \<Rightarrow> do {
          nm \<leftarrow> js_get opt ''name'';
          ds \<leftarrow> js_get opt ''description'';
          Some (Some (SmA (StartAddEmpty (js_string show nm) (js_string show ds) (js_string show (lst_activeVpn p)))))
        })"

definition list_addFunction :: "(js \<Rightarrow> string) \<Rightarrow> js option \<Rightarrow> action option res" where
  "list_addFunction show answer =
     (case answer of
        None \<Rightarrow> Some None
      | Some opt \<Rightarrow> do {
          nm \<leftarrow> js_get opt ''name'';
          ds \<leftarrow> js_get opt ''description'';
          img \<leftarrow> js_get opt ''image'';
          v \<leftarrow> js_get opt ''version'';
          Some (Some (FunctionA (StartAddFunction (js_string show nm) (js_string show ds) (js_string show img) (js_string show v))))
        })"

section \<open>Going through the pages\<close>

text \<open>Turning to page \<open>i\<close>: the request is sent, answered by the server, and the result is shown.\<close>

definition visit ::
    "(js \<Rightarrow> string) \<Rightarrow> (js \<Rightarrow> string) \<Rightarrow> string \<Rightarrow> js \<Rightarrow> (string \<Rightarrow> string \<Rightarrow> int \<Rightarrow> int \<Rightarrow> string \<Rightarrow> action) \<Rightarrow> (app_state \<Rightarrow> js) \<Rightarrow>
     (request \<Rightarrow> js) \<Rightarrow> nat \<Rightarrow> list_page \<times> runtime \<Rightarrow> (list_page \<times> runtime) res" where
  "visit show yaml api now start sel srv i = (\<lambda>(p, rt).
     case list_turn show start i p of
       (p', None) \<Rightarrow> Some (p', rt)
     | (p', Some a) \<Rightarrow> do {
         rt1 \<leftarrow> dispatch yaml api now a rt;
         let n = length (rt_pending rt1) - 1;
         rt2 \<leftarrow> respond yaml api now n (Success (srv (fst (rt_pending rt1 ! n)))) rt1;
         p'' \<leftarrow> list_loaded (sel (rt_state rt2)) p';
         Some (p'', rt2)
       })"

text \<open>The entries that are shown on the pages of a tour, one after the other\<close>

fun js_entries :: "js \<Rightarrow> js list" where
  "js_entries (JArr xs) = xs"
| "js_entries v = []"

fun tour ::
    "(nat \<Rightarrow> list_page \<times> runtime \<Rightarrow> (list_page \<times> runtime) res) \<Rightarrow> nat list \<Rightarrow> list_page \<times> runtime \<Rightarrow> js list res" where
  "tour turn [] s = Some []"
| "tour turn (i # is) s = do {
     s' \<leftarrow> turn i s;
     rest \<leftarrow> tour turn is s';
     Some (js_entries (lst_content (fst s')) @ rest)
   }"

text \<open>
  The contract of a search service: it answers with the window of the ordered results that it is
  asked for, and with their number.
\<close>

definition search_service ::
    "(int \<Rightarrow> int \<Rightarrow> string \<Rightarrow> string \<Rightarrow> string \<Rightarrow> request) \<Rightarrow> (string \<Rightarrow> string \<Rightarrow> string \<Rightarrow> js list) \<Rightarrow> (request \<Rightarrow> js) \<Rightarrow> bool" where
  "search_service rq found srv \<longleftrightarrow> (\<forall>i n order direction vpn. \<exists>kvs.
     srv (rq i n order direction vpn) = JObj kvs \<and>
     obj_lookup kvs ''content'' = JArr (take (nat n) (drop (nat i) (found order direction vpn))) \<and>
     obj_lookup kvs ''totalLength'' = JNum (of_nat (length (found order direction vpn))))"


locale search_list =
  fixes start :: "string \<Rightarrow> string \<Rightarrow> int \<Rightarrow> int \<Rightarrow> string \<Rightarrow> action"
    and rq :: "int \<Rightarrow> int \<Rightarrow> string \<Rightarrow> string \<Rightarrow> string \<Rightarrow> request"
    and sel :: "app_state \<Rightarrow> js"
    and yaml :: "js \<Rightarrow> string" and api :: string
  assumes search_neutral: "appReducer now (start order direction n i vpn) st = Some st"
    and search_effect: "\<exists>k. app_effect yaml api (start order direction n i vpn) = Some (rq i n order direction vpn, k) \<and>
      (\<forall>now st kvs. \<exists>st'. appReducer now (k (Success (JObj kvs))) st = Some st' \<and> sel st' = JObj kvs)"
begin

lemma visit_shows_window:
  assumes "search_service rq found srv" and "lst_paginator p = Some g" and "lst_sort p = Some s" and "0 < pageSize g"
  shows "\<exists>p' rt'. visit show yaml api now start sel srv i (p, rt) = Some (p', rt') \<and>
    lst_content p' = JArr (take (pageSize g) (drop (i * pageSize g) (found (page_order s) (page_direction s) (js_string show (lst_activeVpn p))))) \<and>
    lst_length p' = JNum (of_nat (length (found (page_order s) (page_direction s) (js_string show (lst_activeVpn p))))) \<and>
    lst_paginator p' = Some (g\<lparr>pageIndex := i\<rparr>) \<and> lst_sort p' = Some s \<and> lst_activeVpn p' = lst_activeVpn p \<and>
    rt_pending rt' = rt_pending rt"
proof -
  let ?g = "g\<lparr>pageIndex := i\<rparr>" and ?o = "page_order s" and ?d = "page_direction s" and ?v = "js_string show (lst_activeVpn p)"
  define n where "n = page_count ?g"
  define j where "j = page_startIndex ?g"
  have nj: "nat n = pageSize g" "nat j = i * pageSize g"
    using assms(4) by (auto simp: n_def j_def page_count_def page_startIndex_def nat_mult_distrib)
  let ?a = "start ?o ?d n j ?v"
  obtain k where k: "app_effect yaml api ?a = Some (rq j n ?o ?d ?v, k)"
    and fin: "\<And>now st kvs. \<exists>st'. appReducer now (k (Success (JObj kvs))) st = Some st' \<and> sel st' = JObj kvs"
    using search_effect [of ?o ?d n j ?v] by auto
  obtain kvs where kvs: "srv (rq j n ?o ?d ?v) = JObj kvs"
      "obj_lookup kvs ''content'' = JArr (take (nat n) (drop (nat j) (found ?o ?d ?v)))"
      "obj_lookup kvs ''totalLength'' = JNum (of_nat (length (found ?o ?d ?v)))"
    using assms(1) unfolding search_service_def by blast
  obtain st' where st': "appReducer now (k (Success (JObj kvs))) (rt_state rt) = Some st'" "sel st' = JObj kvs"
    using fin by blast
  have turn: "list_turn show start i p = (p\<lparr>lst_paginator := Some ?g\<rparr>, Some ?a)"
    using assms(2,3) by (simp add: list_turn_def list_refresh_def n_def j_def)
  have d: "dispatch yaml api now ?a rt = Some (rt\<lparr>rt_pending := rt_pending rt @ [(rq j n ?o ?d ?v, k)]\<rparr>)"
    by (simp add: dispatch_def search_neutral k)
  have "app_effect yaml api (k (Success (JObj kvs))) = None" using app_ef.settled [OF k] .
  then have "respond yaml api now (length (rt_pending rt)) (Success (JObj kvs)) (rt\<lparr>rt_pending := rt_pending rt @ [(rq j n ?o ?d ?v, k)]\<rparr>) =
      Some (rt\<lparr>rt_state := st'\<rparr>)"
    using st'(1) by (simp add: respond_def dispatch_def)
  then show ?thesis
    using kvs st'(2) assms(3) by (simp add: visit_def turn d list_loaded_def nj)
qed

text \<open>The list follows the active vpn: it asks for, and then shows, the window of its current page among the results for that vpn.\<close>

lemma vpn_change_shows_window:
  assumes "search_service rq found srv" and "lst_paginator p = Some g" and "lst_sort p = Some s" and "0 < pageSize g"
    and "selectActiveVpnResult st = JStr v" and "v \<noteq> []"
  shows "\<exists>p' a k p'' rt'. list_vpn show start st p = (p', Some a) \<and> list_turn show start (pageIndex g) p' = (p', Some a) \<and>
    app_effect yaml api a = Some (rq (page_startIndex g) (page_count g) (page_order s) (page_direction s) v, k) \<and>
    visit show yaml api now start sel srv (pageIndex g) (p', rt) = Some (p'', rt') \<and> lst_activeVpn p'' = JStr v \<and>
    lst_content p'' = JArr (take (pageSize g) (drop (pageIndex g * pageSize g) (found (page_order s) (page_direction s) v)))"
proof -
  let ?p = "p\<lparr>lst_activeVpn := JStr v\<rparr>" and ?a = "start (page_order s) (page_direction s) (page_count g) (page_startIndex g) v"
  have l: "list_vpn show start st p = (?p, Some ?a)" "list_turn show start (pageIndex g) ?p = (?p, Some ?a)"
    using assms(2,3,5,6) by (simp_all add: list_vpn_def list_refresh_def list_turn_def)
  obtain k where "app_effect yaml api ?a = Some (rq (page_startIndex g) (page_count g) (page_order s) (page_direction s) v, k)"
    using search_effect [of "page_order s" "page_direction s" "page_count g" "page_startIndex g" v] by auto
  moreover have "lst_paginator ?p = Some g" "lst_sort ?p = Some s" using assms(2,3) by simp_all
  ultimately show ?thesis
    using l visit_shows_window [OF assms(1), of ?p g s "show" now "pageIndex g" rt] assms(4) by auto
qed

lemma tour_shows_windows:
  assumes "search_service rq found srv" and "lst_paginator p = Some g" and "lst_sort p = Some s" and "0 < pageSize g"
  shows "tour (visit show yaml api now start sel srv) is (p, rt) =
    Some (concat (map (\<lambda>i. take (pageSize g) (drop (i * pageSize g) (found (page_order s) (page_direction s) (js_string show (lst_activeVpn p))))) is))"
  using assms(2-4)
proof (induction "is" arbitrary: p g rt)
  case (Cons i "is")
  obtain p' rt' where v: "visit show yaml api now start sel srv i (p, rt) = Some (p', rt')"
    "lst_content p' = JArr (take (pageSize g) (drop (i * pageSize g) (found (page_order s) (page_direction s) (js_string show (lst_activeVpn p)))))"
    "lst_paginator p' = Some (g\<lparr>pageIndex := i\<rparr>)" "lst_sort p' = Some s" "lst_activeVpn p' = lst_activeVpn p"
    using visit_shows_window [OF assms(1) Cons.prems] by blast
  then show ?case using Cons.IH [OF v(3,4)] Cons.prems(3) by simp
qed simp

end

lemma concat_windows: "length xs \<le> n * k \<Longrightarrow> concat (map (\<lambda>i. take k (drop (i * k) xs)) [0..<n]) = xs"
proof (induction n arbitrary: xs)
  case (Suc n)
  have "concat (map (\<lambda>i. take k (drop (i * k) xs)) [0..<Suc n]) = take k xs @ concat (map (\<lambda>i. take k (drop (i * k) (drop k xs))) [0..<n])"
    by (simp add: upt_conv_Cons map_Suc_upt [symmetric] comp_def add.commute del: upt_Suc)
  also have "\<dots> = take k xs @ drop k xs" using Suc.IH [of "drop k xs"] Suc.prems by simp
  finally show ?case by simp
qed simp

interpretation sm_list: search_list search_stateMachines "\<lambda>i n order direction vpn. rq_searchStateMachines api i n order direction vpn" selectStateMachinesResult yaml api
  by unfold_locales (auto simp: search_stateMachines_def lift_effect_def settle_def selectStateMachinesResult_def if_truthy_def)

interpretation function_list: search_list search_functions "\<lambda>i n order direction vpn. rq_searchFunctions api i n order direction" selectFunctionsResult yaml api
  by unfold_locales (auto simp: search_functions_def lift_effect_def settle_def selectFunctionsResult_def not_null_def)

interpretation instance_list: search_list search_instances "\<lambda>i n order direction vpn. rq_searchInstances api i n order direction vpn" selectStateMachineInstancesResult yaml api
  by unfold_locales (auto simp: search_instances_def lift_effect_def settle_def selectStateMachineInstancesResult_def if_truthy_def)


text \<open>
  C36. The lists refine the ordered results of their search: with a service that answers with the
  windows it is asked for, going through the pages of the list of workflows, of functions or of
  instances shows every result exactly once and in the order of the service, whatever the page size,
  the requests that are still pending and the page the tour starts from.
\<close>

theorem pages_show_all_results:
  assumes "lst_paginator p = Some g" and "lst_sort p = Some s" and "0 < pageSize g"
    and "found (page_order s) (page_direction s) (js_string show (lst_activeVpn p)) = results" and "length results \<le> n * pageSize g"
  shows "(search_service (\<lambda>i n order direction vpn. rq_searchStateMachines api i n order direction vpn) found srv \<longrightarrow>
      tour (visit show yaml api now search_stateMachines selectStateMachinesResult srv) [0..<n] (p, rt) = Some results) \<and>
    (search_service (\<lambda>i n order direction vpn. rq_searchFunctions api i n order direction) found srv \<longrightarrow>
      tour (visit show yaml api now search_functions selectFunctionsResult srv) [0..<n] (p, rt) = Some results) \<and>
    (search_service (\<lambda>i n order direction vpn. rq_searchInstances api i n order direction vpn) found srv \<longrightarrow>
      tour (visit show yaml api now search_instances selectStateMachineInstancesResult srv) [0..<n] (p, rt) = Some results)"
  using assms by (simp add: sm_list.tour_shows_windows function_list.tour_shows_windows instance_list.tour_shows_windows concat_windows)

definition example_results :: "js list" where
  "example_results = [JStr ''a'', JStr ''b'', JStr ''c'']"

fun js_nat :: "js \<Rightarrow> nat" where
  "js_nat (JNum n) = nat \<lfloor>n\<rfloor>"
| "js_nat v = 0"

definition example_service :: "request \<Rightarrow> js" where
  "example_service r = (case rq_body r of
     JObj kvs \<Rightarrow> JObj [(''content'', JArr (take (js_nat (obj_lookup kvs ''count'')) (drop (js_nat (obj_lookup kvs ''startIndex'')) example_results))),
                   (''totalLength'', JNum 3)]
   | _ \<Rightarrow> Null)"

theorem pages_show_all_results_witness:
  "tour (visit (\<lambda>_. '''') (\<lambda>_. '''') ''api'' Null search_stateMachines selectStateMachinesResult example_service) [0, 1]
     (new_ListPage\<lparr>lst_paginator := Some \<lparr>pageIndex = 1, pageSize = 2\<rparr>, lst_sort := Some \<lparr>sort_active = '''', sort_direction = ''''\<rparr>\<rparr>,
      \<lparr>rt_state = initial_app Map.empty, rt_pending = []\<rparr>) = Some [JStr ''a'', JStr ''b'', JStr ''c'']"
proof -
  have "search_service (\<lambda>i n order direction vpn. rq_searchStateMachines ''api'' i n order direction vpn) (\<lambda>_ _ _. example_results) example_service"
    by (simp add: search_service_def example_service_def rq_searchStateMachines_def http_post_def search_body_def example_results_def)
  moreover have "[0..<2] = [0, 1 :: nat]" by (simp add: upt_rec)
  ultimately show ?thesis
    using pages_show_all_results [of "new_ListPage\<lparr>lst_paginator := Some \<lparr>pageIndex = 1, pageSize = 2\<rparr>, lst_sort := Some \<lparr>sort_active = '''', sort_direction = ''''\<rparr>\<rparr>"
        "\<lparr>pageIndex = 1, pageSize = 2\<rparr>" "\<lparr>sort_active = '''', sort_direction = ''''\<rparr>" "\<lambda>_ _ _. example_results" "\<lambda>_. ''''" example_results 2 "''api''"
        example_service "\<lambda>_. ''''" Null "\<lparr>rt_state = initial_app Map.empty, rt_pending = []\<rparr>"]
    by (simp add: example_results_def)
qed

end
