(* ===== verification/Page_Loading.thy ===== *)
theory Page_Loading
  imports Site_Pages Search_Lists
begin

text \<open>
  The loading indicators of the pages. A page that shows one sets it when it dispatches a request and
  clears it in its subscriptions. The contract is stated once, for any page and the store it works
  with, and instantiated for the list of vpns, the list of instances and the page of a workflow; the
  page of an instance, which waits for two answers, is treated on its own.
\<close>

section \<open>A page with a loading indicator and the store\<close>

record loading_session =
  ld_loading :: bool
  ld_rt :: runtime

text \<open>
  \<open>asks a\<close>: the page dispatches \<open>a\<close> after setting the indicator. \<open>ends a\<close>: the subscriptions of the
  page clear the indicator when \<open>a\<close> has been processed. Other actions come from other components.
\<close>

inductive ld_step ::
    "(js \<Rightarrow> string) \<Rightarrow> string \<Rightarrow> (action \<Rightarrow> bool) \<Rightarrow> (action \<Rightarrow> bool) \<Rightarrow> loading_session \<Rightarrow> loading_session \<Rightarrow> bool"
  for yaml :: "js \<Rightarrow> string" and api :: string and asks ends :: "action \<Rightarrow> bool" where
  ask: "asks a \<Longrightarrow> dispatch yaml api now a (ld_rt s) = Some rt \<Longrightarrow>
     ld_step yaml api asks ends s \<lparr>ld_loading = \<not> ends a, ld_rt = rt\<rparr>"
| other: "\<not> asks a \<Longrightarrow> dispatch yaml api now a (ld_rt s) = Some rt \<Longrightarrow>
     ld_step yaml api asks ends s \<lparr>ld_loading = (ld_loading s \<and> \<not> ends a), ld_rt = rt\<rparr>"
| answer: "i < length (rt_pending (ld_rt s)) \<Longrightarrow> respond yaml api now i r (ld_rt s) = Some rt \<Longrightarrow>
     ld_step yaml api asks ends s \<lparr>ld_loading = (ld_loading s \<and> \<not> ends (snd (rt_pending (ld_rt s) ! i) r)), ld_rt = rt\<rparr>"

inductive ld_reachable ::
    "(js \<Rightarrow> string) \<Rightarrow> string \<Rightarrow> (action \<Rightarrow> bool) \<Rightarrow> (action \<Rightarrow> bool) \<Rightarrow> loading_session \<Rightarrow> bool"
  for yaml :: "js \<Rightarrow> string" and api :: string and asks ends :: "action \<Rightarrow> bool" where
  idle: "ld_reachable yaml api asks ends \<lparr>ld_loading = False, ld_rt = rt\<rparr>"
| step: "ld_reachable yaml api asks ends s \<Longrightarrow> ld_step yaml api asks ends s s' \<Longrightarrow> ld_reachable yaml api asks ends s'"


text \<open>A pending request whose answer, whatever it is, clears the indicator\<close>

definition awaited :: "(action \<Rightarrow> bool) \<Rightarrow> runtime \<Rightarrow> nat \<Rightarrow> bool" where
  "awaited ends rt i \<longleftrightarrow> i < length (rt_pending rt) \<and> (\<forall>r. ends (snd (rt_pending rt ! i) r))"

section \<open>The contract\<close>

locale loading_page =
  fixes asks ends :: "action \<Rightarrow> bool" and yaml :: "js \<Rightarrow> string" and api :: string
  assumes asked: "asks a \<Longrightarrow> \<exists>rq k. app_effect yaml api a = Some (rq, k) \<and> (\<forall>r. ends (k r))"
begin

lemma awaited_after_ask:
  assumes "asks a" and "dispatch yaml api now a rt = Some rt'"
  shows "\<exists>i. awaited ends rt' i"
proof -
  obtain rq k where k: "app_effect yaml api a = Some (rq, k)" "\<forall>r. ends (k r)" using asked [OF assms(1)] by blast
  then have "rt_pending rt' = rt_pending rt @ [(rq, k)]" using assms(2) by (auto simp: dispatch_def split: Option.bind_splits)
  then have "awaited ends rt' (length (rt_pending rt))" using k(2) by (simp add: awaited_def)
  then show ?thesis by blast
qed

lemma awaited_after_dispatch:
  assumes "awaited ends rt i" and "dispatch yaml api now a rt = Some rt'"
  shows "awaited ends rt' i"
proof -
  obtain qs where "rt_pending rt' = rt_pending rt @ qs" using assms(2) by (auto simp: dispatch_def split: Option.bind_splits)
  then show ?thesis using assms(1) by (simp add: awaited_def nth_append)
qed

lemma awaited_after_answer:
  assumes "awaited ends rt j" and "i < length (rt_pending rt)" and "i \<noteq> j" and "respond yaml api now i r rt = Some rt'"
  shows "\<exists>k. awaited ends rt' k"
proof -
  let ?rt = "rt\<lparr>rt_pending := take i (rt_pending rt) @ drop (Suc i) (rt_pending rt)\<rparr>"
  let ?k = "if j < i then j else j - 1"
  have "awaited ends ?rt ?k"
    using assms(1,2,3) by (auto simp: awaited_def nth_append)
  then show ?thesis using awaited_after_dispatch [of ?rt ?k] assms(4) by (auto simp: respond_def)
qed

lemma never_stuck: "ld_reachable yaml api asks ends s \<Longrightarrow> ld_loading s \<Longrightarrow> \<exists>i. awaited ends (ld_rt s) i"
proof (induction rule: ld_reachable.induct)
  case (step s s')
  from step.hyps(2) show ?case
  proof (cases rule: ld_step.cases)
    case (ask a now rt)
    then show ?thesis using awaited_after_ask [of a now "ld_rt s" rt] by simp
  next
    case (other a now rt)
    then show ?thesis using step awaited_after_dispatch [of "ld_rt s" _ now a rt] by auto
  next
    case (answer i now r rt)
    then obtain j where j: "awaited ends (ld_rt s) j" using step by auto
    then have "i \<noteq> j" using answer step.prems by (auto simp: awaited_def)
    then show ?thesis using awaited_after_answer [OF j, of i now r rt] answer by simp
  qed
qed simp

lemma answer_ends:
  assumes "awaited ends (ld_rt s) i" and "respond yaml api now i r (ld_rt s) = Some rt"
  shows "ld_step yaml api asks ends s \<lparr>ld_loading = False, ld_rt = rt\<rparr>"
proof -
  have "ends (snd (rt_pending (ld_rt s) ! i) r)" "i < length (rt_pending (ld_rt s))" using assms(1) by (auto simp: awaited_def)
  then show ?thesis using ld_step.answer [OF _ assms(2), of asks ends] by simp
qed

end

section \<open>Three pages\<close>

text \<open>The list of vpns: a selector's emission clears the indicator too.\<close>

fun vpn_list_asks :: "action \<Rightarrow> bool" where
  "vpn_list_asks (VpnA StartGetAllVpn) = True"
| "vpn_list_asks (VpnA (StartAddVpn nm ds)) = True"
| "vpn_list_asks (VpnA (DeleteVpn nm)) = True"
| "vpn_list_asks a = False"

definition vpn_list_ends :: "action \<Rightarrow> bool" where
  "vpn_list_ends a \<longleftrightarrow> emits_vpns a \<or> \<not> vl_isLoading (vpn_list_react a \<lparr>vl_isLoading = True, vl_vpns = JArr []\<rparr>)"

interpretation vpn_list_ld: loading_page vpn_list_asks vpn_list_ends yaml api
proof
  fix a assume "vpn_list_asks a"
  then show "\<exists>rq k. app_effect yaml api a = Some (rq, k) \<and> (\<forall>r. vpn_list_ends (k r))"
    by (cases a rule: vpn_list_asks.cases) (auto simp: lift_effect_def settle_def vpn_list_ends_def split: outcome.split option.split)
qed

text \<open>The list of instances\<close>

fun instance_list_asks :: "action \<Rightarrow> bool" where
  "instance_list_asks (InstanceA (StartReactivate i)) = True"
| "instance_list_asks a = False"

definition instance_list_ends :: "action \<Rightarrow> bool" where
  "instance_list_ends a \<longleftrightarrow> \<not> lst_isLoading (instance_list_react a (new_ListPage\<lparr>lst_isLoading := True\<rparr>))"

interpretation instance_list_ld: loading_page instance_list_asks instance_list_ends yaml api
proof
  fix a assume "instance_list_asks a"
  then show "\<exists>rq k. app_effect yaml api a = Some (rq, k) \<and> (\<forall>r. instance_list_ends (k r))"
    by (cases a rule: instance_list_asks.cases) (auto simp: lift_effect_def settle_def instance_list_ends_def split: outcome.split option.split)
qed

text \<open>The page of a workflow\<close>

fun workflow_asks :: "action \<Rightarrow> bool" where
  "workflow_asks (SmA (StartUpdate i json)) = True"
| "workflow_asks (SmA (StartLaunch i inp ps)) = True"
| "workflow_asks a = False"

definition workflow_ends :: "action \<Rightarrow> bool" where
  "workflow_ends a \<longleftrightarrow> \<not> wp_isLoading (page_react a \<lparr>wp_def = new_StateMachineModel, wp_isLoading = True, wp_id = Undef, wp_action = []\<rparr>)"

interpretation workflow_ld: loading_page workflow_asks workflow_ends yaml api
proof
  fix a assume "workflow_asks a"
  then show "\<exists>rq k. app_effect yaml api a = Some (rq, k) \<and> (\<forall>r. workflow_ends (k r))"
    by (cases a rule: workflow_asks.cases) (auto simp: lift_effect_def settle_def workflow_ends_def split: outcome.split option.split Option.bind_splits)
qed


text \<open>The two predicates say exactly what the subscriptions do to the indicator.\<close>

lemma vpn_list_indicator:
  "vl_isLoading (let p' = (if emits_vpns a then vpn_list_loaded s p else p) in vpn_list_react a p') \<longleftrightarrow> vl_isLoading p \<and> \<not> vpn_list_ends a"
proof (cases a)
  case (VpnA b)
  then show ?thesis by (cases b) (simp_all add: vpn_list_ends_def vpn_list_loaded_def selectVpnLstResult_def if_truthy_def)
qed (simp_all add: vpn_list_ends_def)

lemma instance_list_indicator: "lst_isLoading (instance_list_react a p) \<longleftrightarrow> lst_isLoading p \<and> \<not> instance_list_ends a"
proof (cases a)
  case (InstanceA b)
  then show ?thesis by (cases b) (simp_all add: instance_list_ends_def)
qed (simp_all add: instance_list_ends_def)

lemma workflow_indicator: "wp_isLoading (page_react a p) \<longleftrightarrow> wp_isLoading p \<and> \<not> workflow_ends a"
proof (cases a)
  case (SmA b)
  then show ?thesis by (cases b) (simp_all add: workflow_ends_def)
qed (simp_all add: workflow_ends_def)

text \<open>
  C40. No page with a loading indicator stays stuck: in every run of the list of vpns, of the list of
  instances and of the page of a workflow together with the store, with any other actions and answers
  in between, a page that is loading has a request pending whose answer, a success or a failure,
  clears the indicator as soon as it is processed.
\<close>

theorem loading_is_never_stuck:
  "(ld_reachable yaml api vpn_list_asks vpn_list_ends s \<and> ld_loading s \<longrightarrow>
      (\<exists>i. awaited vpn_list_ends (ld_rt s) i \<and>
        (\<forall>now r rt. respond yaml api now i r (ld_rt s) = Some rt \<longrightarrow> ld_step yaml api vpn_list_asks vpn_list_ends s \<lparr>ld_loading = False, ld_rt = rt\<rparr>))) \<and>
    (ld_reachable yaml api instance_list_asks instance_list_ends s \<and> ld_loading s \<longrightarrow>
      (\<exists>i. awaited instance_list_ends (ld_rt s) i \<and>
        (\<forall>now r rt. respond yaml api now i r (ld_rt s) = Some rt \<longrightarrow> ld_step yaml api instance_list_asks instance_list_ends s \<lparr>ld_loading = False, ld_rt = rt\<rparr>))) \<and>
    (ld_reachable yaml api workflow_asks workflow_ends s \<and> ld_loading s \<longrightarrow>
      (\<exists>i. awaited workflow_ends (ld_rt s) i \<and>
        (\<forall>now r rt. respond yaml api now i r (ld_rt s) = Some rt \<longrightarrow> ld_step yaml api workflow_asks workflow_ends s \<lparr>ld_loading = False, ld_rt = rt\<rparr>)))"
  by (intro conjI impI; elim conjE)
    (blast dest: vpn_list_ld.never_stuck instance_list_ld.never_stuck workflow_ld.never_stuck
      intro: vpn_list_ld.answer_ends instance_list_ld.answer_ends workflow_ld.answer_ends)+

definition example_loading :: loading_session where
  "example_loading = \<lparr>ld_loading = True, ld_rt = the (dispatch (\<lambda>_. '''') ''api'' Null (VpnA (DeleteVpn ''v'')) \<lparr>rt_state = initial_app Map.empty, rt_pending = []\<rparr>)\<rparr>"

theorem loading_is_never_stuck_witness:
  "\<exists>i rt. awaited vpn_list_ends (ld_rt example_loading) i \<and> respond (\<lambda>_. '''') ''api'' Null i Failure (ld_rt example_loading) = Some rt \<and>
     ld_step (\<lambda>_. '''') ''api'' vpn_list_asks vpn_list_ends example_loading \<lparr>ld_loading = False, ld_rt = rt\<rparr>"
proof -
  let ?rt = "\<lparr>rt_state = initial_app Map.empty, rt_pending = []\<rparr>" and ?y = "\<lambda>_ :: js. [] :: string"
  have d: "dispatch ?y ''api'' Null (VpnA (DeleteVpn ''v'')) ?rt = Some (ld_rt example_loading)"
    by (simp add: example_loading_def dispatch_def lift_effect_def)
  have "ld_step ?y ''api'' vpn_list_asks vpn_list_ends \<lparr>ld_loading = False, ld_rt = ?rt\<rparr> \<lparr>ld_loading = \<not> vpn_list_ends (VpnA (DeleteVpn ''v'')), ld_rt = ld_rt example_loading\<rparr>"
    using d by (intro ld_step.ask) simp_all
  then have "ld_reachable ?y ''api'' vpn_list_asks vpn_list_ends example_loading"
    using ld_reachable.step [OF ld_reachable.idle] by (simp add: vpn_list_ends_def example_loading_def)
  then obtain i where i: "awaited vpn_list_ends (ld_rt example_loading) i"
    "\<forall>now r rt. respond ?y ''api'' now i r (ld_rt example_loading) = Some rt \<longrightarrow> ld_step ?y ''api'' vpn_list_asks vpn_list_ends example_loading \<lparr>ld_loading = False, ld_rt = rt\<rparr>"
    using loading_is_never_stuck [of ?y "''api''" example_loading] by (auto simp: example_loading_def)
  then have "i = 0" by (simp add: awaited_def example_loading_def dispatch_def lift_effect_def)
  moreover have "\<exists>rt. respond ?y ''api'' Null 0 Failure (ld_rt example_loading) = Some rt"
    by (simp add: respond_def example_loading_def dispatch_def lift_effect_def settle_def)
  ultimately show ?thesis using i by blast
qed

section \<open>The page of an instance\<close>

lemma instance_answer:
  "appReducer now (InstanceA (CompleteGetInstance (JObj kvs))) s = Some (s\<lparr>stateMachineInstance := (stateMachineInstance s)\<lparr>StateMachineInstance := JObj kvs\<rparr>\<rparr>)"
  by simp

text \<open>
  The page of an instance waits for the instance and for its definition: in whichever order the two
  answers arrive, it stops loading exactly with the second one and shows both.
\<close>

theorem instance_page_loads:
  assumes "instance_view_open show i instid s = Some (p, as)" and "\<not> truthy (StateMachineInstance (stateMachineInstance s))" and "\<not> truthy (StateMachine (stateMachine s))"
    and "build (JObj ds) = Some m" and "truthy (m_id m)" and "truthy (obj_lookup kvs ''id'')"
    and "selectStateMachineResult s1 = JObj ds" and "selectStateMachineInstanceResult s2 = JObj kvs"
  shows "\<exists>p1 p2 q. definition_emitted s1 p = Some p1 \<and> np_isLoading p1 \<and> instance_emitted s2 p1 = Some q \<and>
    instance_emitted s2 p = Some p2 \<and> np_isLoading p2 \<and> definition_emitted s1 p2 = Some q \<and>
    \<not> np_isLoading q \<and> np_def q = m \<and> np_instance q = JObj kvs"
proof -
  have "p = \<lparr>np_def = new_StateMachineModel, np_instance = new_StateMachineInstanceDetails, np_isLoading = True\<rparr>"
    using assms(1-3) by (auto simp: instance_view_open_def instance_emitted_def definition_emitted_def selectStateMachineInstanceResult_def
        selectStateMachineResult_def if_truthy_def)
  moreover have "\<not> truthy (m_id new_StateMachineModel)" by (simp add: new_StateMachineModel_def)
  ultimately show ?thesis using assms(4-8)
    by (simp add: definition_emitted_def instance_emitted_def instance_refreshLoading_def new_StateMachineInstanceDetails_def Let_def)
qed

text \<open>
  With the values of another instance still in the store, the page stops loading at the first of the
  two answers and shows the new definition with the old instance.
\<close>

theorem stale_instance_is_shown:
  assumes "selectStateMachineInstanceResult s = JObj old" and "truthy (obj_lookup old ''id'')" and "selectStateMachineResult s = JObj olddef" and "build (JObj olddef) = Some m0"
    and "build (JObj ds) = Some m" and "truthy (m_id m)" and "selectStateMachineResult s1 = JObj ds"
  shows "\<exists>p as q. instance_view_open show i instid s = Some (p, as) \<and> definition_emitted s1 p = Some q \<and>
    \<not> np_isLoading q \<and> np_def q = m \<and> np_instance q = JObj old"
  using assms by (simp add: instance_view_open_def definition_emitted_def instance_emitted_def instance_refreshLoading_def Let_def)

end
