(* ===== verification/Function_Forms.thy ===== *)
theory Function_Forms
  imports App_Store Dialog_Function
begin

text \<open>
  The page that invokes a function (app/functions/view/invoke/invoke.component.ts) and the components
  that render the form of its configuration (app/functions/function-rendering). The form objects of
  Angular are shared between the components, so they are kept in a heap: an address is a position in
  a list of controls. A view is the component that a rendering component has created for a parameter;
  creating it again replaces it. The parameters of a form have distinct names. \<open>None\<close> is a
  \<open>TypeError\<close> or a \<open>SyntaxError\<close>.
\<close>

section \<open>Form objects\<close>

datatype control =
    Control js
  | Group "(string \<times> nat) list"
  | Arr "nat list"

fun refs :: "control \<Rightarrow> nat list" where
  "refs (Control v) = []"
| "refs (Group kvs) = map snd kvs"
| "refs (Arr bs) = bs"

text \<open>\<open>form.get(name)\<close> and \<open>form.contains(name)\<close>; no control is ever disabled.\<close>

definition form_control :: "control list \<Rightarrow> nat \<Rightarrow> string \<Rightarrow> nat option" where
  "form_control h f n = (case h ! f of Group kvs \<Rightarrow> map_of kvs n | _ \<Rightarrow> None)"

text \<open>\<open>form.addControl(name, new ...)\<close>\<close>

definition addControl :: "nat \<Rightarrow> string \<Rightarrow> control \<Rightarrow> control list \<Rightarrow> control list" where
  "addControl f n c h = (case h ! f of Group kvs \<Rightarrow> h[f := Group (kvs @ [(n, length h)])] | _ \<Rightarrow> h) @ [c]"

text \<open>\<open>form.value\<close>; the fuel bounds the depth of the form.\<close>

fun form_value :: "nat \<Rightarrow> control list \<Rightarrow> nat \<Rightarrow> js res" where
  "form_value 0 h a = None"
| "form_value (Suc n) h a =
     (case h ! a of
        Control v \<Rightarrow> Some v
      | Group kvs \<Rightarrow> map_option (\<lambda>vs. JObj (zip (map fst kvs) vs)) (those (map (form_value n h) (map snd kvs)))
      | Arr bs \<Rightarrow> map_option JArr (those (map (form_value n h) bs)))"

section \<open>The rendering components\<close>

record render_option =
  ro_type :: string
  ro_name :: string
  ro_parameters :: js

definition array_setForm :: "nat \<Rightarrow> string \<Rightarrow> control list \<Rightarrow> (control list \<times> nat list) res" where
  "array_setForm f n h =
     (case form_control h f n of
        None \<Rightarrow> Some (addControl f n (Arr []) h, [])
      | Some a \<Rightarrow> (case h ! a of Arr bs \<Rightarrow> Some (h, bs) | _ \<Rightarrow> TypeError))"

definition string_setForm :: "nat \<Rightarrow> string \<Rightarrow> control list \<Rightarrow> control list \<times> nat" where
  "string_setForm f n h =
     (case form_control h f n of
        None \<Rightarrow> (addControl f n (Control Null) h, length h)
      | Some a \<Rightarrow> (h, a))"

definition addParameter :: "nat \<Rightarrow> string \<Rightarrow> control list \<times> nat list \<Rightarrow> (control list \<times> nat list) res" where
  "addParameter f n = (\<lambda>(h, children).
     case form_control h f n of
       None \<Rightarrow> TypeError
     | Some a \<Rightarrow> (case h ! a of
           Arr bs \<Rightarrow> Some (h[a := Arr (bs @ [length h])] @ [Group []], children @ [length h])
         | _ \<Rightarrow> TypeError))"

definition removeParameter :: "nat \<Rightarrow> string \<Rightarrow> nat \<Rightarrow> control list \<times> nat list \<Rightarrow> (control list \<times> nat list) res" where
  "removeParameter f n child = (\<lambda>(h, children).
     case form_control h f n of
       None \<Rightarrow> TypeError
     | Some a \<Rightarrow> (case h ! a of
           Arr bs \<Rightarrow> Some (h[a := Arr (js_splice (js_findIndex (\<lambda>b. b = child) bs) 1 bs)],
                       js_splice (js_findIndex (\<lambda>b. b = child) children) 1 children)
         | _ \<Rightarrow> TypeError))"

datatype param_view =
    AView "nat list"
  | SView nat

record rendering =
  rd_heap :: "control list"
  rd_views :: "nat \<times> string \<Rightarrow> param_view option"

definition new_rendering :: rendering where
  "new_rendering = \<lparr>rd_heap = [Group []], rd_views = Map.empty\<rparr>"

text \<open>\<open>refresh\<close> of a rendering component: the view for the type of the option, if there is one\<close>

definition render :: "nat \<Rightarrow> render_option \<Rightarrow> rendering \<Rightarrow> rendering res" where
  "render f opt rd =
     (let key = (f, ro_name opt)
      in if ro_type opt = ''array'' then
           map_option (\<lambda>(h, cs). \<lparr>rd_heap = h, rd_views = (rd_views rd)(key \<mapsto> AView cs)\<rparr>) (array_setForm f (ro_name opt) (rd_heap rd))
         else if ro_type opt = ''string'' then
           (let (h, c) = string_setForm f (ro_name opt) (rd_heap rd) in Some \<lparr>rd_heap = h, rd_views = (rd_views rd)(key \<mapsto> SView c)\<rparr>)
         else Some (rd\<lparr>rd_views := (rd_views rd)(key := None)\<rparr>))"

text \<open>The handlers of a view: on the array view \<open>f\<close>, \<open>n\<close>, and typing into a string view\<close>

definition on_array :: "nat \<Rightarrow> string \<Rightarrow> (control list \<times> nat list \<Rightarrow> (control list \<times> nat list) res) \<Rightarrow> rendering \<Rightarrow> rendering res" where
  "on_array f n op rd =
     (case rd_views rd (f, n) of
        Some (AView cs) \<Rightarrow> map_option (\<lambda>(h, cs'). \<lparr>rd_heap = h, rd_views = (rd_views rd)((f, n) \<mapsto> AView cs')\<rparr>) (op (rd_heap rd, cs))
      | _ \<Rightarrow> Some rd)"

definition type_text :: "nat \<Rightarrow> string \<Rightarrow> js \<Rightarrow> rendering \<Rightarrow> rendering res" where
  "type_text f n v rd =
     (case rd_views rd (f, n) of
        Some (SView c) \<Rightarrow> (case rd_heap rd ! c of Control w \<Rightarrow> Some (rd\<lparr>rd_heap := (rd_heap rd)[c := Control v]\<rparr>) | _ \<Rightarrow> TypeError)
      | _ \<Rightarrow> Some rd)"

definition is_group :: "control list \<Rightarrow> nat \<Rightarrow> bool" where
  "is_group h f \<longleftrightarrow> f < length h \<and> (case h ! f of Group kvs \<Rightarrow> True | _ \<Rightarrow> False)"

inductive rd_step :: "rendering \<Rightarrow> rendering \<Rightarrow> bool" where
  rendered: "is_group (rd_heap rd) f \<Longrightarrow> render f opt rd = Some rd' \<Longrightarrow> rd_step rd rd'"
| added: "on_array f n (addParameter f n) rd = Some rd' \<Longrightarrow> rd_step rd rd'"
| removed: "rd_views rd (f, n) = Some (AView cs) \<Longrightarrow> child \<in> set cs \<Longrightarrow> on_array f n (removeParameter f n child) rd = Some rd' \<Longrightarrow> rd_step rd rd'"
| typed: "type_text f n v rd = Some rd' \<Longrightarrow> rd_step rd rd'"

inductive rd_reachable :: "rendering \<Rightarrow> bool" where
  opened: "rd_reachable new_rendering"
| moved: "rd_reachable rd \<Longrightarrow> rd_step rd rd' \<Longrightarrow> rd_reachable rd'"

section \<open>The page\<close>

record invoke_page =
  iv_option :: js
  iv_form :: rendering
  iv_input :: js
  iv_output :: js

definition new_InvokePage :: invoke_page where
  "new_InvokePage = \<lparr>iv_option = Undef, iv_form = new_rendering, iv_input = Null, iv_output = JObj []\<rparr>"

fun invoke_react :: "action \<Rightarrow> invoke_page \<Rightarrow> invoke_page" where
  "invoke_react (FunctionA (CompleteInvoke content)) p = p\<lparr>iv_output := content\<rparr>"
| "invoke_react a p = p"

definition invoke_loaded :: "app_state \<Rightarrow> invoke_page \<Rightarrow> invoke_page" where
  "invoke_loaded s p = (let r = selectFunctionConfigurationResult s in if \<not> truthy r then p else p\<lparr>iv_option := r\<rparr>)"

definition invoke_refresh :: "string \<Rightarrow> action" where
  "invoke_refresh nm = FunctionA (StartGetConfiguration nm)"

text \<open>\<open>onSave\<close>\<close>

definition onSave :: "(js \<Rightarrow> js res) \<Rightarrow> string \<Rightarrow> invoke_page \<Rightarrow> action res" where
  "onSave parse nm p = do {
     configuration \<leftarrow> form_value (length (rd_heap (iv_form p))) (rd_heap (iv_form p)) 0;
     inp \<leftarrow> parse (iv_input p);
     Some (FunctionA (StartInvoke nm (JObj [(''configuration'', configuration), (''input'', inp)])))
   }"

section \<open>Forms are trees\<close>

definition forms_ok :: "control list \<Rightarrow> bool" where
  "forms_ok h \<longleftrightarrow> (\<forall>a < length h. distinct (refs (h ! a)) \<and>
     (\<forall>b \<in> set (refs (h ! a)). a < b \<and> b < length h \<and> (\<forall>a' < length h. b \<in> set (refs (h ! a')) \<longrightarrow> a' = a)))"

lemma forms_ok_distinct: "forms_ok h \<Longrightarrow> a < length h \<Longrightarrow> distinct (refs (h ! a))"
  unfolding forms_ok_def by blast

lemma forms_ok_later: "forms_ok h \<Longrightarrow> a < length h \<Longrightarrow> b \<in> set (refs (h ! a)) \<Longrightarrow> a < b \<and> b < length h"
  unfolding forms_ok_def by blast

lemma forms_ok_parent: "forms_ok h \<Longrightarrow> a < length h \<Longrightarrow> a' < length h \<Longrightarrow> b \<in> set (refs (h ! a)) \<Longrightarrow> b \<in> set (refs (h ! a')) \<Longrightarrow> a' = a"
  unfolding forms_ok_def by blast

lemma forms_ok_update:
  assumes ok: "forms_ok h" and a: "a < length h" and c: "distinct (refs c)" "set (refs c) \<subseteq> set (refs (h ! a))"
  shows "forms_ok (h[a := c])"
proof -
  have sub: "set (refs (h[a := c] ! x)) \<subseteq> set (refs (h ! x))" for x using a c(2) by (cases "x = a") auto
  have "distinct (refs (h[a := c] ! x))" if "x < length h" for x
    using forms_ok_distinct [OF ok that] c(1) a by (cases "x = a") auto
  moreover have "x < b \<and> b < length h \<and> (\<forall>a' < length h. b \<in> set (refs (h[a := c] ! a')) \<longrightarrow> a' = x)"
    if "x < length h" "b \<in> set (refs (h[a := c] ! x))" for x b
  proof -
    have b: "b \<in> set (refs (h ! x))" using sub that(2) by blast
    show ?thesis using forms_ok_later [OF ok that(1) b] forms_ok_parent [OF ok that(1) _ b] sub by blast
  qed
  ultimately show ?thesis unfolding forms_ok_def length_list_update by blast
qed

lemma forms_ok_extend:
  assumes ok: "forms_ok h" and a: "a < length h" and c: "refs c = refs (h ! a) @ [length h]" and d: "refs d = []"
  shows "forms_ok (h[a := c] @ [d])"
proof -
  let ?h = "h[a := c] @ [d]"
  have r: "refs (?h ! x) = (if x = a then refs (h ! a) @ [length h] else if x < length h then refs (h ! x) else [])" if "x \<le> length h" for x
    using that a c d by (auto simp: nth_append)
  have n: "length h \<notin> set (refs (h ! x))" if "x < length h" for x using forms_ok_later [OF ok that] by blast
  have "distinct (refs (?h ! x))" if "x \<le> length h" for x
    using r [OF that] n [OF a] forms_ok_distinct [OF ok] a that by auto
  moreover have "x < b \<and> b \<le> length h \<and> (\<forall>a' \<le> length h. b \<in> set (refs (?h ! a')) \<longrightarrow> a' = x)"
    if x: "x \<le> length h" "b \<in> set (refs (?h ! x))" for x b
  proof (cases "b = length h")
    case True
    then have "x = a" using x r [OF x(1)] n [of x] by (auto split: if_splits)
    then show ?thesis using True a r n by (auto split: if_splits)
  next
    case False
    then have "x < length h" "b \<in> set (refs (h ! x))" using x r [OF x(1)] a by (auto split: if_splits)
    then have b: "x < length h" "b \<in> set (refs (h ! x))" by auto
    have "a' = x" if "a' \<le> length h" "b \<in> set (refs (?h ! a'))" for a'
    proof -
      have "a' < length h" "b \<in> set (refs (h ! a'))" using that r [OF that(1)] a False by (auto split: if_splits)
      then show ?thesis using forms_ok_parent [OF ok b(1) _ b(2)] by blast
    qed
    then show ?thesis using forms_ok_later [OF ok b] by auto
  qed
  ultimately show ?thesis unfolding forms_ok_def length_append length_list_update list.size add_0 add_Suc_right add_0_right less_Suc_eq_le by blast
qed

lemma form_control_ref:
  "form_control h f n = Some a \<Longrightarrow> a \<in> set (refs (h ! f))"
  by (cases "h ! f") (auto simp: form_control_def dest!: map_of_SomeD intro: rev_image_eqI)

lemma form_control_inj:
  assumes "forms_ok h" and "f < length h" "f' < length h" and "form_control h f n = Some a" "form_control h f' n' = Some a"
  shows "f' = f \<and> n' = n"
proof -
  have e: "f' = f" using forms_ok_parent [OF assms(1,2,3)] form_control_ref assms(4,5) by blast
  obtain kvs where g: "h ! f = Group kvs" using assms(4) by (cases "h ! f") (auto simp: form_control_def)
  then have "(n, a) \<in> set kvs" "(n', a) \<in> set kvs" using assms(4,5) e by (auto simp: form_control_def dest: map_of_SomeD)
  moreover have "distinct (map snd kvs)" using forms_ok_distinct [OF assms(1,2)] g by simp
  ultimately have "(n', a) = (n, a)" by (metis distinct_map inj_onD snd_conv)
  then show ?thesis using e by simp
qed

lemma value_total: "forms_ok h \<Longrightarrow> a < length h \<Longrightarrow> length h \<le> n + a \<Longrightarrow> \<exists>v. form_value n h a = Some v"
proof (induction n arbitrary: a)
  case (Suc n)
  have *: "\<exists>v. form_value n h b = Some v" if "b \<in> set (refs (h ! a))" for b
  proof -
    have "a < b" "b < length h" using forms_ok_later [OF Suc.prems(1,2) that] by auto
    then show ?thesis using Suc.prems(1,3) by (intro Suc.IH) simp_all
  qed
  have "\<exists>vs. those (map (form_value n h) (refs (h ! a))) = Some vs"
  proof -
    have "those (map (form_value n h) (refs (h ! a))) = Some (map (\<lambda>b. the (form_value n h b)) (refs (h ! a)))"
    proof (rule those_map_eq_Some)
      fix b assume "b \<in> set (refs (h ! a))"
      then obtain v where "form_value n h b = Some v" using * by blast
      then show "form_value n h b = Some (the (form_value n h b))" by simp
    qed
    then show ?thesis by blast
  qed
  then show ?case by (cases "h ! a") (auto simp del: map_map)
qed simp

lemma value_mono: "form_value n h a = Some v \<Longrightarrow> n \<le> m \<Longrightarrow> form_value m h a = Some v"
proof (induction n arbitrary: a v m)
  case (Suc n)
  obtain m' where m: "m = Suc m'" "n \<le> m'" using Suc.prems(2) by (cases m) auto
  have *: "those (map (form_value n h) bs) = Some vs \<Longrightarrow> those (map (form_value m' h) bs) = Some vs" for bs vs
    using Suc.IH [OF _ m(2)] by (induction bs arbitrary: vs) (auto split: option.splits)
  show ?case using Suc.prems(1) m(1) by (cases "h ! a") (auto dest: * simp del: map_map)
qed simp


section \<open>What is shown is what is stored\<close>

fun param_view_ok :: "control list \<Rightarrow> nat \<Rightarrow> string \<Rightarrow> param_view \<Rightarrow> bool" where
  "param_view_ok h f n (AView cs) = (\<exists>a. form_control h f n = Some a \<and> h ! a = Arr cs)"
| "param_view_ok h f n (SView c) = (form_control h f n = Some c)"

definition rd_inv :: "rendering \<Rightarrow> bool" where
  "rd_inv rd \<longleftrightarrow> forms_ok (rd_heap rd) \<and> is_group (rd_heap rd) 0 \<and>
     (\<forall>f n v. rd_views rd (f, n) = Some v \<longrightarrow> is_group (rd_heap rd) f \<and> param_view_ok (rd_heap rd) f n v)"

lemma form_control_bound: "forms_ok h \<Longrightarrow> is_group h f \<Longrightarrow> form_control h f n = Some a \<Longrightarrow> f < a \<and> a < length h"
  using forms_ok_later form_control_ref by (metis is_group_def)

text \<open>A change of the heap for one view leaves the other views as they are.\<close>

lemma inv_change:
  assumes inv: "rd_inv rd" and f: "is_group (rd_heap rd) f" and ok': "forms_ok h'" and v: "param_view_ok h' f n v"
    and groups: "\<And>x. is_group (rd_heap rd) x \<Longrightarrow> is_group h' x"
    and names: "\<And>f' n'. is_group (rd_heap rd) f' \<Longrightarrow> (f', n') \<noteq> (f, n) \<Longrightarrow> form_control h' f' n' = form_control (rd_heap rd) f' n'"
    and rest: "\<And>x. x < length (rd_heap rd) \<Longrightarrow> \<not> is_group (rd_heap rd) x \<Longrightarrow> form_control (rd_heap rd) f n \<noteq> Some x \<Longrightarrow> h' ! x = rd_heap rd ! x"
  shows "rd_inv \<lparr>rd_heap = h', rd_views = (rd_views rd)((f, n) \<mapsto> v)\<rparr>"
proof -
  let ?h = "rd_heap rd"
  have ok: "forms_ok ?h" using inv by (simp add: rd_inv_def)
  have "is_group h' f' \<and> param_view_ok h' f' n' w" if w: "rd_views rd (f', n') = Some w" "(f', n') \<noteq> (f, n)" for f' n' w
  proof -
    have g: "is_group ?h f'" "param_view_ok ?h f' n' w" using inv w(1) by (auto simp: rd_inv_def)
    note fc = names [OF g(1) w(2)]
    have "param_view_ok h' f' n' w"
    proof (cases w)
      case (AView cs)
      then obtain a where a: "form_control ?h f' n' = Some a" "?h ! a = Arr cs" using g(2) by auto
      moreover have "\<not> is_group ?h a" using a(2) by (simp add: is_group_def)
      moreover have "form_control ?h f n \<noteq> Some a"
        using form_control_inj [OF ok, of f f' n a n'] a(1) f g(1) w(2) by (auto simp: is_group_def)
      ultimately show ?thesis using AView fc rest form_control_bound [OF ok g(1) a(1)] by simp
    next
      case (SView c)
      then show ?thesis using g(2) fc by simp
    qed
    then show ?thesis using groups [OF g(1)] by blast
  qed
  moreover have "is_group h' 0" using groups inv by (simp add: rd_inv_def)
  ultimately show ?thesis using ok' v groups [OF f] by (auto simp: rd_inv_def)
qed

lemma addControl_heap:
  assumes "forms_ok h" and "is_group h f" and "form_control h f n = None" and "refs c = []"
  shows "forms_ok (addControl f n c h) \<and> form_control (addControl f n c h) f n = Some (length h) \<and> addControl f n c h ! length h = c \<and>
    is_group (addControl f n c h) f \<and> length (addControl f n c h) = Suc (length h) \<and>
    (\<forall>x < length h. x \<noteq> f \<longrightarrow> addControl f n c h ! x = h ! x) \<and>
    (\<forall>n'. n' \<noteq> n \<longrightarrow> form_control (addControl f n c h) f n' = form_control h f n')"
proof -
  obtain kvs where g: "f < length h" "h ! f = Group kvs" using assms(2) by (auto simp: is_group_def split: control.splits)
  have e: "addControl f n c h = h[f := Group (kvs @ [(n, length h)])] @ [c]" using g by (simp add: addControl_def)
  have "forms_ok (addControl f n c h)" unfolding e using assms(1,4) g by (intro forms_ok_extend) auto
  moreover have "map_of kvs n = None" using assms(3) g by (simp add: form_control_def)
  ultimately show ?thesis using g by (auto simp: e form_control_def nth_append map_add_def is_group_def split: option.split)
qed

lemma addControl_inv:
  assumes inv: "rd_inv rd" and f: "is_group (rd_heap rd) f" "form_control (rd_heap rd) f n = None" and c: "refs c = []"
    and v: "param_view_ok (addControl f n c (rd_heap rd)) f n v"
  shows "rd_inv \<lparr>rd_heap = addControl f n c (rd_heap rd), rd_views = (rd_views rd)((f, n) \<mapsto> v)\<rparr>"
proof -
  have "forms_ok (rd_heap rd)" using inv by (simp add: rd_inv_def)
  note a = addControl_heap [OF this f c]
  show ?thesis
  proof (rule inv_change [OF inv f(1) _ v])
    show "is_group (addControl f n c (rd_heap rd)) x" if "is_group (rd_heap rd) x" for x
      using a that by (cases "x = f") (auto simp: is_group_def)
    show "form_control (addControl f n c (rd_heap rd)) f' n' = form_control (rd_heap rd) f' n'"
      if "is_group (rd_heap rd) f'" "(f', n') \<noteq> (f, n)" for f' n'
      using a that by (cases "f' = f") (auto simp: form_control_def is_group_def)
    show "addControl f n c (rd_heap rd) ! x = rd_heap rd ! x" if "x < length (rd_heap rd)" "\<not> is_group (rd_heap rd) x" for x
      using a that f(1) by blast
  qed (use a in blast)
qed

text \<open>Replacing the array or the text control that a view shows\<close>

lemma replace_inv:
  assumes inv: "rd_inv rd" and w: "rd_views rd (f, n) = Some w" and a: "form_control (rd_heap rd) f n = Some a" "\<not> is_group (rd_heap rd) a"
    and ok': "forms_ok ((rd_heap rd)[a := c] @ ext)" and v: "param_view_ok ((rd_heap rd)[a := c] @ ext) f n v"
  shows "rd_inv \<lparr>rd_heap = (rd_heap rd)[a := c] @ ext, rd_views = (rd_views rd)((f, n) \<mapsto> v)\<rparr>"
proof (rule inv_change [OF inv _ ok' v])
  show g: "is_group (rd_heap rd) f" using inv w by (auto simp: rd_inv_def)
  show "is_group ((rd_heap rd)[a := c] @ ext) x" if "is_group (rd_heap rd) x" for x
    using that a(2) by (cases "x = a") (auto simp: is_group_def nth_append)
  show "form_control ((rd_heap rd)[a := c] @ ext) f' n' = form_control (rd_heap rd) f' n'" if "is_group (rd_heap rd) f'" for f' n'
    using that a(2) by (cases "f' = a") (auto simp: is_group_def form_control_def nth_append)
  show "((rd_heap rd)[a := c] @ ext) ! x = rd_heap rd ! x" if "x < length (rd_heap rd)" "form_control (rd_heap rd) f n \<noteq> Some x" for x
    using that a(1) by (auto simp: nth_append)
qed


lemma same_heap_inv:
  "rd_inv rd \<Longrightarrow> is_group (rd_heap rd) f \<Longrightarrow> param_view_ok (rd_heap rd) f n v \<Longrightarrow> rd_inv \<lparr>rd_heap = rd_heap rd, rd_views = (rd_views rd)((f, n) \<mapsto> v)\<rparr>"
  by (rule inv_change) (auto simp: rd_inv_def)

lemma render_inv:
  assumes inv: "rd_inv rd" and f: "is_group (rd_heap rd) f" and r: "render f opt rd = Some rd'"
  shows "rd_inv rd'"
proof -
  let ?n = "ro_name opt"
  have ok: "forms_ok (rd_heap rd)" using inv by (simp add: rd_inv_def)
  consider "ro_type opt = ''array''" | "ro_type opt = ''string''" | "ro_type opt \<noteq> ''array''" "ro_type opt \<noteq> ''string''" by blast
  then show ?thesis
  proof cases
    case 1
    show ?thesis
    proof (cases "form_control (rd_heap rd) f ?n")
      case None
      have "param_view_ok (addControl f ?n (Arr []) (rd_heap rd)) f ?n (AView [])" using addControl_heap [OF ok f None, of "Arr []"] by simp
      from addControl_inv [OF inv f None _ this] show ?thesis using r 1 None by (simp add: render_def array_setForm_def)
    next
      case (Some a)
      then obtain bs where "rd_heap rd ! a = Arr bs" using r 1 by (cases "rd_heap rd ! a") (auto simp: render_def array_setForm_def)
      then show ?thesis using r 1 Some same_heap_inv [OF inv f, of ?n "AView bs"] by (simp add: render_def array_setForm_def)
    qed
  next
    case 2
    show ?thesis
    proof (cases "form_control (rd_heap rd) f ?n")
      case None
      have "param_view_ok (addControl f ?n (Control Null) (rd_heap rd)) f ?n (SView (length (rd_heap rd)))"
        using addControl_heap [OF ok f None, of "Control Null"] by simp
      from addControl_inv [OF inv f None _ this] show ?thesis using r 2 None by (simp add: render_def string_setForm_def)
    next
      case (Some a)
      then show ?thesis using r 2 same_heap_inv [OF inv f, of ?n "SView a"] by (simp add: render_def string_setForm_def)
    qed
  next
    case 3
    then show ?thesis using inv r by (auto simp: render_def rd_inv_def split: if_splits)
  qed
qed

lemma array_view:
  assumes "rd_inv rd" and "rd_views rd (f, n) = Some (AView cs)"
  obtains a where "form_control (rd_heap rd) f n = Some a" "rd_heap rd ! a = Arr cs" "a < length (rd_heap rd)" "distinct cs" "is_group (rd_heap rd) f" "f \<noteq> a"
proof -
  have ok: "forms_ok (rd_heap rd)" and g: "is_group (rd_heap rd) f" and v: "param_view_ok (rd_heap rd) f n (AView cs)"
    using assms unfolding rd_inv_def by blast+
  then obtain a where a: "form_control (rd_heap rd) f n = Some a" "rd_heap rd ! a = Arr cs" by auto
  have "f < a \<and> a < length (rd_heap rd)" using form_control_bound [OF ok g a(1)] .
  then show ?thesis using that a forms_ok_distinct [OF ok, of a] g by auto
qed

lemma add_inv:
  assumes inv: "rd_inv rd" and r: "on_array f n (addParameter f n) rd = Some rd'"
  shows "rd_inv rd'"
proof (cases "\<exists>cs. rd_views rd (f, n) = Some (AView cs)")
  case True
  then obtain cs where w: "rd_views rd (f, n) = Some (AView cs)" by blast
  from array_view [OF inv w] obtain a where a: "form_control (rd_heap rd) f n = Some a" "rd_heap rd ! a = Arr cs" "a < length (rd_heap rd)"
    "distinct cs" "is_group (rd_heap rd) f" "f \<noteq> a" .
  let ?h' = "(rd_heap rd)[a := Arr (cs @ [length (rd_heap rd)])] @ [Group []]"
  have "forms_ok ?h'" using inv a by (intro forms_ok_extend) (auto simp: rd_inv_def)
  moreover have "param_view_ok ?h' f n (AView (cs @ [length (rd_heap rd)]))"
    using a by (auto simp: form_control_def nth_append is_group_def)
  moreover have "\<not> is_group (rd_heap rd) a" using a(2) by (simp add: is_group_def)
  ultimately have "rd_inv \<lparr>rd_heap = ?h', rd_views = (rd_views rd)((f, n) \<mapsto> AView (cs @ [length (rd_heap rd)]))\<rparr>"
    using replace_inv [OF inv w a(1)] by blast
  then show ?thesis using r w a(1,2) by (simp add: on_array_def addParameter_def)
qed (use assms in \<open>auto simp: on_array_def split: option.splits param_view.splits\<close>)

lemma remove_inv:
  assumes inv: "rd_inv rd" and r: "on_array f n (removeParameter f n child) rd = Some rd'"
  shows "rd_inv rd'"
proof (cases "\<exists>cs. rd_views rd (f, n) = Some (AView cs)")
  case True
  then obtain cs where w: "rd_views rd (f, n) = Some (AView cs)" by blast
  from array_view [OF inv w] obtain a where a: "form_control (rd_heap rd) f n = Some a" "rd_heap rd ! a = Arr cs" "a < length (rd_heap rd)"
    "distinct cs" "is_group (rd_heap rd) f" "f \<noteq> a" .
  define cs' where "cs' = js_splice (js_findIndex (\<lambda>b. b = child) cs) 1 cs"
  let ?h' = "(rd_heap rd)[a := Arr cs'] @ []"
  have "distinct cs'" "set cs' \<subseteq> set cs"
    using distinct_map_js_splice [of id cs] a(4) set_js_splice_subset [of _ _ cs] by (auto simp: cs'_def)
  then have "forms_ok ?h'" using inv a forms_ok_update [of "rd_heap rd" a "Arr cs'"] by (simp add: rd_inv_def)
  moreover have "param_view_ok ?h' f n (AView cs')" using a by (auto simp: form_control_def)
  moreover have "\<not> is_group (rd_heap rd) a" using a(2) by (simp add: is_group_def)
  ultimately have "rd_inv \<lparr>rd_heap = ?h', rd_views = (rd_views rd)((f, n) \<mapsto> AView cs')\<rparr>"
    using replace_inv [OF inv w a(1)] by blast
  then show ?thesis using r w a(1,2) by (simp add: on_array_def removeParameter_def cs'_def)
qed (use assms in \<open>auto simp: on_array_def split: option.splits param_view.splits\<close>)

lemma type_inv:
  assumes inv: "rd_inv rd" and r: "type_text f n v rd = Some rd'"
  shows "rd_inv rd'"
proof (cases "\<exists>c x. rd_views rd (f, n) = Some (SView c) \<and> rd_heap rd ! c = Control x")
  case True
  then obtain c x where w: "rd_views rd (f, n) = Some (SView c)" "rd_heap rd ! c = Control x" by blast
  have g: "forms_ok (rd_heap rd)" "is_group (rd_heap rd) f" "form_control (rd_heap rd) f n = Some c"
    using inv w(1) param_view_ok.simps(2) unfolding rd_inv_def by blast+
  have c: "f < c" "c < length (rd_heap rd)" using form_control_bound [OF g] by auto
  have "forms_ok ((rd_heap rd)[c := Control v] @ [])" using forms_ok_update [OF g(1) c(2), of "Control v"] by simp
  moreover have "param_view_ok ((rd_heap rd)[c := Control v] @ []) f n (SView c)" using g(3) c by (simp add: form_control_def)
  moreover have "\<not> is_group (rd_heap rd) c" using w(2) by (simp add: is_group_def)
  ultimately have "rd_inv \<lparr>rd_heap = (rd_heap rd)[c := Control v], rd_views = (rd_views rd)((f, n) \<mapsto> SView c)\<rparr>"
    using replace_inv [OF inv w(1) g(3), of "Control v" "[]" "SView c"] by simp
  moreover have "(rd_views rd)((f, n) \<mapsto> SView c) = rd_views rd" using w(1) by auto
  ultimately show ?thesis using r w by (cases rd) (simp add: type_text_def)
qed (use assms in \<open>auto simp: type_text_def split: option.splits param_view.splits control.splits\<close>)

lemma reachable_inv: "rd_reachable rd \<Longrightarrow> rd_inv rd"
proof (induction rule: rd_reachable.induct)
  case opened
  show ?case by (simp add: rd_inv_def new_rendering_def forms_ok_def is_group_def)
next
  case (moved rd rd')
  from moved.hyps(2) moved.IH show ?case
    by (cases rule: rd_step.cases) (auto intro: render_inv add_inv remove_inv type_inv)
qed


lemma group_value:
  assumes "forms_ok h" and "is_group h f" and "form_control h f n = Some a"
  shows "\<exists>kvs v. form_value (length h) h f = Some (JObj kvs) \<and> form_value (length h) h a = Some v \<and> obj_lookup kvs n = v"
proof -
  obtain gs where g: "h ! f = Group gs" using assms(2) by (auto simp: is_group_def split: control.splits)
  obtain m where m: "length h = Suc m" using assms(2) by (cases h) (auto simp: is_group_def)
  have "\<exists>v. form_value (length h) h f = Some v" using value_total [OF assms(1)] assms(2) by (simp add: is_group_def)
  then obtain vs where vs: "those (map (form_value m h) (map snd gs)) = Some vs" "form_value (length h) h f = Some (JObj (zip (map fst gs) vs))"
    using g m by (auto simp del: map_map)
  have "map_of gs n = Some a" using assms(3) g by (simp add: form_control_def)
  then have "form_value m h a = Some (obj_lookup (zip (map fst gs) vs) n)"
    using vs(1) by (induction gs arbitrary: vs) (auto split: option.splits if_splits)
  then show ?thesis using vs(2) value_mono [of m h a _ "length h"] m by auto
qed

text \<open>
  C37. However the form of a function's configuration is filled (parameters rendered and rendered
  again, entries added to and removed from arrays at any depth, text typed), the value of the form
  can be computed, and each array that is shown is the one that is stored: the array under its name
  has exactly one entry for each card that is shown, in the same order, with the value of that
  card's form. Rendering the parameter again shows the same cards.
\<close>

theorem shown_parameters_are_stored:
  assumes "rd_reachable rd" and "rd_views rd (f, n) = Some (AView cs)"
  shows "\<exists>kvs vs conf. form_value (length (rd_heap rd)) (rd_heap rd) 0 = Some conf \<and>
    form_value (length (rd_heap rd)) (rd_heap rd) f = Some (JObj kvs) \<and> obj_lookup kvs n = JArr vs \<and> distinct cs \<and>
    map Some vs = map (form_value (length (rd_heap rd)) (rd_heap rd)) cs \<and>
    render f \<lparr>ro_type = ''array'', ro_name = n, ro_parameters = ps\<rparr> rd = Some rd"
proof -
  let ?h = "rd_heap rd"
  have inv: "rd_inv rd" using reachable_inv [OF assms(1)] .
  then have ok: "forms_ok ?h" "is_group ?h 0" by (simp_all add: rd_inv_def)
  from array_view [OF inv assms(2)] obtain a where a: "form_control ?h f n = Some a" "?h ! a = Arr cs" "a < length ?h"
    "distinct cs" "is_group ?h f" "f \<noteq> a" .
  obtain kvs v where v: "form_value (length ?h) ?h f = Some (JObj kvs)" "form_value (length ?h) ?h a = Some v" "obj_lookup kvs n = v"
    using group_value [OF ok(1) a(5,1)] by blast
  obtain m where m: "length ?h = Suc m" using a(3) by (cases "length ?h") auto
  obtain vs where vs: "v = JArr vs" "those (map (form_value m ?h) cs) = Some vs" using v(2) a(2) m by auto
  have "map Some vs = map (form_value (length ?h) ?h) cs"
    using vs(2) value_mono [of m ?h _ _ "length ?h"] m by (induction cs arbitrary: vs) (auto split: option.splits)
  moreover have "\<exists>conf. form_value (length ?h) ?h 0 = Some conf" using value_total [OF ok(1)] ok(2) by (simp add: is_group_def)
  moreover have "(rd_views rd)((f, n) \<mapsto> AView cs) = rd_views rd" using assms(2) by auto
  ultimately show ?thesis using v(1,3) vs(1) a by (cases rd) (auto simp: render_def array_setForm_def)
qed

definition example_rendering :: rendering where
  "example_rendering = the (do {
     r1 \<leftarrow> render 0 \<lparr>ro_type = ''array'', ro_name = ''rules'', ro_parameters = Undef\<rparr> new_rendering;
     r2 \<leftarrow> on_array 0 ''rules'' (addParameter 0 ''rules'') r1;
     on_array 0 ''rules'' (addParameter 0 ''rules'') r2
   })"

lemma example_rendering_shape:
  "example_rendering = \<lparr>rd_heap = [Group [(''rules'', 1)], Arr [2, 3], Group [], Group []], rd_views = [(0, ''rules'') \<mapsto> AView [2, 3]]\<rparr>"
  by (simp add: example_rendering_def render_def array_setForm_def new_rendering_def form_control_def addControl_def on_array_def addParameter_def numeral_eq_Suc)

lemma example_rendering_reachable: "rd_reachable example_rendering"
proof -
  define r1 where "r1 = \<lparr>rd_heap = [Group [(''rules'', 1)], Arr []], rd_views = [(0, ''rules'') \<mapsto> AView []]\<rparr>"
  define r2 where "r2 = \<lparr>rd_heap = [Group [(''rules'', 1)], Arr [2], Group []], rd_views = [(0, ''rules'') \<mapsto> AView [2]]\<rparr>"
  have 1: "render 0 \<lparr>ro_type = ''array'', ro_name = ''rules'', ro_parameters = Undef\<rparr> new_rendering = Some r1"
    by (simp add: r1_def render_def array_setForm_def new_rendering_def form_control_def addControl_def)
  have 2: "on_array 0 ''rules'' (addParameter 0 ''rules'') r1 = Some r2"
    by (simp add: r1_def r2_def on_array_def addParameter_def form_control_def numeral_eq_Suc)
  have 3: "on_array 0 ''rules'' (addParameter 0 ''rules'') r2 = Some example_rendering"
    by (simp add: example_rendering_shape r2_def on_array_def addParameter_def form_control_def numeral_eq_Suc)
  have "rd_step new_rendering r1" by (rule rd_step.rendered [OF _ 1]) (simp add: new_rendering_def is_group_def)
  then have "rd_reachable r1" by (rule rd_reachable.moved [OF rd_reachable.opened])
  then have "rd_reachable r2" by (rule rd_reachable.moved [OF _ rd_step.added [OF 2]])
  then show ?thesis by (rule rd_reachable.moved [OF _ rd_step.added [OF 3]])
qed

theorem shown_parameters_are_stored_witness:
  "\<exists>kvs vs. form_value 4 (rd_heap example_rendering) 0 = Some (JObj kvs) \<and> obj_lookup kvs ''rules'' = JArr vs \<and>
     map Some vs = map (form_value 4 (rd_heap example_rendering)) [2, 3]"
proof -
  have "rd_views example_rendering (0, ''rules'') = Some (AView [2, 3])" "length (rd_heap example_rendering) = 4"
    by (simp_all add: example_rendering_shape)
  with shown_parameters_are_stored [OF example_rendering_reachable, of 0 "''rules''" "[2, 3]" Undef] show ?thesis by auto
qed

end
