(* ===== verification/Site_Routes.thy ===== *)
theory Site_Routes
  imports Site_Pages Message_Dialog Function_Forms
begin

text \<open>
  The routes of the site (app/app.routes.ts and the routes of its modules), the links of its templates,
  and what the pages of a record ask for when a link is followed. The router itself is not part of the site:
  it is the argument \<open>router\<close>, of which only the documented behaviour is assumed (\<open>router_laws\<close>). A url matches a
  list of routes if it consists of the segments of one of them, followed by a match of its
  children; a parameter (\<open>:name\<close>) matches any segment; a route without children has to consume the
  whole url; a redirection replaces the empty rest of a url by a sibling's path. The router chooses
  one of the matches.
\<close>

section \<open>Urls\<close>

text \<open>\<open>split('/')\<close>, and the segments of a link, of which the router ignores the empty ones\<close>

fun split_slash :: "string \<Rightarrow> string list" where
  "split_slash [] = [[]]"
| "split_slash (c # cs) =
     (if c = CHR ''/'' then [] # split_slash cs
      else case split_slash cs of [] \<Rightarrow> [[c]] | x # xs \<Rightarrow> (c # x) # xs)"

definition segments :: "string \<Rightarrow> string list" where
  "segments s = filter (\<lambda>x. x \<noteq> []) (split_slash s)"

definition plain :: "string \<Rightarrow> bool" where
  "plain s \<longleftrightarrow> s \<noteq> [] \<and> CHR ''/'' \<notin> set s \<and> s \<noteq> ''..''"

lemma split_slash_not_Nil [simp]: "split_slash s \<noteq> []"
  by (induction s) (auto split: list.split)

lemma split_slash_append: "split_slash (a @ CHR ''/'' # b) = split_slash a @ split_slash b"
  by (induction a) (auto simp: neq_Nil_conv split: list.split)

lemma split_slash_plain: "CHR ''/'' \<notin> set s \<Longrightarrow> split_slash s = [s]"
  by (induction s) auto

lemma segments_slash [simp]: "segments (CHR ''/'' # b) = segments b"
  by (simp add: segments_def)

lemma segments_append: "segments (a @ CHR ''/'' # b) = segments a @ segments b"
  by (simp add: segments_def split_slash_append)

lemma segments_plain [simp]: "plain s \<Longrightarrow> segments s = [s]"
  by (simp add: segments_def plain_def split_slash_plain)

section \<open>Routes\<close>

datatype record_page =
    ViewFunctionComponent | InfoFunctionComponent | InvokeFunctionComponent | MonitoringFunctionComponent
  | EditStateMachineComponent | ViewStateMachineInstanceComponent
  | ViewVpnComponent | InfoVpnComponent | ClientsVpnComponent | AppDomainsVpnComponent
  | ViewVpnClientComponent | ViewVpnClientSessionsComponent
  | ViewVpnAppDomainComponent | AppDomainMessagesEditorComponent | EditorDomainComponent

datatype page =
    ServerStatusComponent | ListFunctionsComponent | ListStateMachinesComponent | ListStateMachineInstanceComponent
  | ListVpnComponent | EventMeshLoggingComponent | StateMachineLoggingComponent
  | RecordPage record_page

text \<open>
  A route with its path, component and children; the routes of a module that is loaded on demand are the
  children of a route without a component. All redirections have the empty path and \<open>pathMatch: 'full'\<close>.
\<close>

datatype route = Redirect string | Route string "page option" "route list"

definition functions_routes :: "route list" where
  "functions_routes =
     [Route '''' (Some ListFunctionsComponent) [],
      Route '':name'' (Some (RecordPage ViewFunctionComponent))
        [Redirect ''info'',
         Route ''info'' (Some (RecordPage InfoFunctionComponent)) [],
         Route ''invoke'' (Some (RecordPage InvokeFunctionComponent)) [],
         Route ''monitoring'' (Some (RecordPage MonitoringFunctionComponent)) []]]"

definition stateMachines_routes :: "route list" where
  "stateMachines_routes =
     [Route '':id/:action'' (Some (RecordPage EditStateMachineComponent)) [],
      Route '''' (Some ListStateMachinesComponent) []]"

definition stateMachineInstances_routes :: "route list" where
  "stateMachineInstances_routes =
     [Route '''' (Some ListStateMachineInstanceComponent) [],
      Route '':id/:instid'' (Some (RecordPage ViewStateMachineInstanceComponent)) []]"

definition vpns_routes :: "route list" where
  "vpns_routes =
     [Route '''' (Some ListVpnComponent) [],
      Route '':vpnName/clients/:clientId'' (Some (RecordPage ViewVpnClientComponent))
        [Redirect ''sessions'',
         Route ''sessions'' (Some (RecordPage ViewVpnClientSessionsComponent)) []],
      Route '':vpnName/appdomains/:appDomainId'' (Some (RecordPage ViewVpnAppDomainComponent))
        [Redirect ''messages'',
         Route ''messages'' (Some (RecordPage AppDomainMessagesEditorComponent)) [],
         Route ''editor'' (Some (RecordPage EditorDomainComponent)) []],
      Route '':name'' (Some (RecordPage ViewVpnComponent))
        [Redirect ''info'',
         Route ''info'' (Some (RecordPage InfoVpnComponent)) [],
         Route ''clients'' (Some (RecordPage ClientsVpnComponent)) [],
         Route ''appdomains'' (Some (RecordPage AppDomainsVpnComponent)) []]]"

definition eventMeshLogging_routes :: "route list" where
  "eventMeshLogging_routes = [Route '''' (Some EventMeshLoggingComponent) []]"

definition stateMachineLogging_routes :: "route list" where
  "stateMachineLogging_routes = [Route '''' (Some StateMachineLoggingComponent) []]"

definition app_routes :: "route list" where
  "app_routes =
     [Redirect ''functions'',
      Route ''status'' (Some ServerStatusComponent) [],
      Route ''functions'' None functions_routes,
      Route ''statemachines'' None stateMachines_routes,
      Route ''statemachineinstances'' None stateMachineInstances_routes,
      Route ''vpns'' None vpns_routes,
      Route ''logging/eventmesh'' None eventMeshLogging_routes,
      Route ''logging/statemachine'' None stateMachineLogging_routes]"

section \<open>What the documentation says of the router\<close>

type_synonym params = "(string \<times> string) list"

text \<open>The activated components, from the outside to the inside, each with the parameters of its own route\<close>

type_synonym branch = "(page \<times> params) list"

fun match_path :: "string list \<Rightarrow> string list \<Rightarrow> (params \<times> string list) option" where
  "match_path [] ss = Some ([], ss)"
| "match_path (p # ps) [] = None"
| "match_path (p # ps) (s # ss) =
     (if take 1 p = '':'' then map_option (\<lambda>(xs, rest). ((drop 1 p, s) # xs, rest)) (match_path ps ss)
      else if p = s then match_path ps ss else None)"

fun redirections :: "route list \<Rightarrow> string list list" where
  "redirections [] = []"
| "redirections (Redirect t # rs) = segments t # redirections rs"
| "redirections (Route p c ch # rs) = redirections rs"

definition rewritten :: "route list \<Rightarrow> string list \<Rightarrow> string list list" where
  "rewritten rs ss = ss # (if ss = [] then redirections rs else [])"

fun match_routes :: "route list \<Rightarrow> string list \<Rightarrow> branch list" where
  "match_routes [] ss = []"
| "match_routes (Redirect t # rs) ss = match_routes rs ss"
| "match_routes (Route p c ch # rs) ss =
     (case match_path (segments p) ss of
        None \<Rightarrow> []
      | Some (ps, rest) \<Rightarrow>
          (let here = (case c of None \<Rightarrow> [] | Some x \<Rightarrow> [(x, ps)])
           in if ch = [] then (if rest = [] then [here] else [])
              else map (\<lambda>b. here @ b) (concat (map (match_routes ch) (rewritten ch rest)))))
     @ match_routes rs ss"

definition matches :: "route list \<Rightarrow> string list \<Rightarrow> branch list" where
  "matches rs ss = concat (map (match_routes rs) (rewritten rs ss))"

definition router_laws :: "(route list \<Rightarrow> string list \<Rightarrow> branch option) \<Rightarrow> bool" where
  "router_laws router \<longleftrightarrow> (\<forall>rs ss. case router rs ss of None \<Rightarrow> matches rs ss = [] | Some b \<Rightarrow> b \<in> set (matches rs ss))"

lemma router_none: "router_laws router \<Longrightarrow> matches rs ss = [] \<Longrightarrow> router rs ss = None"
  unfolding router_laws_def by (drule spec [of _ rs], drule spec [of _ ss]) (auto split: option.splits)

lemma router_unique: "router_laws router \<Longrightarrow> matches rs ss = [b] \<Longrightarrow> router rs ss = Some b"
  unfolding router_laws_def by (drule spec [of _ rs], drule spec [of _ ss]) (auto split: option.splits)

section \<open>Links\<close>

text \<open>The urls of the links, by the template that has them\<close>

definition menu_urls :: "string list" where
  "menu_urls = [''/status'', ''/functions'', ''/statemachineinstances'', ''/statemachines'', ''/vpns'', ''/logging/eventmesh'', ''/logging/statemachine'']"

definition vpn_url :: "string \<Rightarrow> string" where
  "vpn_url name = ''/vpns/'' @ name"

definition vpn_tab_url :: "string \<Rightarrow> string \<Rightarrow> string" where
  "vpn_tab_url name tab = ''/vpns/'' @ name @ ''/'' @ tab"

definition client_url :: "string \<Rightarrow> string \<Rightarrow> string" where
  "client_url name i = ''/vpns/'' @ name @ ''/clients/'' @ i"

definition client_tab_url :: "string \<Rightarrow> string \<Rightarrow> string" where
  "client_tab_url vpnName clientId = ''/vpns/'' @ vpnName @ ''/clients/'' @ clientId @ ''/sessions''"

definition domain_url :: "string \<Rightarrow> string \<Rightarrow> string" where
  "domain_url name i = ''/vpns/'' @ name @ ''/appdomains/'' @ i"

definition domain_tab_url :: "string \<Rightarrow> string \<Rightarrow> string \<Rightarrow> string" where
  "domain_tab_url vpnName appDomainId tab = ''/vpns/'' @ vpnName @ ''/appdomains/'' @ appDomainId @ ''/'' @ tab"

definition function_url :: "string \<Rightarrow> string" where
  "function_url i = ''/functions/'' @ i"

definition function_tab_url :: "string \<Rightarrow> string \<Rightarrow> string" where
  "function_tab_url i tab = ''/functions/'' @ i @ ''/'' @ tab"

definition workflow_url :: "string \<Rightarrow> string" where
  "workflow_url technicalId = ''/statemachines/'' @ technicalId @ ''/workflow''"

definition workflow_tab_url :: "string \<Rightarrow> string \<Rightarrow> string" where
  "workflow_tab_url i tab = ''/statemachines/'' @ i @ ''/'' @ tab"

definition instance_url :: "string \<Rightarrow> string \<Rightarrow> string" where
  "instance_url workflowDefTechnicalId i = ''/statemachineinstances/'' @ workflowDefTechnicalId @ ''/'' @ i"

datatype vpn_tab = VpnInfo | VpnClients | VpnAppDomains
datatype domain_tab = DomainMessages | DomainEditor
datatype function_tab = FunctionInfo | FunctionInvoke | FunctionMonitoring

datatype site_link =
    MenuLink nat
  | VpnLink string
  | VpnTab string vpn_tab
  | ClientLink string string
  | ClientSessionsTab string string
  | DomainLink string string
  | DomainTab string string domain_tab
  | FunctionLink string
  | FunctionTab string function_tab
  | WorkflowLink string
  | WorkflowTab string string
  | InstanceLink string string

fun link_url :: "site_link \<Rightarrow> string" where
  "link_url (MenuLink k) = menu_urls ! k"
| "link_url (VpnLink n) = vpn_url n"
| "link_url (VpnTab n t) = vpn_tab_url n (case t of VpnInfo \<Rightarrow> ''info'' | VpnClients \<Rightarrow> ''clients'' | VpnAppDomains \<Rightarrow> ''appdomains'')"
| "link_url (ClientLink n i) = client_url n i"
| "link_url (ClientSessionsTab n i) = client_tab_url n i"
| "link_url (DomainLink n i) = domain_url n i"
| "link_url (DomainTab n i t) = domain_tab_url n i (case t of DomainMessages \<Rightarrow> ''messages'' | DomainEditor \<Rightarrow> ''editor'')"
| "link_url (FunctionLink i) = function_url i"
| "link_url (FunctionTab i t) =
     function_tab_url i (case t of FunctionInfo \<Rightarrow> ''info'' | FunctionInvoke \<Rightarrow> ''invoke'' | FunctionMonitoring \<Rightarrow> ''monitoring'')"
| "link_url (WorkflowLink i) = workflow_url i"
| "link_url (WorkflowTab i t) = workflow_tab_url i t"
| "link_url (InstanceLink w i) = instance_url w i"

text \<open>The names and identifiers in a link are single segments.\<close>

fun link_ok :: "site_link \<Rightarrow> bool" where
  "link_ok (MenuLink k) = (k < length menu_urls)"
| "link_ok (VpnLink n) = plain n"
| "link_ok (VpnTab n t) = plain n"
| "link_ok (ClientLink n i) = (plain n \<and> plain i)"
| "link_ok (ClientSessionsTab n i) = (plain n \<and> plain i)"
| "link_ok (DomainLink n i) = (plain n \<and> plain i)"
| "link_ok (DomainTab n i t) = (plain n \<and> plain i)"
| "link_ok (FunctionLink i) = plain i"
| "link_ok (FunctionTab i t) = plain i"
| "link_ok (WorkflowLink i) = plain i"
| "link_ok (WorkflowTab i t) = (plain i \<and> plain t)"
| "link_ok (InstanceLink w i) = (plain w \<and> plain i)"

section \<open>The pages of a record\<close>

definition route_param :: "params \<Rightarrow> string \<Rightarrow> js" where
  "route_param ps k = (case map_of ps k of None \<Rightarrow> Undef | Some v \<Rightarrow> JStr v)"

text \<open>The page of the messages of a domain hands the identifier of the route to the list of messages.\<close>

definition messages_editor_open :: "(js \<Rightarrow> string) \<Rightarrow> params \<Rightarrow> action list" where
  "messages_editor_open show par =
     (case snd (mp_set_appDomainId show (route_param par ''appDomainId'') new_MessagesVpn) of None \<Rightarrow> [] | Some a \<Rightarrow> [a])"

text \<open>
  The actions that the page of a record dispatches when it is opened (\<open>ngOnInit\<close>), given the parameters of the
  enclosing route and of its own; the values that selectors emit at once come from the store \<open>s\<close>.
\<close>

fun record_actions :: "(js \<Rightarrow> string) \<Rightarrow> app_state \<Rightarrow> params \<Rightarrow> params \<Rightarrow> record_page \<Rightarrow> action list res" where
  "record_actions show s par own ViewFunctionComponent = Some [function_view_refresh show (route_param own ''name'')]"
| "record_actions show s par own InfoFunctionComponent = Some []"
| "record_actions show s par own InvokeFunctionComponent = Some [invoke_refresh (js_string show (route_param par ''name''))]"
| "record_actions show s par own MonitoringFunctionComponent = Some []"
| "record_actions show s par own EditStateMachineComponent = Some [load_action show (route_param own ''id'')]"
| "record_actions show s par own ViewStateMachineInstanceComponent =
     map_option snd (instance_view_open show (route_param own ''id'') (route_param own ''instid'') s)"
| "record_actions show s par own ViewVpnComponent = Some (vpn_view_refresh show (route_param own ''name''))"
| "record_actions show s par own InfoVpnComponent = Some []"
| "record_actions show s par own ClientsVpnComponent = Some (snd (clients_open show (route_param par ''name'') s))"
| "record_actions show s par own AppDomainsVpnComponent = Some (snd (domains_open show (route_param par ''name'') s))"
| "record_actions show s par own ViewVpnClientComponent = Some (client_view_refresh show (route_param own ''clientId''))"
| "record_actions show s par own ViewVpnClientSessionsComponent = Some []"
| "record_actions show s par own ViewVpnAppDomainComponent = Some (domain_view_refresh show (route_param own ''appDomainId''))"
| "record_actions show s par own AppDomainMessagesEditorComponent = Some (messages_editor_open show par)"
| "record_actions show s par own EditorDomainComponent =
     map_option snd (editor_domain_open show (route_param par ''vpnName'') (route_param par ''appDomainId'') s)"

fun opened_records :: "(js \<Rightarrow> string) \<Rightarrow> app_state \<Rightarrow> params \<Rightarrow> branch \<Rightarrow> action list res" where
  "opened_records show s par [] = Some []"
| "opened_records show s par ((RecordPage c, own) # b) = do {
     as \<leftarrow> record_actions show s par own c;
     bs \<leftarrow> opened_records show s own b;
     Some (as @ bs)
   }"
| "opened_records show s par ((c, own) # b) = opened_records show s own b"

definition requests_of :: "(js \<Rightarrow> string) \<Rightarrow> string \<Rightarrow> action list \<Rightarrow> request list" where
  "requests_of yaml api as = concat (map (\<lambda>a. case app_effect yaml api a of None \<Rightarrow> [] | Some (rq, _) \<Rightarrow> [rq]) as)"

section \<open>Every link opens its page and asks for its record\<close>

text \<open>What a link is meant to open, and what is to be requested for it\<close>

fun link_target :: "site_link \<Rightarrow> branch" where
  "link_target (MenuLink k) =
     [([ServerStatusComponent, ListFunctionsComponent, ListStateMachineInstanceComponent, ListStateMachinesComponent, ListVpnComponent,
        EventMeshLoggingComponent, StateMachineLoggingComponent] ! k, [])]"
| "link_target (VpnLink n) = [(RecordPage ViewVpnComponent, [(''name'', n)]), (RecordPage InfoVpnComponent, [])]"
| "link_target (VpnTab n t) = [(RecordPage ViewVpnComponent, [(''name'', n)]),
     (RecordPage (case t of VpnInfo \<Rightarrow> InfoVpnComponent | VpnClients \<Rightarrow> ClientsVpnComponent | VpnAppDomains \<Rightarrow> AppDomainsVpnComponent), [])]"
| "link_target (ClientLink n i) =
     [(RecordPage ViewVpnClientComponent, [(''vpnName'', n), (''clientId'', i)]), (RecordPage ViewVpnClientSessionsComponent, [])]"
| "link_target (ClientSessionsTab n i) =
     [(RecordPage ViewVpnClientComponent, [(''vpnName'', n), (''clientId'', i)]), (RecordPage ViewVpnClientSessionsComponent, [])]"
| "link_target (DomainLink n i) =
     [(RecordPage ViewVpnAppDomainComponent, [(''vpnName'', n), (''appDomainId'', i)]), (RecordPage AppDomainMessagesEditorComponent, [])]"
| "link_target (DomainTab n i t) = [(RecordPage ViewVpnAppDomainComponent, [(''vpnName'', n), (''appDomainId'', i)]),
     (RecordPage (case t of DomainMessages \<Rightarrow> AppDomainMessagesEditorComponent | DomainEditor \<Rightarrow> EditorDomainComponent), [])]"
| "link_target (FunctionLink i) = [(RecordPage ViewFunctionComponent, [(''name'', i)]), (RecordPage InfoFunctionComponent, [])]"
| "link_target (FunctionTab i t) = [(RecordPage ViewFunctionComponent, [(''name'', i)]),
     (RecordPage (case t of FunctionInfo \<Rightarrow> InfoFunctionComponent | FunctionInvoke \<Rightarrow> InvokeFunctionComponent
                  | FunctionMonitoring \<Rightarrow> MonitoringFunctionComponent), [])]"
| "link_target (WorkflowLink i) = [(RecordPage EditStateMachineComponent, [(''id'', i), (''action'', ''workflow'')])]"
| "link_target (WorkflowTab i t) = [(RecordPage EditStateMachineComponent, [(''id'', i), (''action'', t)])]"
| "link_target (InstanceLink w i) = [(RecordPage ViewStateMachineInstanceComponent, [(''id'', w), (''instid'', i)])]"

fun link_requests :: "string \<Rightarrow> site_link \<Rightarrow> request list" where
  "link_requests api (MenuLink k) = []"
| "link_requests api (VpnLink n) = [rq_getVpn api n]"
| "link_requests api (VpnTab n t) = rq_getVpn api n #
     (case t of VpnInfo \<Rightarrow> [] | VpnClients \<Rightarrow> [rq_getAllClients api n] | VpnAppDomains \<Rightarrow> [rq_getAppDomains api n])"
| "link_requests api (ClientLink n i) = [rq_getClient api i]"
| "link_requests api (ClientSessionsTab n i) = [rq_getClient api i]"
| "link_requests api (DomainLink n i) = [rq_getAppDomain api i, rq_getLatestMessagesDef api i]"
| "link_requests api (DomainTab n i t) = [rq_getAppDomain api i, rq_getLatestMessagesDef api i]"
| "link_requests api (FunctionLink i) = [rq_getFunction api i]"
| "link_requests api (FunctionTab i t) = rq_getFunction api i # (if t = FunctionInvoke then [rq_getConfiguration api i] else [])"
| "link_requests api (WorkflowLink i) = [rq_getJson api i]"
| "link_requests api (WorkflowTab i t) = [rq_getJson api i]"
| "link_requests api (InstanceLink w i) = [rq_getJson api w, rq_getInstance api i]"

lemmas routes_defs = app_routes_def functions_routes_def stateMachines_routes_def stateMachineInstances_routes_def vpns_routes_def
  eventMeshLogging_routes_def stateMachineLogging_routes_def

lemma segments_prefix:
  "segments (''/vpns/'' @ x) = ''vpns'' # segments x" "segments (''/functions/'' @ x) = ''functions'' # segments x"
  "segments (''/statemachines/'' @ x) = ''statemachines'' # segments x"
  "segments (''/statemachineinstances/'' @ x) = ''statemachineinstances'' # segments x"
  "segments (''clients/'' @ x) = ''clients'' # segments x" "segments (''appdomains/'' @ x) = ''appdomains'' # segments x"
  using segments_append [of "''/vpns''" x] segments_append [of "''/functions''" x] segments_append [of "''/statemachines''" x]
    segments_append [of "''/statemachineinstances''" x] segments_append [of "''clients''" x] segments_append [of "''appdomains''" x]
  by (simp_all add: segments_def)

lemma segments_inner: "segments (x @ ''/'' @ y) = segments x @ segments y"
  "segments (x @ ''/clients/'' @ y) = segments x @ ''clients'' # segments y"
  "segments (x @ ''/appdomains/'' @ y) = segments x @ ''appdomains'' # segments y"
  "segments (x @ ''/sessions'') = segments x @ [''sessions'']" "segments (x @ ''/workflow'') = segments x @ [''workflow'']"
  using segments_append [of x y] segments_append [of x "''clients/'' @ y"] segments_append [of x "''appdomains/'' @ y"]
    segments_append [of x "''sessions''"] segments_append [of x "''workflow''"] segments_prefix(5,6) [of y]
  by (simp_all add: segments_def)

lemma routes_nonempty [simp]: "vpns_routes \<noteq> []" "functions_routes \<noteq> []" "stateMachines_routes \<noteq> []" "stateMachineInstances_routes \<noteq> []"
  "eventMeshLogging_routes \<noteq> []" "stateMachineLogging_routes \<noteq> []"
  by (simp_all add: routes_defs)

lemma map_append_Nil [simp]: "map ((@) []) xs = xs"
  by (rule map_idI) simp

lemma matches_paths:
  "matches app_routes (''vpns'' # ss) = matches vpns_routes ss"
  "matches app_routes (''functions'' # ss) = matches functions_routes ss"
  "matches app_routes (''statemachines'' # ss) = matches stateMachines_routes ss"
  "matches app_routes (''statemachineinstances'' # ss) = matches stateMachineInstances_routes ss"
  by (simp_all add: matches_def app_routes_def rewritten_def segments_def)

lemma matches_menu:
  "matches app_routes [''status''] = [[(ServerStatusComponent, [])]]"
  "matches app_routes [''logging'', ''eventmesh''] = [[(EventMeshLoggingComponent, [])]]"
  "matches app_routes [''logging'', ''statemachine''] = [[(StateMachineLoggingComponent, [])]]"
  "matches functions_routes [] = [[(ListFunctionsComponent, [])]]"
  "matches stateMachines_routes [] = [[(ListStateMachinesComponent, [])]]"
  "matches stateMachineInstances_routes [] = [[(ListStateMachineInstanceComponent, [])]]"
  "matches vpns_routes [] = [[(ListVpnComponent, [])]]"
  by (simp_all add: matches_def routes_defs rewritten_def segments_def)

lemma matches_records:
  "matches functions_routes [i] = [[(RecordPage ViewFunctionComponent, [(''name'', i)]), (RecordPage InfoFunctionComponent, [])]]"
  "matches functions_routes [i, ''info''] = [[(RecordPage ViewFunctionComponent, [(''name'', i)]), (RecordPage InfoFunctionComponent, [])]]"
  "matches functions_routes [i, ''invoke''] = [[(RecordPage ViewFunctionComponent, [(''name'', i)]), (RecordPage InvokeFunctionComponent, [])]]"
  "matches functions_routes [i, ''monitoring''] = [[(RecordPage ViewFunctionComponent, [(''name'', i)]), (RecordPage MonitoringFunctionComponent, [])]]"
  "matches stateMachines_routes [i, t] = [[(RecordPage EditStateMachineComponent, [(''id'', i), (''action'', t)])]]"
  "matches stateMachineInstances_routes [w, i] = [[(RecordPage ViewStateMachineInstanceComponent, [(''id'', w), (''instid'', i)])]]"
  by (simp_all add: matches_def functions_routes_def stateMachines_routes_def stateMachineInstances_routes_def rewritten_def segments_def)

lemma matches_vpns:
  "matches vpns_routes [n] = [[(RecordPage ViewVpnComponent, [(''name'', n)]), (RecordPage InfoVpnComponent, [])]]"
  "matches vpns_routes [n, ''info''] = [[(RecordPage ViewVpnComponent, [(''name'', n)]), (RecordPage InfoVpnComponent, [])]]"
  "matches vpns_routes [n, ''clients''] = [[(RecordPage ViewVpnComponent, [(''name'', n)]), (RecordPage ClientsVpnComponent, [])]]"
  "matches vpns_routes [n, ''appdomains''] = [[(RecordPage ViewVpnComponent, [(''name'', n)]), (RecordPage AppDomainsVpnComponent, [])]]"
  "matches vpns_routes [n, ''clients'', i] =
     [[(RecordPage ViewVpnClientComponent, [(''vpnName'', n), (''clientId'', i)]), (RecordPage ViewVpnClientSessionsComponent, [])]]"
  "matches vpns_routes [n, ''clients'', i, ''sessions''] =
     [[(RecordPage ViewVpnClientComponent, [(''vpnName'', n), (''clientId'', i)]), (RecordPage ViewVpnClientSessionsComponent, [])]]"
  "matches vpns_routes [n, ''appdomains'', i] =
     [[(RecordPage ViewVpnAppDomainComponent, [(''vpnName'', n), (''appDomainId'', i)]), (RecordPage AppDomainMessagesEditorComponent, [])]]"
  "matches vpns_routes [n, ''appdomains'', i, ''messages''] =
     [[(RecordPage ViewVpnAppDomainComponent, [(''vpnName'', n), (''appDomainId'', i)]), (RecordPage AppDomainMessagesEditorComponent, [])]]"
  "matches vpns_routes [n, ''appdomains'', i, ''editor''] =
     [[(RecordPage ViewVpnAppDomainComponent, [(''vpnName'', n), (''appDomainId'', i)]), (RecordPage EditorDomainComponent, [])]]"
  by (simp_all add: matches_def vpns_routes_def rewritten_def segments_def)

lemma url_segments:
  "segments (vpn_url n) = ''vpns'' # segments n" "segments (vpn_tab_url n t) = ''vpns'' # segments n @ segments t"
  "segments (client_url n i) = ''vpns'' # segments n @ ''clients'' # segments i"
  "segments (client_tab_url n i) = ''vpns'' # segments n @ ''clients'' # segments i @ [''sessions'']"
  "segments (domain_url n i) = ''vpns'' # segments n @ ''appdomains'' # segments i"
  "segments (domain_tab_url n i t) = ''vpns'' # segments n @ ''appdomains'' # segments i @ segments t"
  "segments (function_url i) = ''functions'' # segments i" "segments (function_tab_url i t) = ''functions'' # segments i @ segments t"
  "segments (workflow_url i) = ''statemachines'' # segments i @ [''workflow'']"
  "segments (workflow_tab_url i t) = ''statemachines'' # segments i @ segments t"
  "segments (instance_url w i) = ''statemachineinstances'' # segments w @ segments i"
  by (simp_all only: vpn_url_def vpn_tab_url_def client_url_def client_tab_url_def domain_url_def domain_tab_url_def function_url_def
      function_tab_url_def workflow_url_def workflow_tab_url_def instance_url_def segments_prefix segments_inner)

lemma tab_segments [simp]:
  "segments ''info'' = [''info'']" "segments ''clients'' = [''clients'']" "segments ''appdomains'' = [''appdomains'']"
  "segments ''messages'' = [''messages'']" "segments ''editor'' = [''editor'']" "segments ''invoke'' = [''invoke'']"
  "segments ''monitoring'' = [''monitoring'']"
  by (simp_all add: segments_def)

lemma menu_segments:
  "segments ''/status'' = [''status'']" "segments ''/functions'' = [''functions'']" "segments ''/statemachineinstances'' = [''statemachineinstances'']"
  "segments ''/statemachines'' = [''statemachines'']" "segments ''/vpns'' = [''vpns'']" "segments ''/logging/eventmesh'' = [''logging'', ''eventmesh'']"
  "segments ''/logging/statemachine'' = [''logging'', ''statemachine'']"
  by (simp_all add: segments_def)

lemma menu_matches:
  assumes "k < length menu_urls"
  shows "matches app_routes (segments (menu_urls ! k)) = [link_target (MenuLink k)]"
proof -
  have "k \<in> {0, 1, 2, 3, 4, 5, 6}" using assms by (auto simp: menu_urls_def)
  then show ?thesis
    by (auto simp: menu_urls_def matches_menu matches_paths numeral_eq_Suc menu_segments simp del: segments_slash)
qed

lemma link_matches: "link_ok l \<Longrightarrow> matches app_routes (segments (link_url l)) = [link_target l]"
  by (cases l)
    (simp_all add: menu_matches url_segments matches_paths matches_vpns matches_records del: link_target.simps(1)
       split: vpn_tab.split domain_tab.split function_tab.split)

lemma requests_of_simps [simp]:
  "requests_of yaml api [] = []" "requests_of yaml api (a # as) = (case app_effect yaml api a of None \<Rightarrow> [] | Some (rq, _) \<Rightarrow> [rq]) @ requests_of yaml api as"
  by (simp_all add: requests_of_def)

lemma menu_opens: "k < length menu_urls \<Longrightarrow> opened_records show s [] (link_target (MenuLink k)) = Some []"
  by (auto simp: menu_urls_def less_Suc_eq)

lemma link_opens:
  assumes "link_ok l"
  shows "(opened_records show s [] (link_target l) = None \<longrightarrow> (\<exists>n i. l \<in> {InstanceLink n i, DomainTab n i DomainEditor})) \<and>
    (\<forall>as. opened_records show s [] (link_target l) = Some as \<longrightarrow> requests_of yaml api as = link_requests api l)"
proof (cases l)
  case (MenuLink k)
  then show ?thesis using menu_opens assms by (simp del: link_target.simps)
qed (use assms in \<open>auto simp: route_param_def plain_def function_view_refresh_def invoke_refresh_def load_action_def instance_view_open_def
       vpn_view_refresh_def clients_open_def domains_open_def client_view_refresh_def domain_view_refresh_def messages_editor_open_def mp_set_appDomainId_def mp_refresh_def
       editor_domain_open_def lift_effect_def Let_def split: vpn_tab.splits domain_tab.splits function_tab.splits Option.bind_splits\<close>)


text \<open>A router that takes the first match\<close>

definition first_match :: "route list \<Rightarrow> string list \<Rightarrow> branch option" where
  "first_match rs ss = (case matches rs ss of [] \<Rightarrow> None | b # _ \<Rightarrow> Some b)"

lemma first_match_laws: "router_laws first_match"
  by (auto simp: router_laws_def first_match_def split: list.splits option.splits)


text \<open>The site without a path shows the list of functions.\<close>

lemma home_page: "router_laws router \<Longrightarrow> router app_routes [] = Some [(ListFunctionsComponent, [])]"
proof (rule router_unique)
  have "matches app_routes [] = matches app_routes [''functions'']"
    by (simp add: matches_def app_routes_def rewritten_def segments_def)
  then show "matches app_routes [] = [[(ListFunctionsComponent, [])]]" by (simp add: matches_paths matches_menu)
qed

section \<open>Links that lead elsewhere\<close>

text \<open>
  C34. The page of a client replaces its identifier from the url by the client identifier of the record that it has loaded, and the
  link of its tab is made from the latter. Once the client is loaded, the tab therefore leads to another url, and opening it
  requests the client by a value that is not its id.
\<close>

theorem sessions_tab_asks_for_other_client:
  assumes "router_laws router" and "plain n" and "plain c" and "appReducer now (ClientA (CompleteGetClient r)) s = Some s'"
    and "r = JObj kvs" and "obj_lookup kvs ''id'' = JStr i" and "obj_lookup kvs ''clientId'' = JStr c" and "c \<noteq> i"
  shows "client_view_loaded s' v = Some (JStr c) \<and>
    (\<exists>b as. router app_routes (segments (client_tab_url n c)) = Some b \<and> opened_records show s' [] b = Some as \<and>
       requests_of yaml api as = [rq_getClient api c]) \<and>
    rq_getClient api c \<noteq> rq_getClient api i"
proof -
  have "selectClientResult s' = JObj kvs" using assms(4,5) by (auto simp: selectClientResult_def if_truthy_def not_null_def)
  then have 1: "client_view_loaded s' v = Some (JStr c)" using assms(7) by (simp add: client_view_loaded_def)
  have ok: "link_ok (ClientSessionsTab n c)" using assms(2,3) by simp
  have 2: "router app_routes (segments (client_tab_url n c)) = Some (link_target (ClientSessionsTab n c))"
    using router_unique [OF assms(1) link_matches [OF ok]] by simp
  have 3: "requests_of yaml api as = [rq_getClient api c]" if "opened_records show s' [] (link_target (ClientSessionsTab n c)) = Some as" for as
    using link_opens [OF ok] that by auto
  have 4: "rq_getClient api c \<noteq> rq_getClient api i" using assms(8) by (simp add: rq_getClient_def http_get_def)
  show ?thesis using 1 2 3 4 link_opens [OF ok, of "show" s'] by (cases "opened_records show s' [] (link_target (ClientSessionsTab n c))") auto
qed

theorem sessions_tab_asks_for_other_client_witness:
  "\<exists>b as. first_match app_routes (segments ''/vpns/red/clients/sensor/sessions'') = Some b \<and>
     opened_records (\<lambda>_. '''') (the (appReducer Null (ClientA (CompleteGetClient (JObj [(''id'', JStr ''17''), (''clientId'', JStr ''sensor'')]))) (initial_app Map.empty))) [] b = Some as \<and>
     requests_of (\<lambda>_. '''') ''api'' as = [rq_getClient ''api'' ''sensor'']"
proof -
  let ?kvs = "[(''id'', JStr ''17''), (''clientId'', JStr ''sensor'')]"
  let ?a = "appReducer Null (ClientA (CompleteGetClient (JObj ?kvs))) (initial_app Map.empty)"
  have a: "?a = Some (the ?a)" by (simp add: initial_app_def)
  have p: "plain ''red''" "plain ''sensor''" by (simp_all add: plain_def)
  have l: "obj_lookup ?kvs ''id'' = JStr ''17''" "obj_lookup ?kvs ''clientId'' = JStr ''sensor''" "''sensor'' \<noteq> ''17''" by simp_all
  have u: "client_tab_url ''red'' ''sensor'' = ''/vpns/red/clients/sensor/sessions''" by (simp add: client_tab_url_def)
  show ?thesis
    using sessions_tab_asks_for_other_client [OF first_match_laws p a refl l, of Undef "\<lambda>_. ''''" "\<lambda>_. ''''" "''api''"] unfolding u by blast
qed

text \<open>
  Names are put into links as they are: the link of a vpn whose name contains a slash leads to a page of another vpn, or to none.
\<close>

theorem slash_in_name_leads_elsewhere:
  assumes "router_laws router" and "plain n"
  shows "router app_routes (segments (vpn_url (n @ ''/clients''))) = Some (link_target (VpnTab n VpnClients)) \<and>
    router app_routes (segments (vpn_url (n @ ''/x''))) = None"
proof -
  have "segments (n @ ''/clients'') = segments n @ [''clients'']" "segments (n @ ''/x'') = segments n @ [''x'']"
    using segments_append [of n "''clients''"] segments_append [of n "''x''"] by (simp_all add: segments_def)
  then have "matches app_routes (segments (vpn_url (n @ ''/clients''))) = [link_target (VpnTab n VpnClients)]"
    "matches app_routes (segments (vpn_url (n @ ''/x''))) = []"
    using assms(2) by (simp_all add: url_segments matches_paths matches_vpns) (simp add: matches_def vpns_routes_def rewritten_def segments_def)
  then show ?thesis using router_unique [OF assms(1)] router_none [OF assms(1)] by blast
qed

end
