(* ===== verification/Monitoring.thy ===== *)
theory Monitoring
  imports App_Store
begin

text \<open>
  The page that monitors a function (app/functions/view/monitoring/monitoring.component.ts): four line
  charts, the number of pods and of requests, and the requests that are sent every second. Parameters:
  \<open>clock\<close> gives hours, minutes and seconds of a time in local time, \<open>num\<close> is the conversion to a
  number (\<open>None\<close> is \<open>NaN\<close>), and \<open>time i\<close> is the \<open>i\<close>-th reading of the system's clock, in milliseconds.
  \<open>setMinutes\<close> is taken outside a change of daylight saving time. \<open>None\<close> is a \<open>TypeError\<close>.
\<close>

section \<open>The page\<close>

record line_chart =
  lc_data :: "js list"
  lc_labels :: "string list"

record monitoring_page =
  mo_threads :: line_chart
  mo_virtualMemoryBytes :: line_chart
  mo_cpuUsage :: line_chart
  mo_requestDuration :: line_chart
  mo_range :: int
  mo_duration :: int
  mo_nbPods :: js
  mo_totalRequests :: js

definition new_MonitoringPage :: monitoring_page where
  "new_MonitoringPage =
     (let c = \<lparr>lc_data = [], lc_labels = []\<rparr>
      in \<lparr>mo_threads = c, mo_virtualMemoryBytes = c, mo_cpuUsage = c, mo_requestDuration = c, mo_range = 15, mo_duration = 5,
          mo_nbPods = JNum 0, mo_totalRequests = JStr ''0''\<rparr>)"

text \<open>\<open>d.getHours() + ':' + d.getMinutes() + ':' + d.getSeconds()\<close>\<close>

definition time_label :: "(rat \<Rightarrow> nat \<times> nat \<times> nat) \<Rightarrow> rat option \<Rightarrow> string" where
  "time_label clock t =
     (case t of
        None \<Rightarrow> ''NaN:NaN:NaN''
      | Some s \<Rightarrow> (let (hh, mm, ss) = clock (s * 1000) in nat_dec hh @ '':'' @ nat_dec mm @ '':'' @ nat_dec ss))"

definition add_point :: "(rat \<Rightarrow> nat \<times> nat \<times> nat) \<Rightarrow> (js \<Rightarrow> rat option) \<Rightarrow> js \<Rightarrow> line_chart \<Rightarrow> line_chart res" where
  "add_point clock num r c = do {
     t \<leftarrow> js_index r ''0'';
     v \<leftarrow> js_index r ''1'';
     Some \<lparr>lc_data = lc_data c @ [v], lc_labels = lc_labels c @ [time_label clock (num t)]\<rparr>
   }"

fun add_points :: "(rat \<Rightarrow> nat \<times> nat \<times> nat) \<Rightarrow> (js \<Rightarrow> rat option) \<Rightarrow> js list \<Rightarrow> line_chart \<Rightarrow> line_chart res" where
  "add_points clock num [] c = Some c"
| "add_points clock num (r # rs) c = Option.bind (add_point clock num r c) (add_points clock num rs)"

definition refreshLineChart :: "(rat \<Rightarrow> nat \<times> nat \<times> nat) \<Rightarrow> (js \<Rightarrow> rat option) \<Rightarrow> js \<Rightarrow> line_chart \<Rightarrow> line_chart res" where
  "refreshLineChart clock num values c =
     (if \<not> truthy values then Some c
      else case values of JArr rs \<Rightarrow> add_points clock num rs \<lparr>lc_data = [], lc_labels = []\<rparr> | _ \<Rightarrow> TypeError)"

text \<open>\<open>!state || !state.data || !state.data.result || state.data.result.length !== 1\<close>, and otherwise the only result\<close>

definition only_result :: "js \<Rightarrow> js option res" where
  "only_result state =
     (if \<not> truthy state then Some None
      else do {
        d \<leftarrow> js_index state ''data'';
        if \<not> truthy d then Some None
        else do {
          r \<leftarrow> js_index d ''result'';
          if \<not> truthy r then Some None
          else do {
            l \<leftarrow> js_index r ''length'';
            if l \<noteq> JNum 1 then Some None else map_option Some (js_index r ''0'')
          }
        }
      })"

text \<open>The subscription to one of the four series\<close>

definition chart_emitted :: "(rat \<Rightarrow> nat \<times> nat \<times> nat) \<Rightarrow> (js \<Rightarrow> rat option) \<Rightarrow> js \<Rightarrow> line_chart \<Rightarrow> line_chart res" where
  "chart_emitted clock num state c = do {
     fr \<leftarrow> only_result state;
     case fr of None \<Rightarrow> Some c
     | Some firstResult \<Rightarrow> Option.bind (js_index firstResult ''values'') (\<lambda>values. refreshLineChart clock num values c)
   }"

definition threads_emitted :: "(rat \<Rightarrow> nat \<times> nat \<times> nat) \<Rightarrow> (js \<Rightarrow> rat option) \<Rightarrow> app_state \<Rightarrow> monitoring_page \<Rightarrow> monitoring_page res" where
  "threads_emitted clock num s p = map_option (\<lambda>c. p\<lparr>mo_threads := c\<rparr>) (chart_emitted clock num (selectFunctionThreadsResult s) (mo_threads p))"

definition memory_emitted :: "(rat \<Rightarrow> nat \<times> nat \<times> nat) \<Rightarrow> (js \<Rightarrow> rat option) \<Rightarrow> app_state \<Rightarrow> monitoring_page \<Rightarrow> monitoring_page res" where
  "memory_emitted clock num s p = map_option (\<lambda>c. p\<lparr>mo_virtualMemoryBytes := c\<rparr>) (chart_emitted clock num (selectFunctionVirtualMemoryBytesResult s) (mo_virtualMemoryBytes p))"

definition cpu_emitted :: "(rat \<Rightarrow> nat \<times> nat \<times> nat) \<Rightarrow> (js \<Rightarrow> rat option) \<Rightarrow> app_state \<Rightarrow> monitoring_page \<Rightarrow> monitoring_page res" where
  "cpu_emitted clock num s p = map_option (\<lambda>c. p\<lparr>mo_cpuUsage := c\<rparr>) (chart_emitted clock num (selectCpuUsageResult s) (mo_cpuUsage p))"

definition requestDuration_emitted :: "(rat \<Rightarrow> nat \<times> nat \<times> nat) \<Rightarrow> (js \<Rightarrow> rat option) \<Rightarrow> app_state \<Rightarrow> monitoring_page \<Rightarrow> monitoring_page res" where
  "requestDuration_emitted clock num s p = map_option (\<lambda>c. p\<lparr>mo_requestDuration := c\<rparr>) (chart_emitted clock num (selectRequestDurationResult s) (mo_requestDuration p))"

definition details_emitted :: "app_state \<Rightarrow> monitoring_page \<Rightarrow> monitoring_page res" where
  "details_emitted s p =
     (let state = selectDetailsResult s
      in if \<not> truthy state then Some p
         else do {
           pods \<leftarrow> js_index state ''pods'';
           if \<not> truthy pods then Some p
           else do {
             l \<leftarrow> js_index pods ''length'';
             Some (if l = JNum 0 then p else p\<lparr>mo_nbPods := l\<rparr>)
           }
         })"

definition totalRequests_emitted :: "app_state \<Rightarrow> monitoring_page \<Rightarrow> monitoring_page res" where
  "totalRequests_emitted s p = do {
     fr \<leftarrow> only_result (selectTotalRequests s);
     case fr of None \<Rightarrow> Some p
     | Some firstResult \<Rightarrow> do {
         v \<leftarrow> js_index firstResult ''value'';
         if \<not> truthy v then Some p else map_option (\<lambda>n. p\<lparr>mo_totalRequests := n\<rparr>) (js_index v ''1'')
       }
   }"

section \<open>The requests\<close>

definition getEndDate :: "int \<Rightarrow> rat" where
  "getEndDate now = of_int now / 1000"

definition getStartDate :: "int \<Rightarrow> int \<Rightarrow> rat" where
  "getStartDate rng now = of_int (now - rng * 60000) / 1000"

definition refreshThreads :: "string \<Rightarrow> (nat \<Rightarrow> int) \<Rightarrow> monitoring_page \<Rightarrow> function_action" where
  "refreshThreads nm time p = StartGetThreads nm (getStartDate (mo_range p) (time 0)) (getEndDate (time 1))"

definition refreshVirtualMemoryBytes :: "string \<Rightarrow> (nat \<Rightarrow> int) \<Rightarrow> monitoring_page \<Rightarrow> function_action" where
  "refreshVirtualMemoryBytes nm time p = StartGetVirtualMemoryBytes nm (getStartDate (mo_range p) (time 2)) (getEndDate (time 3))"

definition refreshCpuUsage :: "string \<Rightarrow> (nat \<Rightarrow> int) \<Rightarrow> monitoring_page \<Rightarrow> function_action" where
  "refreshCpuUsage nm time p = StartGetCpuUsage nm (getStartDate (mo_range p) (time 4)) (getEndDate (time 5)) (mo_duration p)"

definition refreshRequestDuration :: "string \<Rightarrow> (nat \<Rightarrow> int) \<Rightarrow> monitoring_page \<Rightarrow> function_action" where
  "refreshRequestDuration nm time p = StartGetRequestDuration nm (getStartDate (mo_range p) (time 6)) (getEndDate (time 7)) (mo_duration p)"

definition refreshDetails :: "string \<Rightarrow> function_action" where
  "refreshDetails nm = StartGetDetails nm"

definition refreshTotalRequests :: "string \<Rightarrow> (nat \<Rightarrow> int) \<Rightarrow> function_action" where
  "refreshTotalRequests nm time = StartGetTotalRequests nm (getEndDate (time 8))"

text \<open>\<open>refresh\<close>, which the timer calls every second: the actions in the order in which they are dispatched\<close>

definition monitoring_refresh :: "string \<Rightarrow> (nat \<Rightarrow> int) \<Rightarrow> monitoring_page \<Rightarrow> function_action list" where
  "monitoring_refresh nm time p =
     [refreshThreads nm time p, refreshVirtualMemoryBytes nm time p, refreshCpuUsage nm time p,
      refreshRequestDuration nm time p, refreshDetails nm, refreshTotalRequests nm time]"

definition monitoring_delete :: "string \<Rightarrow> function_action" where
  "monitoring_delete nm = StartDeleteFunction nm"

section \<open>What the charts show\<close>

text \<open>The answer of the metrics service for a query with one series\<close>

definition point :: "rat \<times> js \<Rightarrow> js" where
  "point = (\<lambda>(t, v). JArr [JNum t, v])"

definition series :: "(rat \<times> js) list \<Rightarrow> js" where
  "series pts = JObj [(''data'', JObj [(''result'', JArr [JObj [(''values'', JArr (map point pts))]])])]"

text \<open>A chart after a sequence of emissions\<close>

fun emissions :: "(rat \<Rightarrow> nat \<times> nat \<times> nat) \<Rightarrow> (js \<Rightarrow> rat option) \<Rightarrow> js list \<Rightarrow> line_chart \<Rightarrow> line_chart res" where
  "emissions clock num [] c = Some c"
| "emissions clock num (e # es) c = Option.bind (chart_emitted clock num e c) (emissions clock num es)"

lemma add_points_append:
  "add_points clock num rs c = Some c' \<Longrightarrow>
     \<exists>ps. length ps = length rs \<and> lc_data c' = lc_data c @ map snd ps \<and> lc_labels c' = lc_labels c @ map fst ps"
proof (induction rs arbitrary: c)
  case (Cons r rs)
  then obtain c1 where c1: "add_point clock num r c = Some c1" "add_points clock num rs c1 = Some c'"
    by (auto split: Option.bind_splits)
  obtain l v where p: "lc_data c1 = lc_data c @ [v]" "lc_labels c1 = lc_labels c @ [l]"
    using c1(1) by (auto simp: add_point_def split: Option.bind_splits)
  obtain ps where "length ps = length rs" "lc_data c' = lc_data c1 @ map snd ps" "lc_labels c' = lc_labels c1 @ map fst ps"
    using Cons.IH [OF c1(2)] by blast
  then show ?case using p by (intro exI [where x = "(l, v) # ps"]) simp
qed simp

lemma chart_emitted_length:
  "chart_emitted clock num e c = Some c' \<Longrightarrow> length (lc_data c) = length (lc_labels c) \<Longrightarrow> length (lc_data c') = length (lc_labels c')"
proof -
  assume e: "chart_emitted clock num e c = Some c'" and l: "length (lc_data c) = length (lc_labels c)"
  then have "c' = c \<or> (\<exists>rs. add_points clock num rs \<lparr>lc_data = [], lc_labels = []\<rparr> = Some c')"
    by (auto simp: chart_emitted_def refreshLineChart_def split: Option.bind_splits option.splits if_splits js.splits)
  then show ?thesis using l add_points_append by fastforce
qed

lemma first_keys [simp]: "nat_dec 0 = ''0''" "nat_dec (Suc 0) = ''1''"
  by code_simp+

lemma add_points_series:
  "(\<And>t. num (JNum t) = Some t) \<Longrightarrow> add_points clock num (map point pts) c =
     Some \<lparr>lc_data = lc_data c @ map snd pts, lc_labels = lc_labels c @ map (\<lambda>(t, v). time_label clock (Some t)) pts\<rparr>"
  by (induction pts arbitrary: c) (auto simp: add_point_def point_def indexed_def)

lemma series_emitted:
  "(\<And>t. num (JNum t) = Some t) \<Longrightarrow> chart_emitted clock num (series pts) c =
     Some \<lparr>lc_data = map snd pts, lc_labels = map (\<lambda>(t, v). time_label clock (Some t)) pts\<rparr>"
  by (simp add: chart_emitted_def only_result_def series_def refreshLineChart_def add_points_series indexed_def)


lemma emissions_append: "emissions clock num (es @ fs) c = Option.bind (emissions clock num es c) (emissions clock num fs)"
  by (induction es arbitrary: c) (auto simp: Option.bind_assoc intro: Option.bind_cong)

lemma emissions_length:
  "emissions clock num es c = Some c' \<Longrightarrow> length (lc_data c) = length (lc_labels c) \<Longrightarrow> length (lc_data c') = length (lc_labels c')"
  by (induction es arbitrary: c) (auto split: Option.bind_splits dest: chart_emitted_length)

lemma quiet_emissions: "list_all (\<lambda>e. only_result e = Some None) qs \<Longrightarrow> emissions clock num qs c = Some c"
  by (induction qs) (auto simp: chart_emitted_def)

text \<open>
  A chart of the monitoring page, over any sequence of values that its selector emits: it always
  has as many labels as values, after an answer with one series it shows exactly the points of that
  series, with the time of each, whatever it showed before, and it keeps showing them while the
  answers have no series or several.
\<close>

theorem chart_shows_last_series:
  assumes "emissions clock num es \<lparr>lc_data = [], lc_labels = []\<rparr> = Some c" and "\<forall>t. num (JNum t) = Some t"
    and "list_all (\<lambda>e. only_result e = Some None) qs"
  shows "length (lc_data c) = length (lc_labels c) \<and>
    emissions clock num (es @ series pts # qs) \<lparr>lc_data = [], lc_labels = []\<rparr> =
      Some \<lparr>lc_data = map snd pts, lc_labels = map (\<lambda>(t, v). time_label clock (Some t)) pts\<rparr>"
  using assms emissions_length [OF assms(1)] by (simp add: emissions_append series_emitted quiet_emissions)

definition example_num :: "js \<Rightarrow> rat option" where
  "example_num v = (case v of JNum t \<Rightarrow> Some t | _ \<Rightarrow> None)"

theorem chart_shows_last_series_witness:
  "emissions (\<lambda>_. (9, 5, 7)) example_num [series [(1, JStr ''a'')], series [(2, JStr ''b''), (3, JStr ''c'')], JObj []] \<lparr>lc_data = [], lc_labels = []\<rparr> =
     Some \<lparr>lc_data = [JStr ''b'', JStr ''c''], lc_labels = [''9:5:7'', ''9:5:7'']\<rparr>"
proof -
  have e: "emissions (\<lambda>_. (9, 5, 7)) example_num [series [(1, JStr ''a'')]] \<lparr>lc_data = [], lc_labels = []\<rparr> =
    Some \<lparr>lc_data = [JStr ''a''], lc_labels = [time_label (\<lambda>_. (9, 5, 7)) (Some 1)]\<rparr>"
    by (simp add: series_emitted example_num_def)
  have l: "time_label (\<lambda>_. (9, 5, 7)) (Some t) = ''9:5:7''" for t by (simp add: time_label_def) code_simp
  show ?thesis
    using chart_shows_last_series [OF e, of "[JObj []]" "[(2, JStr ''b''), (3, JStr ''c'')]"] by (simp add: example_num_def only_result_def l)
qed

section \<open>The windows of the requests\<close>

fun action_window :: "function_action \<Rightarrow> (rat \<times> rat) option" where
  "action_window (StartGetThreads nm s e) = Some (s, e)"
| "action_window (StartGetVirtualMemoryBytes nm s e) = Some (s, e)"
| "action_window (StartGetCpuUsage nm s e d) = Some (s, e)"
| "action_window (StartGetRequestDuration nm s e d) = Some (s, e)"
| "action_window a = None"

lemma window_length: "t \<le> t' \<Longrightarrow> getEndDate t' - getStartDate rng t = of_int (60 * rng) + of_int (t' - t) / 1000"
  by (simp add: getEndDate_def getStartDate_def field_simps)

text \<open>
  Every request for a series asks for a window of the chosen number of minutes, longer by at most the
  time that the dispatches of one refresh take.
\<close>

theorem monitoring_windows:
  assumes "mono time" and "a \<in> set (monitoring_refresh nm time p)" and "action_window a = Some (s, e)"
  shows "of_int (60 * mo_range p) \<le> e - s \<and> e - s \<le> of_int (60 * mo_range p) + of_int (time 8 - time 0) / 1000"
proof -
  obtain i where i: "i < 8" "e = getEndDate (time (Suc i))" "s = getStartDate (mo_range p) (time i)"
  proof -
    from assms(2,3) consider "s = getStartDate (mo_range p) (time 0)" "e = getEndDate (time (Suc 0))"
      | "s = getStartDate (mo_range p) (time 2)" "e = getEndDate (time (Suc 2))"
      | "s = getStartDate (mo_range p) (time 4)" "e = getEndDate (time (Suc 4))"
      | "s = getStartDate (mo_range p) (time 6)" "e = getEndDate (time (Suc 6))"
      by (auto simp: monitoring_refresh_def refreshThreads_def refreshVirtualMemoryBytes_def refreshCpuUsage_def
          refreshRequestDuration_def refreshDetails_def refreshTotalRequests_def)
    then show ?thesis by cases (rule that [of 0] that [of 2] that [of 4] that [of 6]; simp)+
  qed
  have t: "time i \<le> time (Suc i)" "time (Suc i) - time i \<le> time 8 - time 0"
    using monoD [OF assms(1), of i "Suc i"] monoD [OF assms(1), of 0 i] monoD [OF assms(1), of "Suc i" 8] i(1) by auto
  have "e - s = of_int (60 * mo_range p) + of_int (time (Suc i) - time i) / 1000" using window_length [OF t(1)] i by simp
  moreover have "0 \<le> (of_int (time (Suc i) - time i) :: rat)" "(of_int (time (Suc i) - time i) :: rat) \<le> of_int (time 8 - time 0)"
    using t by (simp only: of_int_0_le_iff of_int_le_iff, simp)+
  ultimately show ?thesis by (simp add: divide_right_mono)
qed

end
