(* ===== verification/App_Shell.thy ===== *)
theory App_Shell
  imports App_Store Dialog_Function
begin

text \<open>
  The frame of the web site (app/app.component.ts) and the page of the server's status
  (app/status/status.component.ts), together with the store. The select box of the vpn writes to the
  store when its value changes, and its value is set whenever the store's active vpn changes; an
  action that is dispatched while another one is processed is processed after it. \<open>None\<close> is a
  \<open>TypeError\<close>, or a queue of actions that the fuel does not exhaust.
\<close>

section \<open>The frame\<close>

text \<open>\<open>sh_seen\<close> is the value that the selector of the active vpn has emitted last.\<close>

record shell =
  sh_vpns :: js
  sh_serverStatus :: js
  sh_control :: js
  sh_showLogging :: bool
  sh_seen :: js

text \<open>The subscription to \<open>selectVpnLstResult\<close>\<close>

definition vpns_emitted :: "app_state \<Rightarrow> shell \<Rightarrow> shell" where
  "vpns_emitted s sh = (let r = selectVpnLstResult s in if \<not> truthy r then sh else sh\<lparr>sh_vpns := r\<rparr>)"

text \<open>The subscription to \<open>selectServerStatusResult\<close>, which emits after a new status has been stored\<close>

definition server_running :: "js \<Rightarrow> bool res" where
  "server_running st = (if \<not> truthy st then Some False else map_option (\<lambda>v. v \<noteq> JBool False) (js_get st ''isRunning''))"

fun emits_status :: "action \<Rightarrow> bool" where
  "emits_status (ServerA (CompleteGetServerStatus content)) = True"
| "emits_status a = False"

definition status_emitted :: "app_state \<Rightarrow> shell \<Rightarrow> (shell \<times> action list) res" where
  "status_emitted s sh =
     (let st = selectServerStatusResult s
      in map_option (\<lambda>b. if b then (sh\<lparr>sh_serverStatus := st\<rparr>, [VpnA StartGetAllVpn]) else (sh, [])) (server_running st))"

text \<open>The subscription to \<open>selectActiveVpnResult\<close>; setting the value of the select box dispatches \<open>selectVpn\<close>.\<close>

definition active_emitted :: "(js \<Rightarrow> string) \<Rightarrow> app_state \<Rightarrow> shell \<Rightarrow> shell \<times> action list" where
  "active_emitted show s sh =
     (let v = selectActiveVpnResult s
      in if v = sh_seen sh then (sh, [])
         else if \<not> truthy v then (sh\<lparr>sh_seen := v\<rparr>, [])
         else (sh\<lparr>sh_seen := v, sh_control := v\<rparr>, [VpnA (SelectVpn (js_string show v))]))"

text \<open>The queue of dispatched actions\<close>

fun shell_run :: "(js \<Rightarrow> string) \<Rightarrow> (js \<Rightarrow> string) \<Rightarrow> string \<Rightarrow> js \<Rightarrow> nat \<Rightarrow> action list \<Rightarrow> shell \<times> runtime \<Rightarrow> (shell \<times> runtime) res" where
  "shell_run show yaml api now 0 as s = None"
| "shell_run show yaml api now (Suc n) [] s = Some s"
| "shell_run show yaml api now (Suc n) (a # as) (sh, rt) = do {
     rt' \<leftarrow> dispatch yaml api now a rt;
     (sh1, b1) \<leftarrow> (if emits_status a then status_emitted (rt_state rt') sh else Some (sh, []));
     let (sh2, b2) = active_emitted show (rt_state rt') (vpns_emitted (rt_state rt') sh1);
     shell_run show yaml api now n (as @ b1 @ b2) (sh2, rt')
   }"

text \<open>\<open>ngOnInit\<close>: the select box is set from the stored selection before anyone listens to its changes.\<close>

definition shell_open :: "(js \<Rightarrow> string) \<Rightarrow> app_state \<Rightarrow> (shell \<times> action list) res" where
  "shell_open show s = do {
     (sh, as) \<leftarrow> status_emitted s \<lparr>sh_vpns = JArr [], sh_serverStatus = JObj [(''isRunning'', JBool False)], sh_control = Null, sh_showLogging = False, sh_seen = Undef\<rparr>;
     let (sh', _) = active_emitted show s (vpns_emitted s sh);
     Some (sh', as @ [ServerA StartGetServerStatus])
   }"

text \<open>A choice in the select box, and the end of a navigation\<close>

definition choose_vpn :: "(js \<Rightarrow> string) \<Rightarrow> js \<Rightarrow> shell \<Rightarrow> shell \<times> action list" where
  "choose_vpn show v sh = (sh\<lparr>sh_control := v\<rparr>, [VpnA (SelectVpn (js_string show v))])"

definition navigated :: "string \<Rightarrow> shell \<Rightarrow> shell" where
  "navigated url sh = (if take 8 url = ''/logging'' then sh\<lparr>sh_showLogging := True\<rparr> else sh)"

section \<open>The page of the server's status\<close>

record status_page =
  sp_serverStatus :: js
  sp_lastRefreshTime :: js
  sp_interval :: bool

definition status_open :: "status_page \<times> action" where
  "status_open = (\<lparr>sp_serverStatus = JObj [(''isRunning'', JBool False)], sp_lastRefreshTime = Null, sp_interval = True\<rparr>, ServerA StartGetServerStatus)"

fun status_react :: "js \<Rightarrow> action \<Rightarrow> status_page \<Rightarrow> status_page" where
  "status_react now (ServerA (CompleteGetServerStatus content)) p = p\<lparr>sp_serverStatus := content, sp_lastRefreshTime := now\<rparr>"
| "status_react now a p = p"

text \<open>The timer, until \<open>ngOnDestroy\<close>\<close>

definition status_tick :: "status_page \<Rightarrow> action option" where
  "status_tick p = (if sp_interval p then Some (ServerA StartGetServerStatus) else None)"

definition status_ngOnDestroy :: "status_page \<Rightarrow> status_page" where
  "status_ngOnDestroy p = p\<lparr>sp_interval := False\<rparr>"

section \<open>The selection settles\<close>

definition shell_inv :: "shell \<times> runtime \<Rightarrow> bool" where
  "shell_inv = (\<lambda>(sh, rt). sh_seen sh = selectActiveVpnResult (rt_state rt) \<and> (truthy (sh_seen sh) \<longrightarrow> sh_control sh = sh_seen sh) \<and>
     (selectedVpn (vpn_st (rt_state rt)) = Null \<or> (\<exists>s. selectedVpn (vpn_st (rt_state rt)) = JStr s)))"

lemma appReducer_selectedVpn:
  "appReducer now a s = Some s' \<Longrightarrow> selectedVpn (vpn_st s') = (case a of VpnA (SelectVpn n) \<Rightarrow> JStr n | _ \<Rightarrow> selectedVpn (vpn_st s))"
proof (cases a)
  case (VpnA b)
  moreover assume "appReducer now a s = Some s'"
  ultimately show ?thesis by (cases b) (auto simp: Let_def split: Option.bind_splits)
qed auto

lemma dispatch_selected:
  "dispatch yaml api now a rt = Some rt' \<Longrightarrow>
     selectedVpn (vpn_st (rt_state rt')) = (case a of VpnA (SelectVpn n) \<Rightarrow> JStr n | _ \<Rightarrow> selectedVpn (vpn_st (rt_state rt)))"
  by (auto simp: dispatch_def split: Option.bind_splits dest: appReducer_selectedVpn)

lemma vpns_emitted_fields [simp]: "sh_seen (vpns_emitted s sh) = sh_seen sh" "sh_control (vpns_emitted s sh) = sh_control sh"
  by (simp_all add: vpns_emitted_def Let_def)

lemma status_fields:
  "status_emitted s sh = Some (sh', b) \<Longrightarrow> sh_seen sh' = sh_seen sh \<and> sh_control sh' = sh_control sh \<and> b \<in> {[], [VpnA StartGetAllVpn]}"
  by (auto simp: status_emitted_def Let_def split: if_splits)


lemma active_settled:
  assumes "sh_seen sh = selectActiveVpnResult s"
  shows "active_emitted show s sh = (sh, [])"
  using assms by (simp add: active_emitted_def)

lemma dispatch_select: "dispatch yaml api now (VpnA (SelectVpn n)) rt =
    Some (rt\<lparr>rt_state := (rt_state rt)\<lparr>vpn_st := (vpn_st (rt_state rt))\<lparr>selectedVpn := JStr n\<rparr>, sessionStorage := (sessionStorage (rt_state rt))(''selectedVpn'' \<mapsto> n)\<rparr>\<rparr>)"
  by (simp add: dispatch_def lift_effect_def)

text \<open>Actions that the subscriptions dispatch are followed by no other.\<close>

lemma followed_by_none:
  assumes inv: "shell_inv (sh, rt)"
    and b: "b = VpnA StartGetAllVpn \<or> (\<exists>v. b = VpnA (SelectVpn v) \<and> selectedVpn (vpn_st (rt_state rt)) = JStr v)"
  shows "\<exists>sh' rt'. shell_inv (sh', rt') \<and> vpn_st (rt_state rt') = vpn_st (rt_state rt) \<and>
    shell_run show yaml api now (Suc n) (b # as) (sh, rt) = shell_run show yaml api now n as (sh', rt')"
proof -
  obtain rt' where d: "dispatch yaml api now b rt = Some rt'" and v: "vpn_st (rt_state rt') = vpn_st (rt_state rt)"
    using b by (auto simp: dispatch_select) (simp add: dispatch_def lift_effect_def)
  have "emits_status b = False" using b by auto
  moreover have s: "selectActiveVpnResult (rt_state rt') = selectActiveVpnResult (rt_state rt)" using v by (simp add: selectActiveVpnResult_def)
  ultimately have "shell_run show yaml api now (Suc n) (b # as) (sh, rt) = shell_run show yaml api now n as (vpns_emitted (rt_state rt') sh, rt')"
    using d inv by (simp add: shell_inv_def active_settled)
  moreover have "shell_inv (vpns_emitted (rt_state rt') sh, rt')" using inv s v by (simp add: shell_inv_def)
  ultimately show ?thesis using v by blast
qed

lemma queue_settles:
  assumes "shell_inv (sh, rt)"
    and "list_all (\<lambda>b. b = VpnA StartGetAllVpn \<or> (\<exists>v. b = VpnA (SelectVpn v) \<and> selectedVpn (vpn_st (rt_state rt)) = JStr v)) bs"
    and "length bs < n"
  shows "\<exists>sh' rt'. shell_run show yaml api now n bs (sh, rt) = Some (sh', rt') \<and> shell_inv (sh', rt') \<and> vpn_st (rt_state rt') = vpn_st (rt_state rt)"
  using assms
proof (induction bs arbitrary: sh rt n)
  case Nil
  then show ?case by (cases n) auto
next
  case (Cons b bs)
  then obtain m where m: "n = Suc m" "length bs < m" by (cases n) auto
  have b: "b = VpnA StartGetAllVpn \<or> (\<exists>v. b = VpnA (SelectVpn v) \<and> selectedVpn (vpn_st (rt_state rt)) = JStr v)" using Cons.prems(2) by simp
  from followed_by_none [OF Cons.prems(1) b, of "show" yaml api now m bs]
  obtain sh1 rt1 where 1: "shell_inv (sh1, rt1)" "vpn_st (rt_state rt1) = vpn_st (rt_state rt)"
    "shell_run show yaml api now (Suc m) (b # bs) (sh, rt) = shell_run show yaml api now m bs (sh1, rt1)" by blast
  then show ?case using Cons.IH [OF 1(1) _ m(2)] Cons.prems(2) m(1) by auto
qed

lemma selected_string:
  assumes "dispatch yaml api now a rt = Some rt1" and "selectedVpn (vpn_st (rt_state rt)) = Null \<or> (\<exists>s. selectedVpn (vpn_st (rt_state rt)) = JStr s)"
  shows "selectedVpn (vpn_st (rt_state rt1)) = Null \<or> (\<exists>s. selectedVpn (vpn_st (rt_state rt1)) = JStr s)"
  using dispatch_selected [OF assms(1)] assms(2) by (auto split: action.splits vpn_action.splits)

lemma first_action:
  assumes seen: "sh_seen sh = selectActiveVpnResult (rt_state rt)"
    and str: "selectedVpn (vpn_st (rt_state rt)) = Null \<or> (\<exists>s. selectedVpn (vpn_st (rt_state rt)) = JStr s)"
    and a: "dispatch yaml api now a rt = Some rt1" and st: "emits_status a \<Longrightarrow> status_emitted (rt_state rt1) sh \<noteq> None"
    and same: "selectActiveVpnResult (rt_state rt1) = sh_seen sh \<Longrightarrow> truthy (sh_seen sh) \<Longrightarrow> sh_control sh = sh_seen sh"
  shows "\<exists>sh' rt'. shell_run show yaml api now (4 + n) [a] (sh, rt) = Some (sh', rt') \<and> shell_inv (sh', rt') \<and> vpn_st (rt_state rt') = vpn_st (rt_state rt1)"
proof -
  let ?s = "rt_state rt1"
  obtain sh1 b1 where 1: "(if emits_status a then status_emitted ?s sh else Some (sh, [])) = Some (sh1, b1)"
    using st by (cases "emits_status a") auto
  then have f: "sh_seen sh1 = sh_seen sh" "sh_control sh1 = sh_control sh" "b1 \<in> {[], [VpnA StartGetAllVpn]}"
    using status_fields [of ?s sh sh1 b1] by (auto split: if_splits)
  obtain sh2 b2 where 2: "active_emitted show ?s (vpns_emitted ?s sh1) = (sh2, b2)" by fastforce
  have str1: "selectedVpn (vpn_st ?s) = Null \<or> (\<exists>s. selectedVpn (vpn_st ?s) = JStr s)" using selected_string [OF a str] .
  have inv: "shell_inv (sh2, rt1)"
    using 2 f(1,2) same str1 by (auto simp: shell_inv_def active_emitted_def Let_def split: if_splits)
  have b2: "list_all (\<lambda>b. \<exists>v. b = VpnA (SelectVpn v) \<and> selectedVpn (vpn_st ?s) = JStr v) b2" "length b2 \<le> 1"
    using 2 str1 by (auto simp: active_emitted_def Let_def selectActiveVpnResult_def if_truthy_def split: if_splits)
  have "list_all (\<lambda>b. b = VpnA StartGetAllVpn \<or> (\<exists>v. b = VpnA (SelectVpn v) \<and> selectedVpn (vpn_st ?s) = JStr v)) (b1 @ b2)"
    using f(3) b2(1) by (auto simp: list_all_iff)
  moreover have "length (b1 @ b2) < 3 + n" using f(3) b2(2) by auto
  moreover have "shell_run show yaml api now (4 + n) [a] (sh, rt) = shell_run show yaml api now (3 + n) (b1 @ b2) (sh2, rt1)"
    using a 1 2 by (simp add: numeral_eq_Suc)
  ultimately show ?thesis using queue_settles [OF inv] by simp
qed

text \<open>
  The select box of the vpn and the store do not chase each other: whatever action is dispatched,
  the queue of actions is empty after at most three steps unless the action itself throws, and then
  the select box shows the vpn that the store has selected. In particular the choice of a vpn, which
  the select box dispatches a second time, ends with that vpn selected in the store and stored for the
  browser's session.
\<close>

theorem vpn_selection_settles:
  assumes "shell_inv (sh, rt)" and "dispatch yaml api now a rt = Some rt1" and "emits_status a \<longrightarrow> status_emitted (rt_state rt1) sh \<noteq> None"
  shows "(\<exists>sh' rt'. shell_run show yaml api now (4 + n) [a] (sh, rt) = Some (sh', rt') \<and> shell_inv (sh', rt') \<and>
      vpn_st (rt_state rt') = vpn_st (rt_state rt1)) \<and>
    (\<exists>sh' rt'. (case choose_vpn show (JStr v) sh of (sh1, acts) \<Rightarrow> shell_run show yaml api now (4 + n) acts (sh1, rt)) = Some (sh', rt') \<and>
      shell_inv (sh', rt') \<and> selectedVpn (vpn_st (rt_state rt')) = JStr v \<and> (v \<noteq> [] \<longrightarrow> sh_control sh' = JStr v))"
proof
  have inv: "sh_seen sh = selectActiveVpnResult (rt_state rt)" "truthy (sh_seen sh) \<longrightarrow> sh_control sh = sh_seen sh"
    "selectedVpn (vpn_st (rt_state rt)) = Null \<or> (\<exists>s. selectedVpn (vpn_st (rt_state rt)) = JStr s)"
    using assms(1) by (simp_all add: shell_inv_def)
  show "\<exists>sh' rt'. shell_run show yaml api now (4 + n) [a] (sh, rt) = Some (sh', rt') \<and> shell_inv (sh', rt') \<and> vpn_st (rt_state rt') = vpn_st (rt_state rt1)"
    using first_action [OF inv(1,3) assms(2)] assms(3) inv(2) by simp
  let ?rt = "rt\<lparr>rt_state := (rt_state rt)\<lparr>vpn_st := (vpn_st (rt_state rt))\<lparr>selectedVpn := JStr v\<rparr>, sessionStorage := (sessionStorage (rt_state rt))(''selectedVpn'' \<mapsto> v)\<rparr>\<rparr>"
  have "\<exists>sh' rt'. shell_run show yaml api now (4 + n) [VpnA (SelectVpn v)] (sh\<lparr>sh_control := JStr v\<rparr>, rt) = Some (sh', rt') \<and> shell_inv (sh', rt') \<and>
      vpn_st (rt_state rt') = vpn_st (rt_state ?rt)"
    using inv by (intro first_action) (auto simp: dispatch_select selectActiveVpnResult_def if_truthy_def split: if_splits)
  then obtain sh' rt' where r: "shell_run show yaml api now (4 + n) [VpnA (SelectVpn v)] (sh\<lparr>sh_control := JStr v\<rparr>, rt) = Some (sh', rt')"
    "shell_inv (sh', rt')" "vpn_st (rt_state rt') = vpn_st (rt_state ?rt)" by blast
  then have s: "selectedVpn (vpn_st (rt_state rt')) = JStr v" by simp
  then have "v \<noteq> [] \<longrightarrow> sh_control sh' = JStr v" using r(2) by (simp add: shell_inv_def selectActiveVpnResult_def if_truthy_def)
  then show "\<exists>sh' rt'. (case choose_vpn show (JStr v) sh of (sh1, acts) \<Rightarrow> shell_run show yaml api now (4 + n) acts (sh1, rt)) = Some (sh', rt') \<and>
      shell_inv (sh', rt') \<and> selectedVpn (vpn_st (rt_state rt')) = JStr v \<and> (v \<noteq> [] \<longrightarrow> sh_control sh' = JStr v)"
    using r(1,2) s by (simp add: choose_vpn_def)
qed

lemma boot_shell:
  "shell_open show (initial_app st) =
     Some (\<lparr>sh_vpns = JArr [], sh_serverStatus = JObj [(''isRunning'', JBool False)],
        sh_control = (if truthy (getItem ''selectedVpn'' st) then getItem ''selectedVpn'' st else Null), sh_showLogging = False,
        sh_seen = if_truthy (getItem ''selectedVpn'' st)\<rparr>, [ServerA StartGetServerStatus])"
  by (simp add: shell_open_def status_emitted_def server_running_def selectServerStatusResult_def if_truthy_def initial_app_def
      initialServerState_def vpns_emitted_def selectVpnLstResult_def initialVpnLstState_def active_emitted_def selectActiveVpnResult_def initialVpnState_def
      getItem_def Let_def split: option.split)

text \<open>The frame starts in a state in which the select box and the store agree.\<close>

lemma boot_shell_inv: "shell_open show (initial_app st) = Some (sh, as) \<Longrightarrow> shell_inv (sh, \<lparr>rt_state = initial_app st, rt_pending = []\<rparr>)"
proof -
  assume "shell_open show (initial_app st) = Some (sh, as)"
  moreover have "selectedVpn (vpn_st (initial_app st)) = getItem ''selectedVpn'' st" by (simp add: initial_app_def initialVpnState_def)
  ultimately show ?thesis by (auto simp: boot_shell shell_inv_def if_truthy_def selectActiveVpnResult_def getItem_def split: option.splits)
qed

theorem vpn_selection_settles_witness:
  "\<exists>sh' rt'. shell_run (\<lambda>_. '''') (\<lambda>_. '''') ''api'' Null 4 [VpnA (SelectVpn ''blue'')]
      (\<lparr>sh_vpns = JArr [], sh_serverStatus = JObj [(''isRunning'', JBool False)], sh_control = JStr ''blue'', sh_showLogging = False, sh_seen = JStr ''red''\<rparr>,
       \<lparr>rt_state = initial_app [''selectedVpn'' \<mapsto> ''red''], rt_pending = []\<rparr>) = Some (sh', rt') \<and>
     sh_control sh' = JStr ''blue'' \<and> selectedVpn (vpn_st (rt_state rt')) = JStr ''blue''"
proof -
  let ?rt = "\<lparr>rt_state = initial_app [''selectedVpn'' \<mapsto> ''red''], rt_pending = []\<rparr>"
  let ?sh = "\<lparr>sh_vpns = JArr [], sh_serverStatus = JObj [(''isRunning'', JBool False)], sh_control = JStr ''red'', sh_showLogging = False, sh_seen = JStr ''red''\<rparr>"
  have "shell_open (\<lambda>_. '''') (initial_app [''selectedVpn'' \<mapsto> ''red'']) = Some (?sh, [ServerA StartGetServerStatus])"
    by (simp add: boot_shell getItem_def if_truthy_def)
  then have "shell_inv (?sh, ?rt)" by (rule boot_shell_inv)
  then show ?thesis
    using vpn_selection_settles [of ?sh ?rt "\<lambda>_. ''''" "''api''" Null "VpnA (SelectVpn ''blue'')" _ "\<lambda>_. ''''" 0 "''blue''", OF _ dispatch_select]
    by (simp add: choose_vpn_def) blast
qed

end
