(* ===== verification/Editor_Widgets.thy ===== *)
theory Editor_Widgets
  imports Store_Core
begin

text \<open>
  Two widgets that the editors share: the service that opens side panels
  (components/matpanel/matpanelservice.ts, matpanel.component.ts) and the text editor that wraps Monaco
  (components/monaco-editor/monaco-editor.component.ts, base-editor.ts) and is bound to a form control.
  Of Monaco the model has an editor's text and the options it was created with. No page of the web site
  uses the editor's input \<open>model\<close> or passes a model in the options, so the branches for it are left out:
  the steps below are those with options that have no model. How the editors of a site get created
  is the subject of \<open>Editor_Loading\<close>.
\<close>

section \<open>Side panels\<close>

record panels =
  pn_ref :: "nat option"
  pn_attached :: "nat list"
  pn_created :: nat

definition no_panels :: panels where
  "no_panels = \<lparr>pn_ref = None, pn_attached = [], pn_created = 0\<rparr>"

text \<open>\<open>open\<close>: a new panel is created and attached, and the service keeps a reference to it.\<close>

definition panel_open :: "panels \<Rightarrow> panels" where
  "panel_open s = \<lparr>pn_ref = Some (pn_created s), pn_attached = pn_attached s @ [pn_created s], pn_created = Suc (pn_created s)\<rparr>"

text \<open>\<open>close\<close>, which the event \<open>closed\<close> of any panel calls\<close>

definition panel_close :: "panels \<Rightarrow> panels" where
  "panel_close s = (case pn_ref s of None \<Rightarrow> s | Some k \<Rightarrow> s\<lparr>pn_attached := filter (\<lambda>j. j \<noteq> k) (pn_attached s)\<rparr>)"

datatype panel_event = PanelOpen | PanelClosed nat

text \<open>Only a panel that is attached can emit \<open>closed\<close>.\<close>

fun panel_step :: "panels \<Rightarrow> panel_event \<Rightarrow> panels" where
  "panel_step s PanelOpen = panel_open s"
| "panel_step s (PanelClosed k) = (if k \<in> set (pn_attached s) then panel_close s else s)"

definition panel_run :: "panel_event list \<Rightarrow> panels \<Rightarrow> panels" where
  "panel_run es s = foldl panel_step s es"

text \<open>Panels are opened one at a time: none is opened while another is attached.\<close>

fun one_at_a_time :: "panel_event list \<Rightarrow> panels \<Rightarrow> bool" where
  "one_at_a_time [] s = True"
| "one_at_a_time (e # es) s = ((e = PanelOpen \<longrightarrow> pn_attached s = []) \<and> one_at_a_time es (panel_step s e))"

definition panels_ok :: "panels \<Rightarrow> bool" where
  "panels_ok s \<longleftrightarrow> (\<forall>k \<in> set (pn_attached s). k < pn_created s) \<and> (pn_attached s = [] \<or> (\<exists>k. pn_attached s = [k] \<and> pn_ref s = Some k))"

lemma panel_step_ok: "panels_ok s \<Longrightarrow> (e = PanelOpen \<Longrightarrow> pn_attached s = []) \<Longrightarrow> panels_ok (panel_step s e)"
  by (cases e) (auto simp: panels_ok_def panel_open_def panel_close_def split: option.splits)

lemma one_at_a_time_ok: "one_at_a_time es s \<Longrightarrow> panels_ok s \<Longrightarrow> panels_ok (panel_run es s)"
  unfolding panel_run_def by (induction es arbitrary: s) (auto intro: panel_step_ok)

lemma left_attached:
  "j \<in> set (pn_attached s) \<Longrightarrow> j < pn_created s \<Longrightarrow> pn_ref s \<noteq> Some j \<Longrightarrow> j \<in> set (pn_attached (panel_run es s))"
  unfolding panel_run_def
proof (induction es arbitrary: s)
  case (Cons e es)
  have "j \<in> set (pn_attached (panel_step s e)) \<and> j < pn_created (panel_step s e) \<and> pn_ref (panel_step s e) \<noteq> Some j"
    using Cons.prems by (cases e) (auto simp: panel_open_def panel_close_def split: option.splits)
  then show ?case using Cons.IH by simp
qed simp

text \<open>
  The service holds a single reference. As long as panels are opened one at a time, at most one is
  attached and closing it detaches it. But a panel that is still attached when another one is opened
  stays attached for ever, whatever is opened and closed afterwards: its own closing detaches the other.
\<close>

theorem covered_panel_stays:
  "(one_at_a_time es no_panels \<longrightarrow> length (pn_attached (panel_run es no_panels)) \<le> 1 \<and>
      (\<forall>k. k \<in> set (pn_attached (panel_run es no_panels)) \<longrightarrow> pn_attached (panel_step (panel_run es no_panels) (PanelClosed k)) = [])) \<and>
   (panels_ok s \<and> j \<in> set (pn_attached s) \<longrightarrow> j \<in> set (pn_attached (panel_run fs (panel_open s))))"
proof (intro conjI impI)
  assume "one_at_a_time es no_panels"
  moreover have "panels_ok no_panels" by (simp add: panels_ok_def no_panels_def)
  ultimately have ok: "panels_ok (panel_run es no_panels)" by (rule one_at_a_time_ok)
  then show "length (pn_attached (panel_run es no_panels)) \<le> 1" by (auto simp: panels_ok_def)
  from ok show "\<forall>k. k \<in> set (pn_attached (panel_run es no_panels)) \<longrightarrow> pn_attached (panel_step (panel_run es no_panels) (PanelClosed k)) = []"
    by (auto simp: panels_ok_def panel_close_def)
next
  assume "panels_ok s \<and> j \<in> set (pn_attached s)"
  then show "j \<in> set (pn_attached (panel_run fs (panel_open s)))"
    by (intro left_attached) (auto simp: panels_ok_def panel_open_def)
qed

section \<open>The text editor\<close>

text \<open>
  The editor is bound to the form control \<open>me_form\<close>; \<open>me_scheduled\<close> counts the callbacks of
  \<open>setTimeout\<close> that are still to run; \<open>me_resize\<close> tells whether there is a subscription to the event
  \<open>resize\<close> of the window.
\<close>

record text_editor =
  me_value :: string
  me_options :: js
  me_editor :: "(string \<times> js) option"
  me_isSingleLine :: bool
  me_customSize :: js
  me_form :: js
  me_scheduled :: nat
  me_resize :: bool

definition singleLine_options :: js where
  "singleLine_options = JObj [(''wordWrap'', JStr ''off''), (''lineNumbers'', JStr ''off''), (''lineNumbersMinChars'', JNum 0),
     (''overviewRulerLanes'', JNum 0), (''overviewRulerBorder'', JBool False), (''hideCursorInOverviewRuler'', JBool True),
     (''lineDecorationsWidth'', JNum 0), (''glyphMargin'', JBool False), (''folding'', JBool False), (''scrollBeyondLastColumn'', JNum 0),
     (''scrollbar'', JObj [(''horizontal'', JStr ''hidden''), (''vertical'', JStr ''hidden''), (''alwaysConsumeMouseWheel'', JBool False)]),
     (''find'', JObj [(''addExtraSpaceOnTop'', JBool False), (''autoFindInSelection'', JStr ''never''), (''seedSearchStringFromSelection'', JBool False)]),
     (''minimap'', JObj [(''enabled'', JBool False)]), (''wordBasedSuggestions'', JBool False), (''links'', JBool False),
     (''occurrencesHighlight'', JBool False), (''cursorStyle'', JStr ''line-thin''), (''renderLineHighlight'', JStr ''none''),
     (''contextmenu'', JBool False), (''roundedSelection'', JBool False), (''hover'', JObj [(''delay'', JNum 100)]),
     (''acceptSuggestionOnEnter'', JStr ''on''), (''automaticLayout'', JBool True), (''fixedOverflowWidgets'', JBool True)]"

text \<open>\<open>Object.assign({}, a, b)\<close>, and \<open>delete o[k]\<close>\<close>

definition js_assign :: "js \<Rightarrow> js \<Rightarrow> js" where
  "js_assign a b = JObj (fold (\<lambda>(k, v) acc. AList.update k v acc) (children b) (fold (\<lambda>(k, v) acc. AList.update k v acc) (children a) []))"

definition js_delete :: "string \<Rightarrow> js \<Rightarrow> js" where
  "js_delete k v = (case v of JObj kvs \<Rightarrow> JObj (AList.delete k kvs) | _ \<Rightarrow> v)"

definition no_model :: "js \<Rightarrow> bool" where
  "no_model opts \<longleftrightarrow> \<not> truthy (key_of ''model'' opts)"

text \<open>
  \<open>initMonaco\<close>, for options without a model; it throws if there are no options. The text is set before
  the listener to changes is registered.
\<close>

definition initMonaco :: "js \<Rightarrow> text_editor \<Rightarrow> text_editor res" where
  "initMonaco opts e = map_option (\<lambda>_. e\<lparr>me_editor := Some (me_value e, opts), me_resize := True\<rparr>) (js_get opts ''model'')"

definition me_ngOnDestroy :: "text_editor \<Rightarrow> text_editor" where
  "me_ngOnDestroy e = e\<lparr>me_editor := None, me_resize := False\<rparr>"

text \<open>The handlers of \<open>resize\<close>, which throws without an editor, and of \<open>onKeyDown\<close>: is the key suppressed?\<close>

definition me_resized :: "text_editor \<Rightarrow> text_editor res" where
  "me_resized e = (if me_resize e \<and> me_editor e = None then TypeError else Some e)"

definition key_suppressed :: "bool \<Rightarrow> int \<Rightarrow> text_editor \<Rightarrow> bool" where
  "key_suppressed is_enter suggest_state e \<longleftrightarrow> me_isSingleLine e \<and> is_enter \<and> suggest_state = 0"

text \<open>The setter of \<open>options\<close>, for the default options of the configuration\<close>

definition set_options :: "js \<Rightarrow> js \<Rightarrow> text_editor \<Rightarrow> text_editor res" where
  "set_options defaults opts e = do {
     single \<leftarrow> js_get opts ''isSingleLine'';
     size \<leftarrow> js_get opts ''customSize'';
     let is_single = (single = JBool True);
     let opts' = (if is_single then js_delete ''isSingleLine'' opts else if truthy size then js_delete ''customSize'' opts else opts);
     let e1 = (if is_single then e\<lparr>me_isSingleLine := True, me_customSize := JStr ''small''\<rparr>
               else if truthy size then e\<lparr>me_customSize := size\<rparr> else e);
     let e2 = e1\<lparr>me_options := js_assign (if is_single then singleLine_options else defaults) opts'\<rparr>;
     (case me_editor e2 of None \<Rightarrow> Some e2 | Some _ \<Rightarrow> initMonaco opts' e2)
   }"

text \<open>\<open>onDidChangeModelContent\<close>\<close>

definition content_changed :: "string \<Rightarrow> text_editor \<Rightarrow> text_editor" where
  "content_changed t e =
     (case me_editor e of None \<Rightarrow> e | Some (_, opts) \<Rightarrow> e\<lparr>me_editor := Some (t, opts), me_form := JStr t, me_value := t\<rparr>)"

text \<open>\<open>writeValue\<close>, which the form calls when its control is set, and its callback\<close>

fun text_of :: "js \<Rightarrow> string" where
  "text_of (JStr s) = s"
| "text_of v = []"

definition writeValue :: "js \<Rightarrow> text_editor \<Rightarrow> text_editor" where
  "writeValue v e = e\<lparr>me_form := v, me_value := text_of v, me_scheduled := Suc (me_scheduled e)\<rparr>"

definition write_scheduled :: "text_editor \<Rightarrow> text_editor res" where
  "write_scheduled e =
     (if me_scheduled e = 0 then Some e
      else let e' = e\<lparr>me_scheduled := me_scheduled e - 1\<rparr>
           in case me_editor e of
                None \<Rightarrow> Some e'
              | Some _ \<Rightarrow> map_option (\<lambda>_. content_changed (me_value e) e') (js_get (me_options e) ''model''))"

text \<open>How a component is used: the form sets the control, a callback runs, the user types, the options change.\<close>

inductive me_use :: "js \<Rightarrow> text_editor \<Rightarrow> text_editor \<Rightarrow> bool" for defaults :: js where
  written: "v \<in> {Undef, Null} \<or> (\<exists>s. v = JStr s) \<Longrightarrow> me_use defaults e (writeValue v e)"
| flushed: "write_scheduled e = Some e' \<Longrightarrow> me_use defaults e e'"
| typed: "me_editor e \<noteq> None \<Longrightarrow> me_use defaults e (content_changed t e)"
| reoptioned: "no_model opts \<Longrightarrow> no_model defaults \<Longrightarrow> set_options defaults opts e = Some e' \<Longrightarrow> me_use defaults e e'"

definition new_TextEditor :: text_editor where
  "new_TextEditor = \<lparr>me_value = [], me_options = Undef, me_editor = None, me_isSingleLine = False, me_customSize = JStr ''medium'', me_form = Null, me_scheduled = 0, me_resize = False\<rparr>"

definition me_inv :: "text_editor \<Rightarrow> bool" where
  "me_inv e \<longleftrightarrow> me_value e = text_of (me_form e) \<and> (me_resize e \<longleftrightarrow> me_editor e \<noteq> None) \<and>
     (case me_editor e of None \<Rightarrow> True | Some (t, _) \<Rightarrow> js_get (me_options e) ''model'' \<noteq> None \<and> (me_scheduled e = 0 \<longrightarrow> t = me_value e))"

lemma initMonaco_Some:
  "initMonaco opts e = Some e' \<longleftrightarrow> js_get opts ''model'' \<noteq> None \<and> e' = e\<lparr>me_editor := Some (me_value e, opts), me_resize := True\<rparr>"
  by (auto simp: initMonaco_def)

lemma set_options_fields:
  assumes "set_options defaults opts e = Some e'"
  shows "me_value e' = me_value e \<and> me_form e' = me_form e \<and> me_scheduled e' = me_scheduled e \<and>
    js_get (me_options e') ''model'' \<noteq> None \<and>
    (me_editor e' = None \<and> me_editor e = None \<and> me_resize e' = me_resize e \<or>
     (\<exists>t x o'. me_editor e = Some (t, x) \<and> me_editor e' = Some (me_value e, o') \<and> me_resize e'))"
  using assms by (cases "me_editor e")
    (auto simp: set_options_def initMonaco_Some Let_def js_assign_def split: Option.bind_splits if_splits)

lemma me_use_inv: "me_use defaults e e' \<Longrightarrow> me_inv e \<Longrightarrow> me_inv e'"
proof (induction rule: me_use.induct)
  case (reoptioned opts e e')
  then show ?case using set_options_fields [OF reoptioned.hyps(3)] by (auto simp: me_inv_def)
qed (auto simp: me_inv_def writeValue_def write_scheduled_def content_changed_def Let_def split: option.splits if_splits)

definition has_editor :: "text_editor \<Rightarrow> bool" where
  "has_editor e \<longleftrightarrow> me_editor e \<noteq> None"

definition has_options :: "text_editor \<Rightarrow> bool" where
  "has_options e \<longleftrightarrow> js_get (me_options e) ''model'' \<noteq> None"

lemma me_use_editor: "me_use defaults e e' \<Longrightarrow> has_editor e' = has_editor e"
proof (induction rule: me_use.induct)
  case (reoptioned opts e e')
  then show ?case using set_options_fields [OF reoptioned.hyps(3)] by (auto simp: has_editor_def)
qed (auto simp: has_editor_def writeValue_def write_scheduled_def content_changed_def Let_def split: option.splits if_splits)

lemma me_use_options: "me_use defaults e e' \<Longrightarrow> has_options e \<Longrightarrow> has_options e'"
proof (induction rule: me_use.induct)
  case (reoptioned opts e e')
  then show ?case using set_options_fields [OF reoptioned.hyps(3)] by (simp add: has_options_def)
qed (auto simp: has_options_def writeValue_def write_scheduled_def content_changed_def Let_def split: option.splits if_splits)

lemma me_destroy_inv: "me_inv e \<Longrightarrow> me_inv (me_ngOnDestroy e)"
  "has_options (me_ngOnDestroy e) = has_options e" "\<not> has_editor (me_ngOnDestroy e)"
  by (simp_all add: me_inv_def me_ngOnDestroy_def has_options_def has_editor_def)

lemma me_init_inv:
  assumes "me_inv e" and "has_options e"
  obtains e' where "initMonaco (me_options e) e = Some e'" "me_inv e'" "has_options e'" "has_editor e'"
    "me_editor e' = Some (text_of (me_form e), me_options e)" "me_form e' = me_form e"
  using assms by (auto simp: me_inv_def has_options_def has_editor_def initMonaco_def)

lemma me_new_inv:
  assumes "set_options defaults opts new_TextEditor = Some e"
  shows "me_inv e" "has_options e" "\<not> has_editor e"
  using set_options_fields [OF assms] by (auto simp: me_inv_def has_options_def has_editor_def new_TextEditor_def)

text \<open>In these states no handler throws that can run by itself.\<close>

lemma me_inv_safe: "me_inv e \<Longrightarrow> me_resized e = Some e \<and> (\<exists>e'. write_scheduled e = Some e')"
  by (auto simp: me_inv_def me_resized_def write_scheduled_def Let_def split: option.splits)

text \<open>
  An editor is created with the default options and those of its input; but when the options of a
  living editor change, it is created again with the options of its input alone, without the defaults.
\<close>

theorem options_lose_defaults:
  assumes "me_editor e = Some x" and "set_options defaults (JObj [(''language'', l)]) e = Some e'"
  shows "me_editor e' = Some (me_value e, JObj [(''language'', l)]) \<and> me_options e' = js_assign defaults (JObj [(''language'', l)])"
  using assms by (auto simp: set_options_def initMonaco_def Let_def split: Option.bind_splits js.splits list.splits if_splits option.splits)

end
