(* ===== verification/Editor_Loading.thy ===== *)
theory Editor_Loading
  imports Editor_Widgets
begin

text \<open>
  How the text editors of the site come into being (components/monaco-editor/base-editor.ts and the
  registration of the language jq in monaco-editor.component.ts). The script of Monaco is loaded once,
  for the first editor that is shown; all others wait for a promise that is shared by them. The state
  has the variables of the module, the part of \<open>window\<close> that they depend on, and one slot per
  component. Scripts that arrive and callbacks that run are steps of their own.
\<close>

section \<open>State\<close>

datatype life = Fresh | Shown | Gone

record slot =
  sl_editor :: text_editor
  sl_life :: life

text \<open>What has been requested, with the component that will be initialised when it arrives\<close>

datatype monaco_request = Idle | ScriptRequested nat | ModulesRequested nat

record site_editors =
  se_loadedMonaco :: bool
  se_request :: monaco_request
  se_resolved :: bool
  se_then :: "nat list"
  se_monaco :: bool
  se_require :: bool
  se_hooks :: nat
  se_languagesLoaded :: bool
  se_imports :: nat
  se_slots :: "slot list"

definition no_editors :: "bool \<Rightarrow> bool \<Rightarrow> site_editors" where
  "no_editors monaco require = \<lparr>se_loadedMonaco = False, se_request = Idle, se_resolved = False, se_then = [], se_monaco = monaco,
     se_require = require, se_hooks = 0, se_languagesLoaded = False, se_imports = 0, se_slots = []\<rparr>"

section \<open>Operations\<close>

definition loadLanguages :: "site_editors \<Rightarrow> site_editors" where
  "loadLanguages s = (if se_languagesLoaded s then s else s\<lparr>se_imports := Suc (se_imports s), se_languagesLoaded := True\<rparr>)"

text \<open>\<open>this.initMonaco(this._options)\<close> for the component \<open>j\<close>\<close>

definition init_slot :: "nat \<Rightarrow> site_editors \<Rightarrow> site_editors res" where
  "init_slot j s = do {
     e \<leftarrow> initMonaco (me_options (sl_editor (se_slots s ! j))) (sl_editor (se_slots s ! j));
     Some ((loadLanguages s)\<lparr>se_slots := (se_slots s)[j := (se_slots s ! j)\<lparr>sl_editor := e\<rparr>]\<rparr>)
   }"

text \<open>\<open>ngAfterViewInit\<close>; \<open>onGotAmdLoader\<close> requests the modules, the second callback is \<open>modules_loaded\<close>.\<close>

definition onGotAmdLoader :: "nat \<Rightarrow> site_editors \<Rightarrow> site_editors" where
  "onGotAmdLoader j s = s\<lparr>se_request := ModulesRequested j\<rparr>"

definition base_ngAfterViewInit :: "nat \<Rightarrow> site_editors \<Rightarrow> site_editors" where
  "base_ngAfterViewInit j s =
     (if se_loadedMonaco s then s\<lparr>se_then := se_then s @ [j]\<rparr>
      else let s' = s\<lparr>se_loadedMonaco := True\<rparr>
           in if se_monaco s then s'\<lparr>se_resolved := True\<rparr>
              else if \<not> se_require s then s'\<lparr>se_request := ScriptRequested j\<rparr>
              else onGotAmdLoader j s')"

definition script_loaded :: "site_editors \<Rightarrow> site_editors" where
  "script_loaded s = (case se_request s of ScriptRequested j \<Rightarrow> onGotAmdLoader j (s\<lparr>se_require := True\<rparr>) | _ \<Rightarrow> s)"

definition modules_loaded :: "bool \<Rightarrow> site_editors \<Rightarrow> site_editors res" where
  "modules_loaded hook s =
     (case se_request s of
        ModulesRequested j \<Rightarrow>
          map_option (\<lambda>s'. s'\<lparr>se_resolved := True\<rparr>)
            (init_slot j (s\<lparr>se_request := Idle, se_monaco := True, se_hooks := se_hooks s + (if hook then 1 else 0)\<rparr>))
      | _ \<Rightarrow> Some s)"

text \<open>A callback of \<open>loadPromise.then\<close>, in the order of the registration\<close>

definition run_then :: "site_editors \<Rightarrow> site_editors res" where
  "run_then s = (if \<not> se_resolved s then Some s else case se_then s of [] \<Rightarrow> Some s | j # js \<Rightarrow> init_slot j (s\<lparr>se_then := js\<rparr>))"

definition base_ngOnDestroy :: "nat \<Rightarrow> site_editors \<Rightarrow> site_editors" where
  "base_ngOnDestroy j s = s\<lparr>se_slots := (se_slots s)[j := \<lparr>sl_editor = me_ngOnDestroy (sl_editor (se_slots s ! j)), sl_life = Gone\<rparr>]\<rparr>"

text \<open>
  The events: a component is constructed and gets its options, its view is initialised, it is used, a callback of
  \<open>setTimeout\<close> runs (also after the component has been destroyed), it is destroyed, a script arrives,
  a callback of the promise runs. When options change, an editor is replaced only if there is one, so that the
  language has been registered already.
\<close>

definition set_slot :: "nat \<Rightarrow> slot \<Rightarrow> site_editors \<Rightarrow> site_editors" where
  "set_slot j c s = s\<lparr>se_slots := (se_slots s)[j := c]\<rparr>"

inductive se_step :: "bool \<Rightarrow> js \<Rightarrow> site_editors \<Rightarrow> site_editors \<Rightarrow> bool" for hook :: bool and defaults :: js where
  constructed: "no_model opts \<Longrightarrow> no_model defaults \<Longrightarrow> set_options defaults opts new_TextEditor = Some e \<Longrightarrow>
     se_step hook defaults s (s\<lparr>se_slots := se_slots s @ [\<lparr>sl_editor = e, sl_life = Fresh\<rparr>]\<rparr>)"
| viewed: "j < length (se_slots s) \<Longrightarrow> sl_life (se_slots s ! j) = Fresh \<Longrightarrow>
     se_step hook defaults s (base_ngAfterViewInit j (set_slot j ((se_slots s ! j)\<lparr>sl_life := Shown\<rparr>) s))"
| used: "j < length (se_slots s) \<Longrightarrow> sl_life (se_slots s ! j) \<noteq> Gone \<Longrightarrow> me_use defaults (sl_editor (se_slots s ! j)) e \<Longrightarrow>
     se_step hook defaults s (set_slot j ((se_slots s ! j)\<lparr>sl_editor := e\<rparr>) s)"
| late: "j < length (se_slots s) \<Longrightarrow> write_scheduled (sl_editor (se_slots s ! j)) = Some e \<Longrightarrow>
     se_step hook defaults s (set_slot j ((se_slots s ! j)\<lparr>sl_editor := e\<rparr>) s)"
| destroyed: "j < length (se_slots s) \<Longrightarrow> sl_life (se_slots s ! j) \<noteq> Gone \<Longrightarrow> se_step hook defaults s (base_ngOnDestroy j s)"
| script: "se_step hook defaults s (script_loaded s)"
| modules: "modules_loaded hook s = Some s' \<Longrightarrow> se_step hook defaults s s'"
| resumed: "run_then s = Some s' \<Longrightarrow> se_step hook defaults s s'"

inductive se_reachable :: "bool \<Rightarrow> js \<Rightarrow> site_editors \<Rightarrow> bool" for hook :: bool and defaults :: js where
  start: "se_reachable hook defaults (no_editors False require)"
| later: "se_reachable hook defaults s \<Longrightarrow> se_step hook defaults s s' \<Longrightarrow> se_reachable hook defaults s'"

text \<open>The scripts arrive, and all callbacks of the promise run.\<close>

fun run_thens :: "nat \<Rightarrow> site_editors \<Rightarrow> site_editors res" where
  "run_thens 0 s = Some s"
| "run_thens (Suc n) s = Option.bind (run_then s) (run_thens n)"

definition monaco_arrives :: "bool \<Rightarrow> site_editors \<Rightarrow> site_editors res" where
  "monaco_arrives hook s = Option.bind (modules_loaded hook (script_loaded s)) (\<lambda>s'. run_thens (length (se_then s')) s')"

section \<open>Every shown editor is created once\<close>

definition waiting :: "site_editors \<Rightarrow> nat list" where
  "waiting s = (case se_request s of Idle \<Rightarrow> [] | ScriptRequested j \<Rightarrow> [j] | ModulesRequested j \<Rightarrow> [j]) @ se_then s"

definition slot_ok :: "slot \<Rightarrow> bool" where
  "slot_ok c \<longleftrightarrow> me_inv (sl_editor c) \<and> has_options (sl_editor c) \<and> (sl_life c = Fresh \<longrightarrow> \<not> has_editor (sl_editor c))"

text \<open>What holds of the slot \<open>j\<close>, given who waits and whether the language has been registered\<close>

definition fits :: "nat list \<Rightarrow> bool \<Rightarrow> nat \<Rightarrow> slot \<Rightarrow> bool" where
  "fits w lang j c \<longleftrightarrow> slot_ok c \<and>
     (case sl_life c of Fresh \<Rightarrow> j \<notin> set w | Shown \<Rightarrow> has_editor (sl_editor c) = (j \<notin> set w) | Gone \<Rightarrow> j \<in> set w \<longrightarrow> \<not> has_editor (sl_editor c)) \<and>
     (has_editor (sl_editor c) \<longrightarrow> lang)"

definition loader_ok :: "site_editors \<Rightarrow> bool" where
  "loader_ok s \<longleftrightarrow> distinct (waiting s) \<and> (\<forall>j \<in> set (waiting s). j < length (se_slots s)) \<and>
     (if se_loadedMonaco s then se_resolved s \<longleftrightarrow> se_request s = Idle else waiting s = [] \<and> \<not> se_resolved s \<and> \<not> se_monaco s) \<and>
     se_imports s = of_bool (se_languagesLoaded s) \<and> se_hooks s \<le> of_bool (se_resolved s)"

definition se_inv :: "site_editors \<Rightarrow> bool" where
  "se_inv s \<longleftrightarrow> loader_ok s \<and> (\<forall>j < length (se_slots s). fits (waiting s) (se_languagesLoaded s) j (se_slots s ! j))"

lemma set_slot_simps [simp]:
  "waiting (set_slot j c s) = waiting s" "se_slots (set_slot j c s) = (se_slots s)[j := c]"
  "se_languagesLoaded (set_slot j c s) = se_languagesLoaded s" "se_loadedMonaco (set_slot j c s) = se_loadedMonaco s"
  "loader_ok (set_slot j c s) = loader_ok s"
  by (simp_all add: set_slot_def waiting_def loader_ok_def)

lemma set_slot_inv:
  "se_inv s \<Longrightarrow> j < length (se_slots s) \<Longrightarrow> fits (waiting s) (se_languagesLoaded s) j c \<Longrightarrow> se_inv (set_slot j c s)"
  by (auto simp: se_inv_def nth_list_update)

text \<open>Using a text editor further\<close>

lemma fits_used:
  assumes "fits w lang j c" and "me_use defaults (sl_editor c) e"
  shows "fits w lang j (c\<lparr>sl_editor := e\<rparr>)"
  using assms me_use_inv [OF assms(2)] me_use_editor [OF assms(2)] me_use_options [OF assms(2)]
  by (simp add: fits_def slot_ok_def split: life.splits)

lemma fits_destroyed:
  "fits w lang j c \<Longrightarrow> fits w lang j \<lparr>sl_editor = me_ngOnDestroy (sl_editor c), sl_life = Gone\<rparr>"
  by (simp add: fits_def slot_ok_def me_destroy_inv)

text \<open>A slot is initialised.\<close>

lemma init_slot_ok:
  assumes "slot_ok (se_slots s ! j)"
  obtains c where "init_slot j s = Some ((loadLanguages s)\<lparr>se_slots := (se_slots s)[j := c]\<rparr>)" "slot_ok (c\<lparr>sl_life := Shown\<rparr>)"
    "sl_life c = sl_life (se_slots s ! j)"
    "me_editor (sl_editor c) = Some (text_of (me_form (sl_editor (se_slots s ! j))), me_options (sl_editor (se_slots s ! j)))"
    "me_form (sl_editor c) = me_form (sl_editor (se_slots s ! j))" "has_editor (sl_editor c)"
proof -
  obtain e where e: "initMonaco (me_options (sl_editor (se_slots s ! j))) (sl_editor (se_slots s ! j)) = Some e" "me_inv e" "has_options e"
    "has_editor e" "me_editor e = Some (text_of (me_form (sl_editor (se_slots s ! j))), me_options (sl_editor (se_slots s ! j)))"
    "me_form e = me_form (sl_editor (se_slots s ! j))"
    using assms me_init_inv [of "sl_editor (se_slots s ! j)"] by (auto simp: slot_ok_def)
  show ?thesis
    by (rule that [of "(se_slots s ! j)\<lparr>sl_editor := e\<rparr>"]) (use e in \<open>simp_all add: init_slot_def slot_ok_def\<close>)
qed

lemma loadLanguages_simps [simp]:
  "se_languagesLoaded (loadLanguages s)" "se_slots (loadLanguages s) = se_slots s" "waiting (loadLanguages s) = waiting s"
  "se_request (loadLanguages s) = se_request s" "se_then (loadLanguages s) = se_then s" "se_resolved (loadLanguages s) = se_resolved s"
  "se_loadedMonaco (loadLanguages s) = se_loadedMonaco s" "se_monaco (loadLanguages s) = se_monaco s" "se_hooks (loadLanguages s) = se_hooks s"
  by (simp_all add: loadLanguages_def waiting_def)

lemma loadLanguages_imports: "se_imports s = of_bool (se_languagesLoaded s) \<Longrightarrow> se_imports (loadLanguages s) = 1"
  by (simp add: loadLanguages_def)

lemma fits_initialised:
  "fits (j # w) lang j d \<Longrightarrow> j \<notin> set w \<Longrightarrow> slot_ok (c\<lparr>sl_life := Shown\<rparr>) \<Longrightarrow> sl_life c = sl_life d \<Longrightarrow> has_editor (sl_editor c) \<Longrightarrow>
   fits w True j c"
  by (cases "sl_life d") (simp_all add: fits_def slot_ok_def)

lemma fits_others: "fits (j # w) lang i c \<Longrightarrow> i \<noteq> j \<Longrightarrow> fits w True i c"
  by (cases "sl_life c") (simp_all add: fits_def)

text \<open>
  Initialising the component that waits first; \<open>r\<close> is the state in which it no longer waits.
\<close>

lemma init_waiting_inv:
  assumes "se_inv s" and w: "waiting s = j # w" and r: "waiting r = w" "se_slots r = se_slots s" "se_languagesLoaded r = se_languagesLoaded s"
    "se_imports r = se_imports s" "se_loadedMonaco r" "se_request r = Idle" "se_hooks r \<le> 1"
  obtains c where "init_slot j r = Some ((loadLanguages r)\<lparr>se_slots := (se_slots s)[j := c]\<rparr>)"
    "se_inv ((loadLanguages r)\<lparr>se_slots := (se_slots s)[j := c], se_resolved := True\<rparr>)" "j < length (se_slots s)"
    "sl_life c = sl_life (se_slots s ! j)" "me_form (sl_editor c) = me_form (sl_editor (se_slots s ! j))"
    "me_editor (sl_editor c) = Some (text_of (me_form (sl_editor (se_slots s ! j))), me_options (sl_editor (se_slots s ! j)))"
proof -
  have ok: "loader_ok s" and f: "\<And>i. i < length (se_slots s) \<Longrightarrow> fits (j # w) (se_languagesLoaded s) i (se_slots s ! i)"
    using assms(1) w by (simp_all add: se_inv_def)
  have j: "j < length (se_slots s)" "j \<notin> set w" "distinct w" "\<forall>i \<in> set w. i < length (se_slots s)"
    using ok w by (auto simp: loader_ok_def)
  then have "slot_ok (se_slots r ! j)" using f [of j] r(2) by (simp add: fits_def)
  then obtain c where c: "init_slot j r = Some ((loadLanguages r)\<lparr>se_slots := (se_slots r)[j := c]\<rparr>)" "slot_ok (c\<lparr>sl_life := Shown\<rparr>)"
    "sl_life c = sl_life (se_slots r ! j)" "has_editor (sl_editor c)" "me_form (sl_editor c) = me_form (sl_editor (se_slots r ! j))"
    "me_editor (sl_editor c) = Some (text_of (me_form (sl_editor (se_slots r ! j))), me_options (sl_editor (se_slots r ! j)))"
    by (rule init_slot_ok)
  have wa: "waiting ((loadLanguages r)\<lparr>se_slots := (se_slots s)[j := c], se_resolved := True\<rparr>) = w"
    using r(1) loadLanguages_simps(3) [of r] by (simp add: waiting_def)
  have "loader_ok ((loadLanguages r)\<lparr>se_slots := (se_slots s)[j := c], se_resolved := True\<rparr>)"
    using ok w wa r j loadLanguages_imports [of r] by (auto simp: loader_ok_def)
  moreover have "fits w True i ((se_slots s)[j := c] ! i)" if "i < length (se_slots s)" for i
    using that j c(2-4) r(2) f [of i] fits_initialised [OF f [OF j(1)]] fits_others by (cases "i = j") auto
  ultimately have "se_inv ((loadLanguages r)\<lparr>se_slots := (se_slots s)[j := c], se_resolved := True\<rparr>)"
    using wa by (simp add: se_inv_def)
  then show ?thesis using that c r(2) j(1) by simp
qed

lemma waiting_loaded: "se_inv s \<Longrightarrow> waiting s \<noteq> [] \<Longrightarrow> se_loadedMonaco s"
  by (auto simp: se_inv_def loader_ok_def split: if_splits)

lemma hooks_bound: "se_inv s \<Longrightarrow> se_hooks s \<le> of_bool (se_resolved s)"
  by (simp add: se_inv_def loader_ok_def)

lemma run_then_inv:
  assumes "se_inv s" and "se_resolved s" and "se_then s = j # js"
  obtains c where "run_then s = Some ((loadLanguages (s\<lparr>se_then := js\<rparr>))\<lparr>se_slots := (se_slots s)[j := c]\<rparr>)"
    "se_inv ((loadLanguages (s\<lparr>se_then := js\<rparr>))\<lparr>se_slots := (se_slots s)[j := c]\<rparr>)" "j < length (se_slots s)"
    "sl_life c = sl_life (se_slots s ! j)" "me_form (sl_editor c) = me_form (sl_editor (se_slots s ! j))"
    "me_editor (sl_editor c) = Some (text_of (me_form (sl_editor (se_slots s ! j))), me_options (sl_editor (se_slots s ! j)))"
proof -
  let ?r = "s\<lparr>se_then := js\<rparr>"
  have l: "se_loadedMonaco s" using waiting_loaded [OF assms(1)] assms(3) by (simp add: waiting_def)
  then have i: "se_request s = Idle" using assms(1,2) by (simp add: se_inv_def loader_ok_def)
  have "se_hooks s \<le> 1" using hooks_bound [OF assms(1)] assms(2) by simp
  then have r: "waiting ?r = js" "se_slots ?r = se_slots s" "se_languagesLoaded ?r = se_languagesLoaded s"
    "se_imports ?r = se_imports s" "se_loadedMonaco ?r" "se_request ?r = Idle" "se_hooks ?r \<le> 1"
    using l i by (simp_all add: waiting_def)
  have w: "waiting s = j # js" using assms(3) i by (simp add: waiting_def)
  obtain c where c: "init_slot j ?r = Some ((loadLanguages ?r)\<lparr>se_slots := (se_slots s)[j := c]\<rparr>)"
    "se_inv ((loadLanguages ?r)\<lparr>se_slots := (se_slots s)[j := c], se_resolved := True\<rparr>)" "j < length (se_slots s)"
    "sl_life c = sl_life (se_slots s ! j)" "me_form (sl_editor c) = me_form (sl_editor (se_slots s ! j))"
    "me_editor (sl_editor c) = Some (text_of (me_form (sl_editor (se_slots s ! j))), me_options (sl_editor (se_slots s ! j)))"
    by (rule init_waiting_inv [OF assms(1) w r])
  have "(loadLanguages ?r)\<lparr>se_slots := (se_slots s)[j := c], se_resolved := True\<rparr> = (loadLanguages ?r)\<lparr>se_slots := (se_slots s)[j := c]\<rparr>"
    using assms(2) loadLanguages_simps(6) [of ?r] by (cases "loadLanguages ?r") simp
  then have "se_inv ((loadLanguages ?r)\<lparr>se_slots := (se_slots s)[j := c]\<rparr>)" using c(2) by (simp only:)
  moreover have "run_then s = Some ((loadLanguages ?r)\<lparr>se_slots := (se_slots s)[j := c]\<rparr>)"
    using c(1) assms(2,3) by (simp add: run_then_def)
  ultimately show ?thesis using that c(3-) by blast
qed

lemma modules_loaded_inv:
  assumes "se_inv s" and "se_request s = ModulesRequested j"
  obtains c r where "modules_loaded hook s = Some (r\<lparr>se_slots := (se_slots s)[j := c], se_resolved := True\<rparr>)"
    "se_inv (r\<lparr>se_slots := (se_slots s)[j := c], se_resolved := True\<rparr>)" "se_then r = se_then s" "j < length (se_slots s)"
    "sl_life c = sl_life (se_slots s ! j)" "me_form (sl_editor c) = me_form (sl_editor (se_slots s ! j))"
    "me_editor (sl_editor c) = Some (text_of (me_form (sl_editor (se_slots s ! j))), me_options (sl_editor (se_slots s ! j)))"
proof -
  let ?r = "s\<lparr>se_request := Idle, se_monaco := True, se_hooks := se_hooks s + (if hook then 1 else 0)\<rparr>"
  have l: "se_loadedMonaco s" using waiting_loaded [OF assms(1)] assms(2) by (simp add: waiting_def)
  then have "\<not> se_resolved s" using assms by (simp add: se_inv_def loader_ok_def)
  then have h: "se_hooks s = 0" using hooks_bound [OF assms(1)] by simp
  have w: "waiting s = j # se_then s" using assms(2) by (simp add: waiting_def)
  have r: "waiting ?r = se_then s" "se_slots ?r = se_slots s" "se_languagesLoaded ?r = se_languagesLoaded s"
    "se_imports ?r = se_imports s" "se_loadedMonaco ?r" "se_request ?r = Idle" "se_hooks ?r \<le> 1"
    using l h by (simp_all add: waiting_def)
  obtain c where c: "init_slot j ?r = Some ((loadLanguages ?r)\<lparr>se_slots := (se_slots s)[j := c]\<rparr>)"
    "se_inv ((loadLanguages ?r)\<lparr>se_slots := (se_slots s)[j := c], se_resolved := True\<rparr>)" "j < length (se_slots s)"
    "sl_life c = sl_life (se_slots s ! j)" "me_form (sl_editor c) = me_form (sl_editor (se_slots s ! j))"
    "me_editor (sl_editor c) = Some (text_of (me_form (sl_editor (se_slots s ! j))), me_options (sl_editor (se_slots s ! j)))"
    by (rule init_waiting_inv [OF assms(1) w r])
  have "modules_loaded hook s = Some ((loadLanguages ?r)\<lparr>se_slots := (se_slots s)[j := c], se_resolved := True\<rparr>)"
    using c(1) assms(2) by (simp add: modules_loaded_def)
  moreover have "se_then (loadLanguages ?r) = se_then s" by simp
  ultimately show ?thesis using that c(2-) by blast
qed

lemma script_loaded_inv:
  assumes "se_inv s"
  shows "se_inv (script_loaded s)"
proof (cases "se_request s")
  case (ScriptRequested j)
  then have w: "waiting (script_loaded s) = waiting s" "waiting s \<noteq> []" by (simp_all add: script_loaded_def onGotAmdLoader_def waiting_def)
  then have "se_loadedMonaco s" using waiting_loaded [OF assms] by blast
  then show ?thesis using assms ScriptRequested w by (simp add: se_inv_def loader_ok_def) (auto simp add: script_loaded_def onGotAmdLoader_def)
qed (use assms in \<open>simp_all add: script_loaded_def\<close>)

section \<open>The invariant in every run\<close>

lemma fits_more: "fits w lang i c \<Longrightarrow> i \<noteq> j \<Longrightarrow> fits (w @ [j]) lang i c"
  by (cases "sl_life c") (simp_all add: fits_def)

lemma fits_viewed: "fits w lang j c \<Longrightarrow> sl_life c = Fresh \<Longrightarrow> j \<notin> set w \<and> fits (w @ [j]) lang j (c\<lparr>sl_life := Shown\<rparr>)"
  by (simp add: fits_def slot_ok_def)

lemma viewed_inv:
  assumes "se_inv s" and "j < length (se_slots s)" and "sl_life (se_slots s ! j) = Fresh"
  shows "se_inv (base_ngAfterViewInit j (set_slot j ((se_slots s ! j)\<lparr>sl_life := Shown\<rparr>) s))" (is "se_inv ?s'")
proof -
  have f: "\<And>i. i < length (se_slots s) \<Longrightarrow> fits (waiting s) (se_languagesLoaded s) i (se_slots s ! i)"
    using assms(1) by (simp add: se_inv_def)
  have ok: "loader_ok s" using assms(1) by (simp add: se_inv_def)
  have j: "j \<notin> set (waiting s)" "fits (waiting s @ [j]) (se_languagesLoaded s) j ((se_slots s ! j)\<lparr>sl_life := Shown\<rparr>)"
    using fits_viewed [OF f [OF assms(2)] assms(3)] by simp_all
  have w: "waiting ?s' = waiting s @ [j]" "se_slots ?s' = (se_slots s)[j := (se_slots s ! j)\<lparr>sl_life := Shown\<rparr>]"
    "se_languagesLoaded ?s' = se_languagesLoaded s"
    using ok by (auto simp: base_ngAfterViewInit_def onGotAmdLoader_def set_slot_def waiting_def loader_ok_def Let_def)
  have "loader_ok ?s'" using ok j(1) assms(2) w unfolding loader_ok_def w
    by (auto simp: base_ngAfterViewInit_def onGotAmdLoader_def set_slot_def Let_def split: if_splits)
  moreover have "fits (waiting s @ [j]) (se_languagesLoaded s) i ((se_slots s)[j := (se_slots s ! j)\<lparr>sl_life := Shown\<rparr>] ! i)"
    if "i < length (se_slots s)" for i
    using j(2) fits_more [OF f [OF that]] that by (cases "i = j") simp_all
  ultimately show ?thesis unfolding se_inv_def w by simp
qed

lemma constructed_inv:
  assumes "se_inv s" and "set_options defaults opts new_TextEditor = Some e"
  shows "se_inv (s\<lparr>se_slots := se_slots s @ [\<lparr>sl_editor = e, sl_life = Fresh\<rparr>]\<rparr>)" (is "se_inv ?s'")
proof -
  have "length (se_slots s) \<notin> set (waiting s)" using assms(1) by (auto simp: se_inv_def loader_ok_def)
  then have "fits (waiting s) (se_languagesLoaded s) (length (se_slots s)) \<lparr>sl_editor = e, sl_life = Fresh\<rparr>"
    using me_new_inv [OF assms(2)] by (simp add: fits_def slot_ok_def)
  moreover have "waiting ?s' = waiting s" by (simp add: waiting_def)
  ultimately show ?thesis using assms(1) by (auto simp: se_inv_def loader_ok_def nth_append less_Suc_eq)
qed

lemma base_ngOnDestroy_set: "base_ngOnDestroy j s = set_slot j \<lparr>sl_editor = me_ngOnDestroy (sl_editor (se_slots s ! j)), sl_life = Gone\<rparr> s"
  by (simp add: base_ngOnDestroy_def set_slot_def)

lemma se_step_inv: "se_step hook defaults s s' \<Longrightarrow> se_inv s \<Longrightarrow> se_inv s'"
proof (induction rule: se_step.induct)
  case (constructed opts e s)
  then show ?case by (blast intro: constructed_inv)
next
  case (viewed j s)
  then show ?case by (blast intro: viewed_inv)
next
  case (used j s e)
  then show ?case by (intro set_slot_inv fits_used) (simp_all add: se_inv_def)
next
  case (late j s e)
  then show ?case by (intro set_slot_inv fits_used [OF _ me_use.flushed]) (simp_all add: se_inv_def)
next
  case (destroyed j s)
  then show ?case unfolding base_ngOnDestroy_set by (intro set_slot_inv fits_destroyed) (simp_all add: se_inv_def)
next
  case (script s)
  then show ?case by (rule script_loaded_inv)
next
  case (modules s s')
  then show ?case
  proof (cases "se_request s")
    case (ModulesRequested j)
    then show ?thesis using modules by (metis modules_loaded_inv option.inject)
  qed (simp_all add: modules_loaded_def)
next
  case (resumed s s')
  then show ?case
  proof (cases "\<not> se_resolved s \<or> se_then s = []")
    case False
    then obtain j js where "se_then s = j # js" by (cases "se_then s") auto
    then show ?thesis using False resumed by (metis run_then_inv option.inject)
  qed (auto simp: run_then_def split: if_splits)
qed

lemma se_reachable_inv: "se_reachable hook defaults s \<Longrightarrow> se_inv s"
proof (induction rule: se_reachable.induct)
  case (start require)
  show ?case by (simp add: se_inv_def loader_ok_def no_editors_def waiting_def)
next
  case (later s s')
  then show ?case by (blast intro: se_step_inv)
qed

section \<open>Monaco arrives\<close>

definition filled :: "site_editors \<Rightarrow> site_editors \<Rightarrow> nat \<Rightarrow> bool" where
  "filled s s' j \<longleftrightarrow> me_editor (sl_editor (se_slots s' ! j)) =
       Some (text_of (me_form (sl_editor (se_slots s ! j))), me_options (sl_editor (se_slots s ! j))) \<and>
     sl_life (se_slots s' ! j) = sl_life (se_slots s ! j)"

lemma run_thens_all:
  assumes "se_inv s" and "se_resolved s" and "se_then s = js"
  shows "\<exists>s'. run_thens (length js) s = Some s' \<and> se_inv s' \<and> se_request s' = se_request s \<and> se_then s' = [] \<and> length (se_slots s') = length (se_slots s) \<and>
    (\<forall>j. if j \<in> set js then filled s s' j else se_slots s' ! j = se_slots s ! j)"
  using assms
proof (induction js arbitrary: s)
  case (Cons j js)
  obtain c where c: "run_then s = Some ((loadLanguages (s\<lparr>se_then := js\<rparr>))\<lparr>se_slots := (se_slots s)[j := c]\<rparr>)"
    "se_inv ((loadLanguages (s\<lparr>se_then := js\<rparr>))\<lparr>se_slots := (se_slots s)[j := c]\<rparr>)" "j < length (se_slots s)"
    "sl_life c = sl_life (se_slots s ! j)" "me_form (sl_editor c) = me_form (sl_editor (se_slots s ! j))"
    "me_editor (sl_editor c) = Some (text_of (me_form (sl_editor (se_slots s ! j))), me_options (sl_editor (se_slots s ! j)))"
    by (rule run_then_inv [OF Cons.prems])
  let ?r = "(loadLanguages (s\<lparr>se_then := js\<rparr>))\<lparr>se_slots := (se_slots s)[j := c]\<rparr>"
  have d: "j \<notin> set js"
    using Cons.prems(1,3) by (auto simp: se_inv_def loader_ok_def waiting_def)
  have "se_resolved ?r" "se_then ?r = js" using Cons.prems(2) by simp_all
  then obtain s' where s': "run_thens (length js) ?r = Some s'" "se_inv s'" "se_request s' = se_request s" "se_then s' = []"
    "length (se_slots s') = length (se_slots s)" "\<And>i. if i \<in> set js then filled ?r s' i else se_slots s' ! i = se_slots ?r ! i"
    using Cons.IH [OF c(2)] by auto
  have "if i \<in> set (j # js) then filled s s' i else se_slots s' ! i = se_slots s ! i" for i
    using s'(6) [of i] c(3-6) d by (cases "i = j") (simp_all add: filled_def split: if_splits)
  then show ?case using s'(1-5) c(1) by auto
qed (auto simp: filled_def)

definition requested :: "site_editors \<Rightarrow> nat list" where
  "requested s = (case se_request s of Idle \<Rightarrow> [] | ScriptRequested j \<Rightarrow> [j] | ModulesRequested j \<Rightarrow> [j])"

lemma waiting_requested: "waiting s = requested s @ se_then s"
  by (simp add: waiting_def requested_def)

lemma script_loaded_fields [simp]: "se_slots (script_loaded s) = se_slots s" "se_then (script_loaded s) = se_then s"
  "requested (script_loaded s) = requested s"
  by (simp_all add: script_loaded_def onGotAmdLoader_def requested_def split: monaco_request.split)

lemma modules_arrive:
  assumes "se_inv s"
  shows "\<exists>s1. modules_loaded hook (script_loaded s) = Some s1 \<and> se_inv s1 \<and> (se_then s1 = [] \<or> se_resolved s1) \<and> requested s1 = [] \<and>
    se_then s1 = se_then s \<and> length (se_slots s1) = length (se_slots s) \<and>
    (\<forall>j. if j \<in> set (requested s) then filled s s1 j else se_slots s1 ! j = se_slots s ! j)"
proof (cases "requested s")
  case Nil
  then have i: "se_request s = Idle" by (simp add: requested_def split: monaco_request.splits)
  then have "modules_loaded hook (script_loaded s) = Some s" by (simp add: script_loaded_def modules_loaded_def)
  moreover have "se_then s = [] \<or> se_resolved s"
    using assms i by (auto simp: se_inv_def loader_ok_def waiting_def split: if_splits)
  ultimately show ?thesis using assms Nil by simp
next
  case (Cons j js)
  let ?s = "script_loaded s"
  have inv: "se_inv ?s" by (rule script_loaded_inv [OF assms])
  have m: "se_request ?s = ModulesRequested j" and r: "requested s = [j]"
    using Cons by (auto simp: requested_def script_loaded_def onGotAmdLoader_def split: monaco_request.splits)
  obtain c r where c: "modules_loaded hook ?s = Some (r\<lparr>se_slots := (se_slots ?s)[j := c], se_resolved := True\<rparr>)"
    "se_inv (r\<lparr>se_slots := (se_slots ?s)[j := c], se_resolved := True\<rparr>)" "se_then r = se_then ?s" "j < length (se_slots ?s)"
    "sl_life c = sl_life (se_slots ?s ! j)" "me_form (sl_editor c) = me_form (sl_editor (se_slots ?s ! j))"
    "me_editor (sl_editor c) = Some (text_of (me_form (sl_editor (se_slots ?s ! j))), me_options (sl_editor (se_slots ?s ! j)))"
    by (rule modules_loaded_inv [OF inv m])
  let ?r = "r\<lparr>se_slots := (se_slots ?s)[j := c], se_resolved := True\<rparr>"
  have "se_request ?r = Idle" using c(2) by (auto simp: se_inv_def loader_ok_def split: if_splits)
  then have "requested ?r = []" by (simp add: requested_def)
  then show ?thesis using c r by (auto simp: filled_def)
qed

lemma arrival:
  assumes "se_inv s"
  shows "\<exists>s'. monaco_arrives hook s = Some s' \<and> se_inv s' \<and> waiting s' = [] \<and> length (se_slots s') = length (se_slots s) \<and>
    (\<forall>j. if j \<in> set (waiting s) then filled s s' j else se_slots s' ! j = se_slots s ! j)"
proof -
  obtain s1 where s1: "modules_loaded hook (script_loaded s) = Some s1" "se_inv s1" "se_then s1 = [] \<or> se_resolved s1" "requested s1 = []"
    "se_then s1 = se_then s" "length (se_slots s1) = length (se_slots s)"
    "\<And>j. if j \<in> set (requested s) then filled s s1 j else se_slots s1 ! j = se_slots s ! j"
    using modules_arrive [OF assms] by blast
  have "\<exists>s'. run_thens (length (se_then s1)) s1 = Some s' \<and> se_inv s' \<and> se_request s' = se_request s1 \<and> se_then s' = [] \<and>
    length (se_slots s') = length (se_slots s1) \<and>
    (\<forall>j. if j \<in> set (se_then s1) then filled s1 s' j else se_slots s' ! j = se_slots s1 ! j)"
    using s1(3) run_thens_all [OF s1(2) _ refl] by (cases "se_then s1 = []") (auto simp: s1(2))
  then obtain s' where s': "run_thens (length (se_then s1)) s1 = Some s'" "se_inv s'" "se_request s' = se_request s1" "se_then s' = []" "length (se_slots s') = length (se_slots s1)"
    "\<And>j. if j \<in> set (se_then s1) then filled s1 s' j else se_slots s' ! j = se_slots s1 ! j" by blast
  have w: "waiting s' = []" using s1(4) s'(3,4) by (simp add: waiting_requested requested_def)
  have d: "distinct (requested s @ se_then s)" using assms by (simp add: se_inv_def loader_ok_def waiting_requested)
  have "if j \<in> set (waiting s) then filled s s' j else se_slots s' ! j = se_slots s ! j" for j
    using s1(7) [of j] s'(6) [of j] s1(5) d by (auto simp: waiting_requested filled_def split: if_splits)
  then show ?thesis using s1(1,6) s'(1,2,5) w by (auto simp: monaco_arrives_def)
qed

lemma run_thens_reachable: "se_reachable hook defaults s \<Longrightarrow> run_thens n s = Some s' \<Longrightarrow> se_reachable hook defaults s'"
  by (induction n arbitrary: s) (auto intro: se_reachable.later [OF _ se_step.resumed] split: Option.bind_splits)

lemma arrival_reachable: "se_reachable hook defaults s \<Longrightarrow> monaco_arrives hook s = Some s' \<Longrightarrow> se_reachable hook defaults s'"
  unfolding monaco_arrives_def
  by (auto intro: run_thens_reachable se_reachable.later [OF se_reachable.later [OF _ se_step.script] se_step.modules] split: Option.bind_splits)

lemma fits_text: "fits w lang j c \<Longrightarrow> me_inv (sl_editor c)"
  by (simp add: fits_def slot_ok_def)

text \<open>
  C32. The text editors of the site, over all interleavings of constructing, showing, using and destroying components
  with the arrival of the scripts and the callbacks of the promise. Whenever the scripts arrive and the
  callbacks run, nothing throws, nobody waits any longer and every component that is shown has an
  editor. Those who waited get exactly the text of their form control and their options; all others are as before.
  The language and the hook of the configuration are registered at most once. At every moment, an editor
  without scheduled writes shows the text of its control, and resizing the window does not throw.
\<close>

theorem editors_are_created:
  assumes "se_reachable hook defaults s"
  shows "\<exists>s'. monaco_arrives hook s = Some s' \<and> se_reachable hook defaults s' \<and> waiting s' = [] \<and> se_imports s' \<le> 1 \<and> se_hooks s' \<le> 1 \<and>
    (\<forall>j < length (se_slots s). let e = sl_editor (se_slots s ! j); e' = sl_editor (se_slots s' ! j) in
       (sl_life (se_slots s ! j) = Shown \<longrightarrow> me_editor e' \<noteq> None) \<and>
       (if j \<in> set (waiting s) then me_editor e' = Some (text_of (me_form e), me_options e) else e' = e) \<and>
       (\<forall>t opts. me_editor e = Some (t, opts) \<and> me_scheduled e = 0 \<longrightarrow> t = text_of (me_form e)) \<and> me_resized e = Some e)"
proof -
  have inv: "se_inv s" using assms by (rule se_reachable_inv)
  obtain s' where s': "monaco_arrives hook s = Some s'" "se_inv s'" "waiting s' = []" "length (se_slots s') = length (se_slots s)"
    "\<And>j. if j \<in> set (waiting s) then filled s s' j else se_slots s' ! j = se_slots s ! j"
    using arrival [OF inv] by blast
  have b: "se_imports s' \<le> 1" "se_hooks s' \<le> 1"
    using s'(2) hooks_bound [OF s'(2)] by (simp add: se_inv_def loader_ok_def, cases "se_resolved s'", simp_all)
  have "let e = sl_editor (se_slots s ! j); e' = sl_editor (se_slots s' ! j) in
       (sl_life (se_slots s ! j) = Shown \<longrightarrow> me_editor e' \<noteq> None) \<and>
       (if j \<in> set (waiting s) then me_editor e' = Some (text_of (me_form e), me_options e) else e' = e) \<and>
       (\<forall>t opts. me_editor e = Some (t, opts) \<and> me_scheduled e = 0 \<longrightarrow> t = text_of (me_form e)) \<and> me_resized e = Some e"
    if j: "j < length (se_slots s)" for j
  proof -
    have f: "fits (waiting s) (se_languagesLoaded s) j (se_slots s ! j)" using inv j by (simp add: se_inv_def)
    have "sl_life (se_slots s ! j) = Shown \<longrightarrow> j \<notin> set (waiting s) \<longrightarrow> me_editor (sl_editor (se_slots s ! j)) \<noteq> None"
      using f by (auto simp: fits_def has_editor_def)
    then show ?thesis using s'(5) [of j] fits_text [OF f] me_inv_safe [OF fits_text [OF f]]
      by (auto simp: Let_def filled_def me_inv_def split: if_splits)
  qed
  then show ?thesis using s'(1,3) b arrival_reachable [OF assms s'(1)] by blast
qed

text \<open>Two editors, of which the second is destroyed while the script is loading\<close>

definition example_opts :: js where
  "example_opts = JObj [(''language'', JStr ''json'')]"

definition example_component :: slot where
  "example_component = \<lparr>sl_editor = new_TextEditor\<lparr>me_options := example_opts\<rparr>, sl_life = Fresh\<rparr>"

definition loading_site :: site_editors where
  "loading_site = (no_editors False False)\<lparr>se_loadedMonaco := True, se_request := ScriptRequested 0, se_then := [1],
     se_slots := [example_component\<lparr>sl_life := Shown\<rparr>, example_component\<lparr>sl_life := Gone\<rparr>]\<rparr>"

lemma loading_site_reachable: "se_reachable hook Undef loading_site"
proof -
  have o: "set_options Undef example_opts new_TextEditor = Some (sl_editor example_component)" "no_model example_opts" "no_model Undef"
    by (simp_all add: set_options_def example_opts_def example_component_def new_TextEditor_def js_assign_def no_model_def)
  have c: "\<lparr>sl_editor = sl_editor example_component, sl_life = Fresh\<rparr> = example_component" by (simp add: example_component_def)
  let ?s = "\<lambda>cs. (no_editors False False)\<lparr>se_slots := cs\<rparr>"
  have 1: "se_reachable hook Undef (?s [example_component])"
    using se_reachable.later [OF se_reachable.start se_step.constructed [OF o(2,3,1)], of hook False] by (simp add: no_editors_def c)
  have 2: "se_reachable hook Undef (?s [example_component, example_component])"
    using se_reachable.later [OF 1 se_step.constructed [OF o(2,3,1)]] by (simp add: no_editors_def c)
  let ?t = "(?s [example_component\<lparr>sl_life := Shown\<rparr>, example_component])\<lparr>se_loadedMonaco := True, se_request := ScriptRequested 0\<rparr>"
  have 3: "se_reachable hook Undef ?t"
    using se_reachable.later [OF 2 se_step.viewed [of 0]] by (simp add: no_editors_def set_slot_def base_ngAfterViewInit_def example_component_def)
  have 4: "se_reachable hook Undef (?t\<lparr>se_then := [1], se_slots := [example_component\<lparr>sl_life := Shown\<rparr>, example_component\<lparr>sl_life := Shown\<rparr>]\<rparr>)"
    using se_reachable.later [OF 3 se_step.viewed [of 1]] by (simp add: no_editors_def set_slot_def base_ngAfterViewInit_def example_component_def)
  show ?thesis
    using se_reachable.later [OF 4 se_step.destroyed [of 1]]
    by (simp add: loading_site_def no_editors_def base_ngOnDestroy_def me_ngOnDestroy_def example_component_def new_TextEditor_def)
qed

theorem editors_are_created_witness:
  "\<exists>s'. monaco_arrives True loading_site = Some s' \<and> me_editor (sl_editor (se_slots s' ! 0)) = Some ('''', example_opts) \<and>
     me_editor (sl_editor (se_slots s' ! 1)) = Some ('''', example_opts)"
proof -
  obtain s' where s': "monaco_arrives True loading_site = Some s'"
    "\<forall>j < length (se_slots loading_site). let e = sl_editor (se_slots loading_site ! j); e' = sl_editor (se_slots s' ! j) in
       (sl_life (se_slots loading_site ! j) = Shown \<longrightarrow> me_editor e' \<noteq> None) \<and>
       (if j \<in> set (waiting loading_site) then me_editor e' = Some (text_of (me_form e), me_options e) else e' = e) \<and>
       (\<forall>t opts. me_editor e = Some (t, opts) \<and> me_scheduled e = 0 \<longrightarrow> t = text_of (me_form e)) \<and> me_resized e = Some e"
    using editors_are_created [OF loading_site_reachable [of True]] by (elim exE conjE)
  have w: "waiting loading_site = [0, 1]" "length (se_slots loading_site) = 2" by (simp_all add: loading_site_def waiting_def)
  have e: "sl_editor (se_slots loading_site ! j) = sl_editor example_component" if "j < 2" for j
    using that by (auto simp: loading_site_def less_2_cases_iff)
  show ?thesis using s'(1) s'(2) [rule_format, of 0] s'(2) [rule_format, of 1]
    by (auto simp: Let_def w e) (auto simp: example_component_def new_TextEditor_def)
qed

text \<open>
  The editor that is created for a component that has been destroyed before is never disposed of.
\<close>

lemma init_slot_keeps:
  assumes "init_slot i s = Some s'" and "j < length (se_slots s)"
  shows "j < length (se_slots s') \<and> sl_life (se_slots s' ! j) = sl_life (se_slots s ! j) \<and>
    (has_editor (sl_editor (se_slots s ! j)) \<longrightarrow> has_editor (sl_editor (se_slots s' ! j)))"
proof -
  obtain e where "initMonaco (me_options (sl_editor (se_slots s ! i))) (sl_editor (se_slots s ! i)) = Some e"
    "s' = (loadLanguages s)\<lparr>se_slots := (se_slots s)[i := (se_slots s ! i)\<lparr>sl_editor := e\<rparr>]\<rparr>"
    using assms(1) by (auto simp: init_slot_def split: Option.bind_splits)
  then show ?thesis using assms(2) by (cases "i = j") (auto simp: initMonaco_Some has_editor_def)
qed

lemma gone_keeps_editor:
  assumes "se_step hook defaults s s'" and "j < length (se_slots s)" and "sl_life (se_slots s ! j) = Gone" and "has_editor (sl_editor (se_slots s ! j))"
  shows "j < length (se_slots s') \<and> sl_life (se_slots s' ! j) = Gone \<and> has_editor (sl_editor (se_slots s' ! j))"
  using assms
proof (induction rule: se_step.induct)
  case (late i s e)
  then show ?case using me_use_editor [OF me_use.flushed [OF late.hyps(2)]] by (auto simp: nth_list_update)
next
  case (modules s s')
  then show ?case by (auto simp: modules_loaded_def dest!: init_slot_keeps [where j = j] split: monaco_request.splits)
next
  case (resumed s s')
  then show ?case by (auto simp: run_then_def dest!: init_slot_keeps [where j = j] split: list.splits if_splits)
qed (auto simp: nth_append nth_list_update base_ngOnDestroy_def base_ngAfterViewInit_def onGotAmdLoader_def Let_def)

theorem destroyed_editor_leaks:
  assumes "se_reachable hook defaults s" and "j \<in> set (waiting s)" and "sl_life (se_slots s ! j) = Gone"
    and "monaco_arrives hook s = Some s'" and "(se_step hook defaults)\<^sup>*\<^sup>* s' s''"
  shows "me_editor (sl_editor (se_slots s'' ! j)) \<noteq> None"
proof -
  have inv: "se_inv s" using assms(1) by (rule se_reachable_inv)
  then have j: "j < length (se_slots s)" using assms(2) by (simp add: se_inv_def loader_ok_def)
  have "filled s s' j" "length (se_slots s') = length (se_slots s)" using arrival [OF inv, of hook] assms(2,4) by (auto split: if_splits)
  then have "j < length (se_slots s') \<and> sl_life (se_slots s' ! j) = Gone \<and> has_editor (sl_editor (se_slots s' ! j))"
    using j assms(3) by (simp add: filled_def has_editor_def)
  with assms(5) have "j < length (se_slots s'') \<and> sl_life (se_slots s'' ! j) = Gone \<and> has_editor (sl_editor (se_slots s'' ! j))"
    by (induction rule: rtranclp_induct) (auto dest: gone_keeps_editor)
  then show ?thesis by (simp add: has_editor_def)
qed

text \<open>If something else has loaded Monaco before, the first component to be shown never gets an editor from the loader.\<close>

lemma preloaded_monaco_forgets_first:
  assumes "se_monaco s" and "\<not> se_loadedMonaco s" and "se_request s = Idle" and "se_then s = []"
  shows "monaco_arrives hook (base_ngAfterViewInit j s) = Some (base_ngAfterViewInit j s)"
  using assms by (simp add: base_ngAfterViewInit_def monaco_arrives_def script_loaded_def modules_loaded_def Let_def)

end
