(* ===== verification/Api_Services.thy ===== *)
theory Api_Services
  imports Fake_Arguments Async_Editor
begin

text \<open>
  The services that read OpenAPI and AsyncAPI documents (stores/openapi/services, stores/asyncapi/services)
  and how the function dialog and the action dialog use them: the request that is sent and what the
  dialog does with its answer. Also the viewers of an AsyncAPI document
  (components/asyncapi-editor/viewasyncapicomponent.ts) and of a token of a running instance
  (components/statediagram/components/token/token.component.ts).
\<close>

section \<open>Requests\<close>

definition rq_openApi_operations :: "string \<Rightarrow> string \<Rightarrow> request" where
  "rq_openApi_operations api endpoint = accepting (http_post (api @ ''/openapi/operations'') (JObj [(''endpoint'', JStr endpoint)]))"

definition rq_getOpenApi :: "string \<Rightarrow> request" where
  "rq_getOpenApi endpoint = accepting (http_get endpoint)"

definition rq_asyncApi_operations :: "string \<Rightarrow> string \<Rightarrow> request" where
  "rq_asyncApi_operations api endpoint = accepting (http_post (api @ ''/asyncapi/operations'') (JObj [(''endpoint'', JStr endpoint)]))"

definition rq_asyncApi_operation :: "string \<Rightarrow> string \<Rightarrow> string \<Rightarrow> request" where
  "rq_asyncApi_operation api endpoint operationId =
     accepting (http_post (api @ ''/asyncapi/operations/'' @ operationId) (JObj [(''endpoint'', JStr endpoint)]))"

text \<open>The answer of a service: the body, or the error object of the client\<close>

datatype reply = Body js | Refused js

section \<open>The function dialog\<close>

text \<open>The requests that the dialog has sent, with the service and the url\<close>

definition operations_request :: "(js \<Rightarrow> string) \<Rightarrow> string \<Rightarrow> string \<times> js \<Rightarrow> request" where
  "operations_request show api = (\<lambda>(service, url).
     if service = ''openapi'' then rq_openApi_operations api (js_string show url) else rq_asyncApi_operations api (js_string show url))"

definition operations_reply :: "string \<Rightarrow> reply \<Rightarrow> fn_dialog \<Rightarrow> fn_dialog res" where
  "operations_reply service r d =
     (case r of
        Body e \<Rightarrow> Option.bind (js_elements e) (\<lambda>ops. if service = ''openapi'' then openApi_loaded ops d else asyncApi_loaded ops d)
      | Refused e \<Rightarrow> if service = ''openapi'' then openApi_failed e d else asyncApi_failed e d)"

text \<open>
  The operations that are offered after a request and its answer: those of the document; after a
  refusal none for OpenAPI, but still the placeholder of the loading list for AsyncAPI.
\<close>

theorem offered_operations:
  assumes "js_get op ''operationId'' = Some i" and "js_get e ''error'' = Some Undef"
  shows "map_option fd_operations (operations_reply ''openapi'' (Body (JArr (op # ops))) (extractOpenApi d)) = Some (op # ops) \<and>
    map_option fd_asyncApiOperations (operations_reply ''asyncapi'' (Body (JArr (op # ops))) (extractAsyncApi d)) = Some (op # ops) \<and>
    map_option fd_operations (operations_reply ''openapi'' (Refused e) (extractOpenApi d)) = Some [] \<and>
    map_option fd_asyncApiOperations (operations_reply ''asyncapi'' (Refused e) (extractAsyncApi d)) = Some [JObj [(''operationId'', JStr ''Loading...'')]]"
  using assms by (simp add: operations_reply_def js_elements_def openApi_loaded_def asyncApi_loaded_def first_operationId_def
      openApi_failed_def asyncApi_failed_def error_message_def extractAsyncApi_def refreshAsyncApiOperations_def)

section \<open>The action dialog\<close>

definition arguments_request :: "string \<Rightarrow> string \<times> string \<times> string option \<Rightarrow> request" where
  "arguments_request api = (\<lambda>(service, url, operationId).
     if service = ''asyncapi'' then rq_asyncApi_operation api url (case operationId of None \<Rightarrow> ''undefined'' | Some i \<Rightarrow> i) else rq_getOpenApi url)"

text \<open>Both callbacks for errors are empty.\<close>

definition arguments_reply ::
    "(js \<Rightarrow> string) \<Rightarrow> (js \<Rightarrow> js) \<Rightarrow> nat \<Rightarrow> string \<times> string \<times> string option \<Rightarrow> reply \<Rightarrow> act_dialog \<Rightarrow> act_dialog res" where
  "arguments_reply show stringify n rq r d =
     (case (rq, r) of
        (_, Refused e) \<Rightarrow> Some d
      | ((service, url, operationId), Body e) \<Rightarrow>
          (if service = ''asyncapi'' then asyncApi_arguments stringify n e d
           else openApi_arguments show stringify n (case operationId of None \<Rightarrow> ''undefined'' | Some i \<Rightarrow> i) e d))"

section \<open>Viewers\<close>

record asyncapi_viewer =
  av_json :: js
  av_yaml :: string

text \<open>\<open>init\<close>, with the document that \<open>AsyncApiBuilder.build\<close> gives; a panel without application stays empty.\<close>

definition viewAsyncApi_init :: "(js \<Rightarrow> js) \<Rightarrow> (js \<Rightarrow> string) \<Rightarrow> js res option \<Rightarrow> asyncapi_viewer \<Rightarrow> asyncapi_viewer res" where
  "viewAsyncApi_init stringify yaml document v =
     (case document of None \<Rightarrow> Some v | Some doc \<Rightarrow> map_option (\<lambda>json. v\<lparr>av_json := stringify json, av_yaml := yaml json\<rparr>) doc)"

definition token_json :: "(js \<Rightarrow> js) \<Rightarrow> js \<Rightarrow> js" where
  "token_json stringify v = stringify v"

end
