(* ===== verification/Spec2Isabelle.thy ===== *)
theory Spec2Isabelle
  imports Diagram_Props Async_Session Fake_Arguments Condition_Panels Message_Dialog Jq_Completion
    Page_Loading Site_Routes Monitoring App_Shell Editor_Loading Api_Services
begin

text \<open>
  Verification of the web site of FaasNet, the Angular application under
  src/Clients/FaasNet.Website/src (paths below are relative to it). With it, users draw serverless
  workflows and event-driven applications, manage functions, vpns, clients and message definitions, and
  watch what runs. The site keeps its data in an ngrx store that is filled by requests to the server;
  pages and editors dispatch actions, and react to the values that selectors emit.

  \<^bold>\<open>How the code is represented.\<close> Dynamically typed values are the datatype \<open>js\<close> (\<open>Js_Prelude\<close>); an
  expression that may throw has type \<open>'a res\<close>, with \<open>None\<close> for the \<open>TypeError\<close> (or \<open>SyntaxError\<close>); a
  handler that throws ends the run of the model. Classes are records with one field per attribute,
  handlers are functions on them in the order of the source, and objects that are shared and mutated
  (nodes, edges, anchors, links, form controls) live in arrays or heaps and are referred to by
  position. Numbers are rationals, the keys of an object are distinct and kept in the order in which
  they were added, and form controls hold what the user or the code has set. Event sequences are
  inductive step relations; no event is excluded unless the template does not offer it.

  \<^bold>\<open>Parameters.\<close> Code that is not part of the site is an argument: \<open>parse\<close> and \<open>stringify\<close> for \<open>JSON\<close>
  (hypothesis \<open>json_laws\<close>: parsing what was serialised gives the value without its \<open>undefined\<close>
  properties), \<open>show\<close> for the conversion of numbers, arrays and objects to strings, \<open>yaml\<close> for the YAML
  library, \<open>jq\<close> for the evaluation of expressions, \<open>blank\<close> for \<open>Validators.required\<close>, \<open>ctm\<close> for the
  screen matrix of an SVG element, \<open>random\<close> for \<open>Math.random\<close>, \<open>tm\<close>, \<open>now\<close>, \<open>clock\<close> and \<open>time\<close> for dates,
  \<open>api\<close> for the url of the server, services by their answers (\<open>search_service\<close>), and \<open>router\<close> for the router
  (hypothesis \<open>router_laws\<close>: it chooses one of the matching branches of the declared routes). Each property
  with such a hypothesis has a witness with a concrete instance.

  \<^bold>\<open>Fuel.\<close> Recursions that the code does not bound carry fuel: the removal of a state (\<open>remove\<close>), the
  construction of the diagram, the generator of identifiers, the generator of example arguments, the
  queue of actions of the frame and the value of a form. For each of them it is proved which
  inputs need only finitely much (for instance the number of states, \<open>length h\<close> for a form, four
  for the queue) and, for the removal on cycles and the generator on cyclic schemas, that no fuel suffices.

  \<^bold>\<open>Workflow documents\<close> (stores/statemachines/models). \<open>SM_States\<close>: filters, transitions, conditions,
  actions and the four state classes, with constructors, transition methods and \<open>getJson\<close>. \<open>SM_Json\<close>:
  their codecs (locale \<open>json_codec\<close>). \<open>SM_Transitions\<close>: the contract of the transition methods, over all
  kinds of states. \<open>SM_Model\<close>: \<open>StateMachineModel\<close>, loading, saving and what saving and loading keeps.
  \<open>SM_Remove\<close>: the recursive removal removes exactly what is reachable, and diverges on cycles.

  \<^bold>\<open>State diagram\<close> (components/statediagram/statediagram.component.ts). \<open>Diagram_Build\<close>: nodes, edges,
  labels, anchors and drop zones, built by a depth-first walk; one node per reachable state, one
  edge per transition. \<open>Diagram_Layout\<close>: positions; boxes do not overlap, stay in the page and carry
  what is attached to them. \<open>Guid\<close>: generated identifiers. \<open>Diagram_Editor\<close>, \<open>Diagram_Props\<close>: all
  handlers and their invariant over every sequence of events.

  \<^bold>\<open>Panels and dialogs of the diagram\<close> (components/statediagram/components, app/statemachines/edit).
  \<open>Expression_Editor\<close>, \<open>Jq_Completion\<close> (components/monaco-editor/languages/jq), \<open>State_Panels\<close> and
  \<open>Condition_Panels\<close> (panels of states and conditions with the handlers that stay subscribed),
  \<open>Dialog_Function\<close>, \<open>Dialog_Action\<close>, \<open>Fake_Arguments\<close> (example arguments from OpenAPI and AsyncAPI
  documents), \<open>Api_Services\<close> (the services behind them, viewers of documents and tokens).

  \<^bold>\<open>Application editor\<close> (components/asyncapi-editor). \<open>Async_Builder\<close>: AsyncAPI documents whose references
  resolve. \<open>Async_Editor\<close>, \<open>Async_Props\<close>, \<open>Async_Panels\<close>, \<open>Async_Session\<close>: elements, links, anchors
  and zones as a heap, all mouse handlers, the panels of an application and a link, and the invariant of
  every session, with loading and saving.

  \<^bold>\<open>Stores\<close> (stores). \<open>Store_Core\<close>: JSON cloning, requests, effects and the locale of a store keyed by
  a name. \<open>Store_Mesh\<close>: vpns, clients, application domains, message definitions. \<open>Store_Workflows\<close>:
  functions, workflows, instances, event mesh servers, server status. \<open>App_Store\<close> (stores/appstate.ts):
  the whole state, selectors, and the run time in which answers arrive in any order.

  \<^bold>\<open>Pages\<close> (app, components/messages). \<open>Workflow_Page\<close>: the page of a workflow with the store, saving and
  showing again. \<open>Search_Lists\<close>: the three lists of search results, as a locale, which show every
  result once. \<open>Message_Dialog\<close>: the dialog and the list of message definitions, a round trip. \<open>Site_Pages\<close>:
  pages of vpns, clients, domains, functions and instances. \<open>Page_Loading\<close>: the contract of a loading
  indicator, as a locale interpreted for three pages. \<open>Function_Forms\<close>: the form that is rendered from a
  function's configuration, as a heap of controls. \<open>Monitoring\<close>: charts and the requests of the timer.
  \<open>App_Shell\<close>: the frame, whose select box and store settle. \<open>Site_Routes\<close>: the routes of all modules, the links of
  the templates and the requests of the pages that they open; every link leads to its page and its record.
  \<open>Editor_Widgets\<close>: the text editor bound to a form control, and the side panels. \<open>Editor_Loading\<close>: all editors of
  the site with the script that they wait for; every shown editor is created once.

  \<^bold>\<open>Components together\<close> (this theory). A message definition from its dialog through store and request back to the
  list, whatever happens in between; and a vpn from the select box of the frame through the store to the
  lists that depend on it.

  \<^bold>\<open>What the theorems say where the code is wrong.\<close> Properties state what the code does. Where that is
  not what it means to do, the theorem describes the actual behaviour exactly (removal on cycles, a lost
  side of a link, conditions that a panel deletes, an expression that grows, paths that are not
  suggested, a tab that asks for another client, a list that stays on its page).

  \<^bold>\<open>Not modelled.\<close> Module and environment declarations, the registration of DOM listeners, menus,
  tooltips and strings of SVG attributes have no state. The loader element and the safe-url pipe act only on the DOM,
  the log pages show a fixed frame. The input \<open>model\<close> of the text editor is used by no page and shares the
  texts of the third-party editor. The directory dist/out-tsc is compiled output, of these sources and of
  earlier versions that the site no longer contains. The servers, the runtime, the consensus library and
  the command line client are written in C#.
\<close>

section \<open>Editing a message definition: dialog, list, store and requests together\<close>

lemma message_response:
  assumes "keyed ''id'' (MessageDefinitionLst (messageDefs s))"
  shows "appReducer now (MessageA (CompleteUpdateMessageDefinition i ds sch)) s =
    (if JStr i \<in> set (map (key_of ''id'') (MessageDefinitionLst (messageDefs s)))
     then Some (s\<lparr>messageDefs := \<lparr>MessageDefinitionLst = map (\<lambda>x. if key_of ''id'' x = JStr i then updated_message now ds sch x else x)
                   (MessageDefinitionLst (messageDefs s))\<rparr>\<rparr>)
     else None)"
proof -
  have "clone_list (MessageDefinitionLst (messageDefs s)) = MessageDefinitionLst (messageDefs s)"
    using assms by (simp add: clone_records keyed_def)
  then show ?thesis by (simp add: change_by_id_keyed [OF assms])
qed

lemma message_answer:
  "dispatch yaml api now (MessageA (settle (\<lambda>content. Some (CompleteUpdateMessageDefinition i ds sch)) ErrorUpdateMessageDefinition Failure)) rt = Some rt"
  "keyed ''id'' (MessageDefinitionLst (messageDefs (rt_state rt))) \<Longrightarrow>
   dispatch yaml api now (MessageA (settle (\<lambda>content. Some (CompleteUpdateMessageDefinition i ds sch)) ErrorUpdateMessageDefinition (Success c))) rt =
     (if JStr i \<in> set (map (key_of ''id'') (MessageDefinitionLst (messageDefs (rt_state rt))))
      then Some (rt\<lparr>rt_state := (rt_state rt)\<lparr>messageDefs := \<lparr>MessageDefinitionLst =
             map (\<lambda>x. if key_of ''id'' x = JStr i then updated_message now ds sch x else x)
               (MessageDefinitionLst (messageDefs (rt_state rt)))\<rparr>\<rparr>\<rparr>)
      else None)"
  by (simp_all add: dispatch_def settle_def lift_effect_def message_response del: appReducer.simps)
    (simp add: dispatch_def settle_def lift_effect_def)

lemma updated_message_keys:
  "is_record x \<Longrightarrow> key_of key (updated_message now ds sch x) =
     (if key = ''description'' then JStr ds else if key = ''jsonSchema'' then JStr sch
      else if key = ''updateDateTime'' then now else key_of key x)"
  by (cases x) (auto simp: updated_message_def)

lemma mp_loaded_list: "mp_messages (mp_loaded s p) = JArr (MessageDefinitionLst (messageDefs s))"
  by (simp add: mp_loaded_def selectMessageDefsResult_def if_truthy_def)

text \<open>
  C35. What is stored in the dialog of a message definition reaches the server and the list. The list
  sends exactly one request, with the description and the schema of the form, and leaves the store as
  it is. Whenever that request is answered later, whatever has been dispatched and answered in between,
  a refusal changes nothing; a success settles the request and the list shows the same definitions,
  of which exactly the one with the edited id has the new description and schema. If no definition has
  this id any more, because it has been published in between, the reducer throws.
\<close>

theorem edited_message_is_shown:
  assumes "mf_save blank f = Some e" and "mf_description f = JStr ds" and "mf_jsonSchema f = JStr sch"
    and "js_get m ''id'' = Some (JStr i)"
  shows "\<exists>a rt1 k. editMessage show m (Some e) = Some (Some a) \<and> dispatch yaml api now a rt = Some rt1 \<and>
    rt_state rt1 = rt_state rt \<and> rt_pending rt1 = rt_pending rt @ [(rq_updateMessageDef api i ds sch, k)] \<and>
    (\<forall>rt' j now' c p. let xs = MessageDefinitionLst (messageDefs (rt_state rt')) in
       j < length (rt_pending rt') \<and> rt_pending rt' ! j = (rq_updateMessageDef api i ds sch, k) \<and> keyed ''id'' xs \<longrightarrow>
       map_option rt_state (respond yaml api now' j Failure rt') = Some (rt_state rt') \<and>
       (\<forall>x \<in> set xs. \<forall>key. key_of key (updated_message now' ds sch x) =
          (if key = ''description'' then JStr ds else if key = ''jsonSchema'' then JStr sch
           else if key = ''updateDateTime'' then now' else key_of key x)) \<and>
       (if JStr i \<in> set (map (key_of ''id'') xs)
        then \<exists>rt2. respond yaml api now' j (Success c) rt' = Some rt2 \<and>
          rt_pending rt2 = take j (rt_pending rt') @ drop (Suc j) (rt_pending rt') \<and>
          mp_messages (mp_loaded (rt_state rt2) p) =
            JArr (map (\<lambda>x. if key_of ''id'' x = JStr i then updated_message now' ds sch x else x) xs)
        else respond yaml api now' j (Success c) rt' = None))"
proof -
  let ?k = "\<lambda>r. MessageA (settle (\<lambda>content. Some (CompleteUpdateMessageDefinition i ds sch)) ErrorUpdateMessageDefinition r)"
  have e: "editMessage show m (Some e) = Some (Some (MessageA (UpdateMessageDefinition i ds sch)))"
    using assms by (auto simp: editMessage_def mf_save_def split: if_splits)
  have d: "dispatch yaml api now (MessageA (UpdateMessageDefinition i ds sch)) rt =
      Some (rt\<lparr>rt_pending := rt_pending rt @ [(rq_updateMessageDef api i ds sch, ?k)]\<rparr>)"
    by (simp add: dispatch_def lift_effect_def)
  show ?thesis
    by (rule exI [of _ "MessageA (UpdateMessageDefinition i ds sch)"], rule exI, rule exI [of _ ?k])
      (auto simp: e d Let_def respond_def message_answer mp_loaded_list updated_message_keys keyed_def list_all_iff)
qed

text \<open>A definition is being published when it is edited; the answers may arrive in both orders.\<close>

definition edited_while_published :: runtime where
  "edited_while_published = \<lparr>rt_state = (initial_app Map.empty)\<lparr>messageDefs := \<lparr>MessageDefinitionLst =
       [JObj [(''id'', JStr ''1''), (''name'', JStr ''m''), (''version'', JNum 0), (''description'', JStr ''old''), (''jsonSchema'', JStr ''{}'')]]\<rparr>\<rparr>,
     rt_pending = [(rq_publishMessageDef ''api'' ''1'',
       \<lambda>r. MessageA (settle (\<lambda>content. map_option (CompletePublishMessageDefinition ''1'') (js_get content ''Id'')) ErrorPublishMessageDefinition r))]\<rparr>"

definition example_edited :: message_form where
  "example_edited = new_AddMessageDef\<lparr>mf_name := JStr ''m'', mf_description := JStr ''d'', mf_jsonSchema := JStr ''{}''\<rparr>"

theorem edited_message_is_shown_witness:
  "\<exists>a rt1 rt2 rt3. editMessage (\<lambda>_. '''') (JObj [(''id'', JStr ''1'')]) (mf_save (\<lambda>v. v = JStr '''') example_edited) = Some (Some a) \<and>
     dispatch example_yaml ''api'' Null a edited_while_published = Some rt1 \<and>
     respond example_yaml ''api'' Null 1 (Success Null) rt1 = Some rt2 \<and>
     mp_messages (mp_loaded (rt_state rt2) new_MessagesVpn) = JArr [JObj [(''id'', JStr ''1''), (''name'', JStr ''m''), (''version'', JNum 0),
       (''description'', JStr ''d''), (''jsonSchema'', JStr ''{}''), (''updateDateTime'', Null)]] \<and>
     respond example_yaml ''api'' Null 0 (Success (JObj [(''Id'', JStr ''2'')])) rt1 = Some rt3 \<and>
     respond example_yaml ''api'' Null 0 (Success Null) rt3 = None"
proof -
  let ?rq = "rq_updateMessageDef ''api'' ''1'' ''d'' ''{}''"
  obtain e where e: "mf_save (\<lambda>v. v = JStr '''') example_edited = Some e"
    by (simp add: mf_save_def example_edited_def)
  have d: "mf_description example_edited = JStr ''d''" "mf_jsonSchema example_edited = JStr ''{}''"
    "js_get (JObj [(''id'', JStr ''1'')]) ''id'' = Some (JStr ''1'')" by (simp_all add: example_edited_def)
  obtain a rt1 k where a: "editMessage (\<lambda>_. '''') (JObj [(''id'', JStr ''1'')]) (Some e) = Some (Some a)"
    "dispatch example_yaml ''api'' Null a edited_while_published = Some rt1"
    and st: "rt_state rt1 = rt_state edited_while_published" "rt_pending rt1 = rt_pending edited_while_published @ [(?rq, k)]"
    and k: "\<forall>rt' j now' c p. let xs = MessageDefinitionLst (messageDefs (rt_state rt')) in
       j < length (rt_pending rt') \<and> rt_pending rt' ! j = (?rq, k) \<and> keyed ''id'' xs \<longrightarrow>
       map_option rt_state (respond example_yaml ''api'' now' j Failure rt') = Some (rt_state rt') \<and>
       (\<forall>x \<in> set xs. \<forall>key. key_of key (updated_message now' ''d'' ''{}'' x) =
          (if key = ''description'' then JStr ''d'' else if key = ''jsonSchema'' then JStr ''{}''
           else if key = ''updateDateTime'' then now' else key_of key x)) \<and>
       (if JStr ''1'' \<in> set (map (key_of ''id'') xs)
        then \<exists>rt2. respond example_yaml ''api'' now' j (Success c) rt' = Some rt2 \<and>
          rt_pending rt2 = take j (rt_pending rt') @ drop (Suc j) (rt_pending rt') \<and>
          mp_messages (mp_loaded (rt_state rt2) p) =
            JArr (map (\<lambda>x. if key_of ''id'' x = JStr ''1'' then updated_message now' ''d'' ''{}'' x else x) xs)
        else respond example_yaml ''api'' now' j (Success c) rt' = None)"
    using edited_message_is_shown [OF e d, of "\<lambda>_. ''''" example_yaml "''api''" Null edited_while_published] by (elim exE conjE)
  have 1: "\<exists>rt2. respond example_yaml ''api'' Null 1 (Success Null) rt1 = Some rt2 \<and>
     mp_messages (mp_loaded (rt_state rt2) new_MessagesVpn) = JArr [JObj [(''id'', JStr ''1''), (''name'', JStr ''m''), (''version'', JNum 0),
       (''description'', JStr ''d''), (''jsonSchema'', JStr ''{}''), (''updateDateTime'', Null)]]"
    using k [rule_format, of rt1 1 Null Null new_MessagesVpn]
    by (auto simp: Let_def st edited_while_published_def keyed_def updated_message_def)
  have "\<exists>rt3. respond example_yaml ''api'' Null 0 (Success (JObj [(''Id'', JStr ''2'')])) rt1 = Some rt3 \<and>
    rt_pending rt3 = [(?rq, k)] \<and> map (key_of ''id'') (MessageDefinitionLst (messageDefs (rt_state rt3))) = [JStr ''2''] \<and>
    keyed ''id'' (MessageDefinitionLst (messageDefs (rt_state rt3)))"
    by (simp add: respond_def dispatch_def settle_def st edited_while_published_def change_by_id_keyed keyed_def
        clone_records published_message_def lift_effect_def)
  then obtain rt3 where 2: "respond example_yaml ''api'' Null 0 (Success (JObj [(''Id'', JStr ''2'')])) rt1 = Some rt3"
    "rt_pending rt3 = [(?rq, k)]" "map (key_of ''id'') (MessageDefinitionLst (messageDefs (rt_state rt3))) = [JStr ''2'']"
    "keyed ''id'' (MessageDefinitionLst (messageDefs (rt_state rt3)))" by (elim exE conjE)
  then have "respond example_yaml ''api'' Null 0 (Success Null) rt3 = None"
    using k [rule_format, of rt3 0 Null Null new_MessagesVpn] by (simp add: Let_def flip: set_map)
  then show ?thesis using e a 1 2(1) by auto
qed

section \<open>Choosing a vpn: frame, store and lists together\<close>

text \<open>
  C33. The vpn that is chosen in the frame reaches the lists of workflows and of instances. The choice settles in the store, the
  select box shows it, and an open list then asks for the results of that vpn and shows a window of
  them, when its request is answered. The window is the one of the page that the list was turned to for the vpn before; if the chosen
  vpn has fewer results, the list is empty although there are results.
\<close>

theorem chosen_vpn_reaches_lists:
  assumes "shell_inv (sh, rt)" and "v \<noteq> []" and "lst_paginator p = Some g" and "lst_sort p = Some so" and "0 < pageSize g"
    and "search_service (\<lambda>i n order direction vpn. rq_searchStateMachines api i n order direction vpn) workflows srv"
    and "search_service (\<lambda>i n order direction vpn. rq_searchInstances api i n order direction vpn) instances srv"
  shows "\<exists>sh' rt'. (case choose_vpn show (JStr v) sh of (sh1, acts) \<Rightarrow> shell_run show yaml api now 4 acts (sh1, rt)) = Some (sh', rt') \<and>
    sh_control sh' = JStr v \<and>
    (\<exists>p1 a1 p2 rt2. list_vpn show search_stateMachines (rt_state rt') p = (p1, Some a1) \<and>
       requests_of yaml api [a1] = [rq_searchStateMachines api (page_startIndex g) (page_count g) (page_order so) (page_direction so) v] \<and>
       visit show yaml api now search_stateMachines selectStateMachinesResult srv (pageIndex g) (p1, rt') = Some (p2, rt2) \<and>
       lst_content p2 = JArr (take (pageSize g) (drop (pageIndex g * pageSize g) (workflows (page_order so) (page_direction so) v))) \<and>
       (length (workflows (page_order so) (page_direction so) v) \<le> pageIndex g * pageSize g \<longrightarrow> lst_content p2 = JArr [])) \<and>
    (\<exists>p1 a1 p2 rt2. list_vpn show search_instances (rt_state rt') p = (p1, Some a1) \<and>
       requests_of yaml api [a1] = [rq_searchInstances api (page_startIndex g) (page_count g) (page_order so) (page_direction so) v] \<and>
       visit show yaml api now search_instances selectStateMachineInstancesResult srv (pageIndex g) (p1, rt') = Some (p2, rt2) \<and>
       lst_content p2 = JArr (take (pageSize g) (drop (pageIndex g * pageSize g) (instances (page_order so) (page_direction so) v))) \<and>
       (length (instances (page_order so) (page_direction so) v) \<le> pageIndex g * pageSize g \<longrightarrow> lst_content p2 = JArr []))"
proof -
  obtain sh' rt' where c: "(case choose_vpn show (JStr v) sh of (sh1, acts) \<Rightarrow> shell_run show yaml api now 4 acts (sh1, rt)) = Some (sh', rt')"
    "selectedVpn (vpn_st (rt_state rt')) = JStr v" "sh_control sh' = JStr v"
    using vpn_selection_settles [OF assms(1) dispatch_select [of yaml api now v rt], of "show" 0 v] assms(2) by auto
  have a: "selectActiveVpnResult (rt_state rt') = JStr v" using c(2) assms(2) by (simp add: selectActiveVpnResult_def if_truthy_def)
  obtain p1 a1 k1 p2 rt2 where w: "list_vpn show search_stateMachines (rt_state rt') p = (p1, Some a1)"
    "app_effect yaml api a1 = Some (rq_searchStateMachines api (page_startIndex g) (page_count g) (page_order so) (page_direction so) v, k1)"
    "visit show yaml api now search_stateMachines selectStateMachinesResult srv (pageIndex g) (p1, rt') = Some (p2, rt2)"
    "lst_content p2 = JArr (take (pageSize g) (drop (pageIndex g * pageSize g) (workflows (page_order so) (page_direction so) v)))"
    using sm_list.vpn_change_shows_window [OF assms(6,3,4,5) a assms(2), of "show" yaml now rt'] by (elim exE conjE)
  obtain q1 b1 l1 q2 st2 where i: "list_vpn show search_instances (rt_state rt') p = (q1, Some b1)"
    "app_effect yaml api b1 = Some (rq_searchInstances api (page_startIndex g) (page_count g) (page_order so) (page_direction so) v, l1)"
    "visit show yaml api now search_instances selectStateMachineInstancesResult srv (pageIndex g) (q1, rt') = Some (q2, st2)"
    "lst_content q2 = JArr (take (pageSize g) (drop (pageIndex g * pageSize g) (instances (page_order so) (page_direction so) v)))"
    using instance_list.vpn_change_shows_window [OF assms(7,3,4,5) a assms(2), of "show" yaml now rt'] by (elim exE conjE)
  show ?thesis
    by (rule exI [of _ sh'], rule exI [of _ rt'], intro conjI c(1,3),
        rule exI [of _ p1], rule exI [of _ a1], rule exI [of _ p2], rule exI [of _ rt2], use w in simp,
        rule exI [of _ q1], rule exI [of _ b1], rule exI [of _ q2], rule exI [of _ st2], use i in simp)
qed

text \<open>The list of workflows is on its second page when another vpn is chosen that has three workflows.\<close>

definition example_shell :: shell where
  "example_shell = \<lparr>sh_vpns = JArr [], sh_serverStatus = JObj [(''isRunning'', JBool False)], sh_control = JStr ''red'', sh_showLogging = False, sh_seen = JStr ''red''\<rparr>"

definition example_list :: list_page where
  "example_list = new_ListPage\<lparr>lst_paginator := Some \<lparr>pageIndex = 1, pageSize = 5\<rparr>, lst_sort := Some \<lparr>sort_active = '''', sort_direction = ''''\<rparr>\<rparr>"

theorem chosen_vpn_reaches_lists_witness:
  "\<exists>sh' rt' p1 a1 p2 rt2.
     (case choose_vpn (\<lambda>_. '''') (JStr ''blue'') example_shell of (sh1, acts) \<Rightarrow>
        shell_run (\<lambda>_. '''') (\<lambda>_. '''') ''api'' Null 4 acts (sh1, \<lparr>rt_state = initial_app [''selectedVpn'' \<mapsto> ''red''], rt_pending = []\<rparr>)) = Some (sh', rt') \<and>
     list_vpn (\<lambda>_. '''') search_stateMachines (rt_state rt') example_list = (p1, Some a1) \<and>
     visit (\<lambda>_. '''') (\<lambda>_. '''') ''api'' Null search_stateMachines selectStateMachinesResult example_service 1 (p1, rt') = Some (p2, rt2) \<and>
     lst_content p2 = JArr []"
proof -
  let ?rt = "\<lparr>rt_state = initial_app [''selectedVpn'' \<mapsto> ''red''], rt_pending = []\<rparr>"
  have "shell_open (\<lambda>_. '''') (initial_app [''selectedVpn'' \<mapsto> ''red'']) = Some (example_shell, [ServerA StartGetServerStatus])"
    by (simp add: boot_shell getItem_def if_truthy_def example_shell_def)
  then have inv: "shell_inv (example_shell, ?rt)" by (rule boot_shell_inv)
  have srv: "search_service (\<lambda>i n order direction vpn. rq_searchStateMachines ''api'' i n order direction vpn) (\<lambda>_ _ _. example_results) example_service"
    "search_service (\<lambda>i n order direction vpn. rq_searchInstances ''api'' i n order direction vpn) (\<lambda>_ _ _. example_results) example_service"
    by (simp_all add: search_service_def example_service_def rq_searchStateMachines_def rq_searchInstances_def http_post_def search_body_def example_results_def)
  have l: "lst_paginator example_list = Some \<lparr>pageIndex = 1, pageSize = 5\<rparr>" "lst_sort example_list = Some \<lparr>sort_active = '''', sort_direction = ''''\<rparr>"
    "0 < pageSize \<lparr>pageIndex = 1, pageSize = 5\<rparr>" "length example_results \<le> 1 * 5"
    by (simp_all add: example_list_def example_results_def)
  have v: "''blue'' \<noteq> []" by simp
  show ?thesis
    using chosen_vpn_reaches_lists [OF inv v l(1-3) srv, of "\<lambda>_. ''''" "\<lambda>_. ''''" Null] l(4)
    by (elim exE conjE, intro exI conjI) (assumption | simp)+
qed

end
